theory Spec2Isabelle
  imports Complex_Main
begin

section \<open>Strings and the regular expressions of the edge function\<close>

text \<open>
  A JavaScript string is a sequence of UTF-16 code units; a code unit is modelled as a
  natural number. \<open>js\<close> reads an ASCII literal as such a sequence. The fixed sentences of
  the edge function contain the right single quotation mark U+2019, code unit 8217.
\<close>

type_synonym jsstring = "nat list"

definition js :: "string \<Rightarrow> jsstring" where
  "js s = map of_char s"

definition rsquo :: jsstring where
  "rsquo = [8217]"

text \<open>
  \<open>String.prototype.toLowerCase\<close>. The letters A to Z go to a to z. Two code units
  outside ASCII lower to ASCII letters: U+0130 to \<open>i\<close> followed by U+0307, and U+212A
  (the Kelvin sign) to \<open>k\<close>. Every other code unit from U+0080 on lowers to code units
  from U+0080 on, one for one; the model leaves them as they are, which the patterns
  below cannot observe: they compare with ASCII characters only and no case mapping
  produces or removes a line terminator.
\<close>

definition lowerUnit :: "nat \<Rightarrow> jsstring" where
  "lowerUnit c =
     (if 65 \<le> c \<and> c \<le> 90 then [c + 32]
      else if c = 304 then [105, 775]
      else if c = 8490 then [107]
      else [c])"

definition toLowerCase :: "jsstring \<Rightarrow> jsstring" where
  "toLowerCase s = concat (map lowerUnit s)"

text \<open>
  \<open>String.prototype.trim\<close> removes white space and line terminators from both ends.
\<close>

definition isWhiteSpace :: "nat \<Rightarrow> bool" where
  "isWhiteSpace c =
     (c = 9 \<or> c = 10 \<or> c = 11 \<or> c = 12 \<or> c = 13 \<or> c = 32 \<or> c = 160 \<or> c = 5760
      \<or> (8192 \<le> c \<and> c \<le> 8202) \<or> c = 8232 \<or> c = 8233 \<or> c = 8239 \<or> c = 8287
      \<or> c = 12288 \<or> c = 65279)"

definition trim :: "jsstring \<Rightarrow> jsstring" where
  "trim s = rev (dropWhile isWhiteSpace (rev (dropWhile isWhiteSpace s)))"

text \<open>
  The regular expressions of the source carry the flag \<open>i\<close> and not the flag \<open>u\<close>.
  Then \<open>\w\<close> and \<open>\b\<close> know the ASCII word characters only, \<open>.\<close> matches every code
  unit but the four line terminators, and two characters are equal when their
  canonical forms are. The canonical form of an ASCII character is its upper case, and
  that of a code unit from U+0080 on is never an ASCII character; since every pattern of
  the source is made of ASCII characters, the model leaves those code units unchanged.
\<close>

definition isWordChar :: "nat \<Rightarrow> bool" where
  "isWordChar c =
     ((48 \<le> c \<and> c \<le> 57) \<or> (65 \<le> c \<and> c \<le> 90) \<or> c = 95 \<or> (97 \<le> c \<and> c \<le> 122))"

definition isLineTerminator :: "nat \<Rightarrow> bool" where
  "isLineTerminator c = (c = 10 \<or> c = 13 \<or> c = 8232 \<or> c = 8233)"

definition canonicalize :: "nat \<Rightarrow> nat" where
  "canonicalize c = (if 97 \<le> c \<and> c \<le> 122 then c - 32 else c)"

text \<open>
  A position in the input, as the matcher sees it: the code unit before the position
  (none at the start of the input) and the input from the position on.
\<close>

type_synonym cursor = "nat option \<times> jsstring"

fun isWordBefore :: "cursor \<Rightarrow> bool" where
  "isWordBefore (None, s) = False"
| "isWordBefore (Some c, s) = isWordChar c"

fun isWordAfter :: "cursor \<Rightarrow> bool" where
  "isWordAfter (prev, []) = False"
| "isWordAfter (prev, c # s) = isWordChar c"

text \<open>The assertion \<open>\b\<close>: exactly one side of the position is a word character.\<close>

definition wordBoundary :: "cursor \<Rightarrow> bool" where
  "wordBoundary cur = (isWordBefore cur \<noteq> isWordAfter cur)"

text \<open>The assertions \<open>^\<close> and \<open>$\<close>, without the flag \<open>m\<close>.\<close>

definition atStart :: "cursor \<Rightarrow> bool" where
  "atStart cur = (fst cur = None)"

definition atEnd :: "cursor \<Rightarrow> bool" where
  "atEnd cur = (snd cur = [])"

text \<open>
  A sequence of pattern characters: each one consumes one code unit with the same
  canonical form. The result is the position after the match.
\<close>

fun literal :: "jsstring \<Rightarrow> cursor \<Rightarrow> cursor option" where
  "literal [] cur = Some cur"
| "literal (c # p) (prev, []) = None"
| "literal (c # p) (prev, d # s) =
     (if canonicalize c = canonicalize d then literal p (Some d, s) else None)"

text \<open>\<open>.*\<close>: the positions reached by consuming code units other than line terminators.\<close>

fun dotStar :: "cursor \<Rightarrow> cursor list" where
  "dotStar (prev, []) = [(prev, [])]"
| "dotStar (prev, c # s) =
     (prev, c # s) # (if isLineTerminator c then [] else dotStar (Some c, s))"

text \<open>
  The start positions that \<open>RegExp.prototype.test\<close> tries, in order: every position of the
  input, the end included.
\<close>

fun cursorsFrom :: "nat option \<Rightarrow> jsstring \<Rightarrow> cursor list" where
  "cursorsFrom prev [] = [(prev, [])]"
| "cursorsFrom prev (c # s) = (prev, c # s) # cursorsFrom (Some c) s"

definition positions :: "jsstring \<Rightarrow> cursor list" where
  "positions s = cursorsFrom None s"

text \<open>\<open>String.prototype.includes\<close>: a raw, case-sensitive substring test.\<close>

definition includes_str :: "jsstring \<Rightarrow> jsstring \<Rightarrow> bool" where
  "includes_str s x = (\<exists>cur \<in> set (positions s). take (length x) (snd cur) = x)"

text \<open>
  A pattern \<open>pre.*(a1|...|an)\<close> under the flag \<open>i\<close>: \<open>pre\<close> matches at some position,
  any code units other than line terminators follow, then one of the alternatives.
\<close>

definition dotStarTest :: "jsstring \<Rightarrow> jsstring list \<Rightarrow> jsstring \<Rightarrow> bool" where
  "dotStarTest pre alts s =
     (\<exists>cur \<in> set (positions s).
        case literal pre cur of
          None \<Rightarrow> False
        | Some mid \<Rightarrow> \<exists>cur' \<in> set (dotStar mid). \<exists>a \<in> set alts. literal a cur' \<noteq> None)"

text \<open>
  \<open>isTimeSensitive\<close>: the pattern
  \<open>\b(this week|today|right now|currently|current|now|tonight|tomorrow|yesterday)\b\<close>.
\<close>

definition recencyMarkers :: "jsstring list" where
  "recencyMarkers =
     [js ''this week'', js ''today'', js ''right now'', js ''currently'', js ''current'',
      js ''now'', js ''tonight'', js ''tomorrow'', js ''yesterday'']"

definition isTimeSensitive :: "jsstring \<Rightarrow> bool" where
  "isTimeSensitive question =
     (\<exists>cur \<in> set (positions question). wordBoundary cur
        \<and> (\<exists>a \<in> set recencyMarkers.
              case literal a cur of None \<Rightarrow> False | Some cur' \<Rightarrow> wordBoundary cur'))"

text \<open>
  \<open>escapeRegex\<close> puts a backslash before each of the fourteen syntax characters
  \<open>. * + ? ^ $ { } ( ) | [ ] \\<close>, so that the pattern built from the result is a plain
  sequence of characters: a character that is no syntax character stands for itself,
  and a backslash with a syntax character stands for that character. \<open>patternChars\<close>
  reads such a pattern back as the characters it matches.
\<close>

definition isSyntaxChar :: "nat \<Rightarrow> bool" where
  "isSyntaxChar c =
     (c = 46 \<or> c = 42 \<or> c = 43 \<or> c = 63 \<or> c = 94 \<or> c = 36 \<or> c = 123 \<or> c = 125
      \<or> c = 40 \<or> c = 41 \<or> c = 124 \<or> c = 91 \<or> c = 93 \<or> c = 92)"

definition escapeRegex :: "jsstring \<Rightarrow> jsstring" where
  "escapeRegex s = concat (map (\<lambda>c. if isSyntaxChar c then [92, c] else [c]) s)"

fun patternChars :: "jsstring \<Rightarrow> jsstring" where
  "patternChars [] = []"
| "patternChars [c] = [c]"
| "patternChars (c # d # s) = (if c = 92 then d # patternChars s else c # patternChars (d # s))"

text \<open>
  \<open>hasWholePhrase\<close>: the pattern \<open>(^|\b)p(\b|$)\<close> under the flag \<open>i\<close>, where \<open>p\<close> is
  the escaped lower-case phrase.
\<close>

definition wholePhraseAt :: "jsstring \<Rightarrow> cursor \<Rightarrow> bool" where
  "wholePhraseAt p cur =
     ((atStart cur \<or> wordBoundary cur)
      \<and> (case literal p cur of
            None \<Rightarrow> False
          | Some cur' \<Rightarrow> wordBoundary cur' \<or> atEnd cur'))"

definition hasWholePhrase :: "jsstring \<Rightarrow> jsstring \<Rightarrow> bool" where
  "hasWholePhrase q phrase =
     (let p = patternChars (escapeRegex (toLowerCase phrase))
      in \<exists>cur \<in> set (positions q). wholePhraseAt p cur)"

definition hasAnyWholePhrase :: "jsstring \<Rightarrow> jsstring list \<Rightarrow> bool" where
  "hasAnyWholePhrase q phrases = (\<exists>p \<in> set phrases. hasWholePhrase q p)"

section \<open>Answering from the museum profile\<close>

text \<open>
  \<open>MuseumRow\<close>: every column but \<open>id\<close> may be null. \<open>founded_year\<close> is an integer
  column of the database.
\<close>

record MuseumRow =
  museum_id :: jsstring
  name :: "jsstring option"
  address :: "jsstring option"
  city :: "jsstring option"
  state :: "jsstring option"
  postal_code :: "jsstring option"
  country :: "jsstring option"
  website :: "jsstring option"
  phone :: "jsstring option"
  director :: "jsstring option"
  founded_year :: "int option"
  former_name :: "jsstring option"
  mission :: "jsstring option"

text \<open>An entry of the \<open>sources\<close> array of a response.\<close>

record Source =
  source_id :: jsstring
  source_url :: "jsstring option"
  similarity :: real

record Answer =
  answer :: jsstring
  sources :: "Source list"

text \<open>
  Truthiness, as \<open>if (museum.director)\<close> and \<open>filter(Boolean)\<close> test it: null and the
  empty string are falsy, and so are null and 0 for a number.
\<close>

definition truthy :: "jsstring option \<Rightarrow> bool" where
  "truthy x = (case x of None \<Rightarrow> False | Some s \<Rightarrow> s \<noteq> [])"

definition truthyNum :: "int option \<Rightarrow> bool" where
  "truthyNum x = (case x of None \<Rightarrow> False | Some n \<Rightarrow> n \<noteq> 0)"

text \<open>The value of a field inside a template literal; a null reads \<open>null\<close>.\<close>

definition str :: "jsstring option \<Rightarrow> jsstring" where
  "str x = (case x of None \<Rightarrow> js ''null'' | Some s \<Rightarrow> s)"

text \<open>The decimal digits of a number, as a template literal prints an integer.\<close>

fun digits :: "nat \<Rightarrow> jsstring" where
  "digits n = (if n < 10 then [48 + n] else digits (n div 10) @ [48 + n mod 10])"

definition showInt :: "int \<Rightarrow> jsstring" where
  "showInt n = (if n < 0 then 45 # digits (nat (- n)) else digits (nat n))"

definition num :: "int option \<Rightarrow> jsstring" where
  "num x = (case x of None \<Rightarrow> js ''null'' | Some n \<Rightarrow> showInt n)"

text \<open>\<open>Array.prototype.join\<close> on strings.\<close>

fun join :: "jsstring \<Rightarrow> jsstring list \<Rightarrow> jsstring" where
  "join sep [] = []"
| "join sep [x] = x"
| "join sep (x # y # xs) = x @ sep @ join sep (y # xs)"

definition makeProfileSource :: "MuseumRow \<Rightarrow> Source" where
  "makeProfileSource museum =
     \<lparr>source_id = js ''museum_profile:'' @ museum_id museum,
      source_url = website museum,
      similarity = 1\<rparr>"

definition location :: "MuseumRow \<Rightarrow> jsstring" where
  "location museum =
     join (js '', '')
       (map str (filter truthy
          [address museum, city museum, state museum, postal_code museum, country museum]))"

text \<open>The conditions of the eight \<open>if\<close> statements, on the lower-case question.\<close>

definition directorTrigger :: "jsstring \<Rightarrow> bool" where
  "directorTrigger q =
     (hasAnyWholePhrase q [js ''director'', js ''ceo'', js ''leadership'']
      \<or> includes_str q (js ''executive director'')
      \<or> includes_str q (js ''museum director''))"

definition missionTrigger :: "jsstring \<Rightarrow> bool" where
  "missionTrigger q = hasAnyWholePhrase q [js ''mission'', js ''purpose'', js ''goal'']"

definition foundedTrigger :: "jsstring \<Rightarrow> bool" where
  "foundedTrigger q =
     (hasAnyWholePhrase q [js ''founded'', js ''established'']
      \<or> dotStarTest (js ''when was'') [js ''founded'', js ''established''] q
      \<or> dotStarTest (js ''when did'') [js ''open''] q
      \<or> hasWholePhrase q (js ''built''))"

definition formerNameTrigger :: "jsstring \<Rightarrow> bool" where
  "formerNameTrigger q =
     (includes_str q (js ''formerly'')
      \<or> includes_str q (js ''former name'')
      \<or> includes_str q (js ''used to be called'')
      \<or> includes_str q (js ''old name'')
      \<or> includes_str q (js ''renamed'')
      \<or> includes_str q (js ''name change''))"

definition addressTrigger :: "jsstring \<Rightarrow> bool" where
  "addressTrigger q =
     (hasAnyWholePhrase q [js ''address'', js ''location'']
      \<or> dotStarTest (js ''where'') [js ''located''] q
      \<or> includes_str q (js ''where is it'')
      \<or> includes_str q (js ''how do i get there''))"

definition websiteTrigger :: "jsstring \<Rightarrow> bool" where
  "websiteTrigger q = hasAnyWholePhrase q [js ''website'', js ''official site'', js ''url'']"

definition phoneTrigger :: "jsstring \<Rightarrow> bool" where
  "phoneTrigger q =
     (hasAnyWholePhrase q [js ''phone'', js ''telephone'', js ''contact number'']
      \<or> hasWholePhrase q (js ''call''))"

definition nameTrigger :: "jsstring \<Rightarrow> bool" where
  "nameTrigger q =
     (hasAnyWholePhrase q [js ''name of the museum'', js ''full name'']
      \<or> dotStarTest (js ''what'') [js ''name''] q)"

text \<open>
  The fixed sentences. All refusals open with the same sentence and differ in what the
  visitor is sent to the website for.
\<close>

definition notAvailable :: jsstring where
  "notAvailable =
     js ''That isn'' @ rsquo @ js ''t available in the provided sources right now. ''
     @ js ''Please check the museum'' @ rsquo @ js ''s official website''"

definition genericRefusal :: jsstring where
  "genericRefusal = notAvailable @ js ''.''"

definition withSources :: "jsstring \<Rightarrow> MuseumRow \<Rightarrow> Answer" where
  "withSources text museum = \<lparr>answer = text, sources = [makeProfileSource museum]\<rparr>"

definition refusal :: "jsstring \<Rightarrow> Answer" where
  "refusal text = \<lparr>answer = text, sources = []\<rparr>"

definition tryAnswerFromMuseumProfile :: "jsstring \<Rightarrow> MuseumRow option \<Rightarrow> Answer option" where
  "tryAnswerFromMuseumProfile questionRaw museumRow =
     (case museumRow of
        None \<Rightarrow> None
      | Some museum \<Rightarrow>
         (let q = toLowerCase questionRaw in
          if directorTrigger q then
            (if truthy (director museum)
             then Some (withSources
               (js ''The museum'' @ rsquo @ js ''s director is '' @ str (director museum) @ js ''.'')
               museum)
             else Some (refusal (notAvailable @ js '' for the latest leadership details.'')))
          else if missionTrigger q then
            (if truthy (mission museum)
             then Some (withSources (js ''Mission: '' @ str (mission museum)) museum)
             else Some (refusal (notAvailable @ js '' for the mission statement.'')))
          else if foundedTrigger q then
            (if truthyNum (founded_year museum)
             then Some (withSources
               (js ''The museum was founded in '' @ num (founded_year museum) @ js ''.'')
               museum)
             else Some (refusal (notAvailable @ js '' for its history.'')))
          else if formerNameTrigger q then
            (if truthy (former_name museum)
             then Some (withSources
               (js ''It was formerly known as '' @ str (former_name museum) @ js ''.'') museum)
             else Some (refusal
               (notAvailable @ js '' for details about the name change.'')))
          else if addressTrigger q then
            (if location museum \<noteq> []
             then Some (withSources
               (js ''The museum is located at '' @ location museum @ js ''.'') museum)
             else Some (refusal (notAvailable @ js '' for location details.'')))
          else if websiteTrigger q then
            (if truthy (website museum)
             then Some (withSources
               (js ''The official website is '' @ str (website museum) @ js ''.'') museum)
             else Some (refusal genericRefusal))
          else if phoneTrigger q then
            (if truthy (phone museum)
             then Some (withSources
               (js ''You can reach the museum at '' @ str (phone museum) @ js ''.'') museum)
             else Some (refusal genericRefusal))
          else if nameTrigger q then
            (if truthy (name museum)
             then Some (withSources
               (js ''The museum is called '' @ str (name museum) @ js ''.'') museum)
             else Some (refusal genericRefusal))
          else None))"

section \<open>Similarity values\<close>

text \<open>
  A JavaScript number is a finite value, NaN or an infinity. Finite values are modelled
  as real numbers: the rounding of binary floating point is left out, except that a
  decimal literal too large for a finite double reads as an infinity. So a decimal
  literal reads here as the number it writes and not as the double nearest to it: a
  literal just below 0.45 that rounds to the double of 0.45 is below \<open>MIN_SIMILARITY\<close>
  here and at it in the code, and a literal too small for a double is not 0 here and 0
  in the code.
\<close>

datatype jsnumber = Finite real | NaN | PosInfinity | NegInfinity

text \<open>The column \<open>similarity\<close> of a match: \<open>number | string\<close>.\<close>

datatype simvalue = Number jsnumber | String jsstring

definition isDigit :: "nat \<Rightarrow> bool" where
  "isDigit c = (48 \<le> c \<and> c \<le> 57)"

text \<open>The number that a sequence of decimal digits writes.\<close>

definition digitsValue :: "jsstring \<Rightarrow> nat" where
  "digitsValue ds = foldl (\<lambda>n c. 10 * n + (c - 48)) 0 ds"

text \<open>
  The exponent part of a decimal literal: \<open>e\<close> or \<open>E\<close>, an optional sign and at least one
  digit. Where the input does not continue with one, the exponent is 0.
\<close>

definition exponentPart :: "jsstring \<Rightarrow> int" where
  "exponentPart s =
     (case s of
        [] \<Rightarrow> 0
      | c # r \<Rightarrow>
         if c = 101 \<or> c = 69 then
           (case r of
              [] \<Rightarrow> 0
            | d # r' \<Rightarrow>
               if d = 45 then - int (digitsValue (takeWhile isDigit r'))
               else if d = 43 then int (digitsValue (takeWhile isDigit r'))
               else int (digitsValue (takeWhile isDigit r)))
         else 0)"

text \<open>
  The double nearest to a real number is finite below \<open>2^1024 - 2^970\<close>, the midpoint
  of the largest double and \<open>2^1024\<close>.
\<close>

definition roundToNumber :: "real \<Rightarrow> jsnumber" where
  "roundToNumber v =
     (if 2 ^ 1024 - 2 ^ 970 \<le> v then PosInfinity
      else if v \<le> - (2 ^ 1024 - 2 ^ 970) then NegInfinity
      else Finite v)"

text \<open>
  An unsigned decimal literal at the head of the input, the longest there is:
  \<open>Infinity\<close>, or digits with an optional fraction, or a dot with digits, each of the
  last two with an optional exponent. None when the input starts with no literal.
\<close>

definition unsignedLiteral :: "jsstring \<Rightarrow> jsnumber option" where
  "unsignedLiteral s =
     (if take 8 s = js ''Infinity'' then Some PosInfinity
      else
        let ip = takeWhile isDigit s;
            r1 = dropWhile isDigit s;
            dot = (r1 \<noteq> [] \<and> hd r1 = 46);
            fp = (if dot then takeWhile isDigit (tl r1) else []);
            r2 = (if dot then dropWhile isDigit (tl r1) else r1)
        in if ip = [] \<and> fp = [] then None
           else
             let e = exponentPart r2 - int (length fp);
                 m = real (digitsValue (ip @ fp))
             in Some (roundToNumber (if 0 \<le> e then m * 10 ^ nat e else m / 10 ^ nat (- e))))"

definition negate :: "jsnumber \<Rightarrow> jsnumber" where
  "negate n =
     (case n of
        Finite v \<Rightarrow> Finite (- v)
      | NaN \<Rightarrow> NaN
      | PosInfinity \<Rightarrow> NegInfinity
      | NegInfinity \<Rightarrow> PosInfinity)"

text \<open>
  \<open>parseFloat\<close>: skip leading white space, read an optional sign and the longest decimal
  literal, ignore what follows; NaN when there is no literal.
\<close>

definition parseFloat :: "jsstring \<Rightarrow> jsnumber" where
  "parseFloat s =
     (let t = dropWhile isWhiteSpace s in
      case t of
        [] \<Rightarrow> NaN
      | c # r \<Rightarrow>
         if c = 45 then (case unsignedLiteral r of None \<Rightarrow> NaN | Some n \<Rightarrow> negate n)
         else if c = 43 then (case unsignedLiteral r of None \<Rightarrow> NaN | Some n \<Rightarrow> n)
         else (case unsignedLiteral t of None \<Rightarrow> NaN | Some n \<Rightarrow> n))"

text \<open>\<open>Number.isFinite(x) ? x : null\<close>.\<close>

definition finiteOrNull :: "jsnumber \<Rightarrow> real option" where
  "finiteOrNull n = (case n of Finite v \<Rightarrow> Some v | _ \<Rightarrow> None)"

definition toNumber :: "simvalue \<Rightarrow> real option" where
  "toNumber x =
     (case x of
        Number n \<Rightarrow> finiteOrNull n
      | String s \<Rightarrow> finiteOrNull (parseFloat s))"

section \<open>The request handler\<close>

text \<open>
  A value as \<open>req.json()\<close> returns it and as the handler reads a member of it: any value
  of JSON, or \<open>undefined\<close> for a member that is not there. A number of JSON reads as a
  double, and one too large for a double as an infinity.
\<close>

datatype jsvalue =
  Undefined
  | JNull
  | JBoolean bool
  | JNumber jsnumber
  | JString jsstring
  | JArray "jsvalue list"
  | JObject "(jsstring \<times> jsvalue) list"

text \<open>
  \<open>RagRequest\<close>, as the handler reads it. The body is cast to this type and never
  checked, so each of \<open>museum_id\<close>, \<open>question\<close> and \<open>match_count\<close> holds whatever value the
  client sent, of any type, or is missing. A body that is valid JSON but no object
  reads as a request with no member. \<open>Malformed\<close> is a body that \<open>req.json()\<close> rejects,
  with the message of the error thrown.
\<close>

record RagRequest =
  req_museum_id :: jsvalue
  req_question :: jsvalue
  req_match_count :: jsvalue

datatype Payload = Malformed jsstring | Parsed RagRequest

record Request =
  http_method :: jsstring
  payload :: Payload

record Config =
  SERVICE_ROLE_KEY :: jsstring
  OPENAI_API_KEY :: jsstring

record MatchRow =
  match_id :: jsstring
  chunk_text :: jsstring
  match_similarity :: simvalue

text \<open>A match after normalisation: its similarity is a finite number.\<close>

record NormalizedRow =
  norm_id :: jsstring
  norm_text :: jsstring
  norm_similarity :: real

text \<open>
  The services that the handler awaits, as functions of what it sends them, and what
  it takes from its runtime. \<open>Inl\<close> carries the message of a failure.
  \<^item> \<open>jwt_ref\<close>: the member \<open>ref\<close> of the payload of the service key, which
    \<open>getSupabaseUrlFromJwt\<close> decodes; None when decoding fails or there is none.
  \<^item> \<open>museum_row\<close>: \<open>tryGetMuseumRow\<close>, null on any failure. It is called with the
    museum id as the body holds it.
  \<^item> \<open>embedding\<close>: \<open>getEmbedding\<close>, which throws when the service answers with an error.
  \<^item> \<open>match_content_chunks\<close>: the remote procedure of that name, called with the
    query embedding, the match count and the museum id as the body holds it.
  \<^item> \<open>chunk_urls\<close>: the rows \<open>id, source_url\<close> of \<open>content_chunks\<close> for a list of ids
    (no row when the query fails).
  \<^item> \<open>chat\<close>: \<open>chatCompletion\<close>, which throws when the service answers with an error.
  \<^item> \<open>number_text\<close>: the decimal text of a finite number, as the runtime writes it
    where a number is read as a string.
  \<^item> \<open>trim_error\<close>: the message of the \<open>TypeError\<close> that the runtime throws when
    \<open>trim\<close> is called on a question that is no string and so has no such method.
\<close>

record 'e World =
  jwt_ref :: "jsstring \<Rightarrow> jsstring option"
  museum_row :: "jsvalue \<Rightarrow> MuseumRow option"
  embedding :: "jsstring \<Rightarrow> jsstring + 'e"
  match_content_chunks :: "'e \<Rightarrow> real \<Rightarrow> jsvalue \<Rightarrow> jsstring + MatchRow list"
  chunk_urls :: "jsstring list \<Rightarrow> (jsstring \<times> jsstring option) list"
  chat :: "jsstring \<Rightarrow> jsstring + jsstring"
  number_text :: "real \<Rightarrow> jsstring"
  trim_error :: "jsvalue \<Rightarrow> jsstring"

datatype Upstream = TenantLookup | Embedder | VectorSearch | SourceLookup | LanguageModel

datatype Body = PlainText jsstring | ErrorJson jsstring "jsstring option" | AnswerJson Answer

record Response =
  status :: nat
  body :: Body

definition MIN_SIMILARITY :: real where
  "MIN_SIMILARITY = 45 / 100"

definition MAX_MATCH_COUNT :: real where
  "MAX_MATCH_COUNT = 10"

text \<open>The pattern \<open>UUID_REGEX\<close>, anchored at both ends, under the flag \<open>i\<close>.\<close>

definition isHex :: "nat \<Rightarrow> bool" where
  "isHex c = ((48 \<le> c \<and> c \<le> 57) \<or> (97 \<le> c \<and> c \<le> 102) \<or> (65 \<le> c \<and> c \<le> 70))"

definition isDash :: "nat \<Rightarrow> bool" where
  "isDash c = (c = 45)"

definition isVersion :: "nat \<Rightarrow> bool" where
  "isVersion c = (49 \<le> c \<and> c \<le> 53)"

definition isVariant :: "nat \<Rightarrow> bool" where
  "isVariant c = (c = 56 \<or> c = 57 \<or> c = 97 \<or> c = 98 \<or> c = 65 \<or> c = 66)"

definition UUID_REGEX :: "(nat \<Rightarrow> bool) list" where
  "UUID_REGEX =
     replicate 8 isHex @ [isDash] @ replicate 4 isHex @ [isDash]
     @ [isVersion] @ replicate 3 isHex @ [isDash]
     @ [isVariant] @ replicate 3 isHex @ [isDash] @ replicate 12 isHex"

definition UUID_REGEX_test :: "jsstring \<Rightarrow> bool" where
  "UUID_REGEX_test v = list_all2 (\<lambda>cls c. cls c) UUID_REGEX v"

text \<open>
  Truthiness of a value, as \<open>!museumId\<close> and \<open>!question\<close> test it: \<open>undefined\<close>, null,
  \<open>false\<close>, zero, NaN and the empty string are falsy, every other value is truthy.
\<close>

fun truthyValue :: "jsvalue \<Rightarrow> bool" where
  "truthyValue Undefined = False"
| "truthyValue JNull = False"
| "truthyValue (JBoolean b) = b"
| "truthyValue (JNumber n) = (case n of Finite v \<Rightarrow> v \<noteq> 0 | NaN \<Rightarrow> False | _ \<Rightarrow> True)"
| "truthyValue (JString s) = (s \<noteq> [])"
| "truthyValue (JArray xs) = True"
| "truthyValue (JObject members) = True"

text \<open>
  The string that a value reads as where a string is expected. A string reads as
  itself; an array as its elements, each read in this way and null as the empty
  string, with commas between them; an object of JSON as \<open>[object Object]\<close>. \<open>nt\<close> is
  the decimal text of a finite number.
\<close>

fun ToString :: "(real \<Rightarrow> jsstring) \<Rightarrow> jsvalue \<Rightarrow> jsstring" where
  "ToString nt Undefined = js ''undefined''"
| "ToString nt JNull = js ''null''"
| "ToString nt (JBoolean b) = (if b then js ''true'' else js ''false'')"
| "ToString nt (JNumber n) =
     (case n of
        Finite v \<Rightarrow> nt v
      | NaN \<Rightarrow> js ''NaN''
      | PosInfinity \<Rightarrow> js ''Infinity''
      | NegInfinity \<Rightarrow> js ''-Infinity'')"
| "ToString nt (JString s) = s"
| "ToString nt (JArray xs) =
     join (js '','')
       (map (\<lambda>x. if x = JNull \<or> x = Undefined then [] else ToString nt x) xs)"
| "ToString nt (JObject members) = js ''[object Object]''"

text \<open>
  \<open>isValidUuid\<close> is declared for a string, but the handler passes it the museum id of
  the unchecked body, and \<open>UUID_REGEX.test\<close> reads its argument as a string first.
\<close>

definition isValidUuid :: "(real \<Rightarrow> jsstring) \<Rightarrow> jsvalue \<Rightarrow> bool" where
  "isValidUuid nt v = UUID_REGEX_test (ToString nt v)"

definition getSupabaseUrlFromJwt :: "'e World \<Rightarrow> jsstring \<Rightarrow> jsstring + jsstring" where
  "getSupabaseUrlFromJwt w jwt =
     (case jwt_ref w jwt of
        None \<Rightarrow> Inl (js ''Could not derive SUPABASE_URL from SERVICE_ROLE_KEY'')
      | Some r \<Rightarrow> if r = [] then Inl (js ''Could not derive SUPABASE_URL from SERVICE_ROLE_KEY'')
                  else Inr (js ''https://'' @ r @ js ''.supabase.co''))"

text \<open>
  \<open>requestedMatchCount\<close>: the count of the body when it is a number above 0, at most
  \<open>MAX_MATCH_COUNT\<close>, and 5 for every other value. The minimum of an infinity and
  \<open>MAX_MATCH_COUNT\<close> is \<open>MAX_MATCH_COUNT\<close>.
\<close>

definition requestedMatchCount :: "RagRequest \<Rightarrow> real" where
  "requestedMatchCount b =
     (case req_match_count b of
        JNumber n \<Rightarrow>
          (case n of
             Finite v \<Rightarrow> if 0 < v then min v MAX_MATCH_COUNT else 5
           | PosInfinity \<Rightarrow> MAX_MATCH_COUNT
           | _ \<Rightarrow> 5)
      | _ \<Rightarrow> 5)"

definition rpcMatchCount :: "RagRequest \<Rightarrow> real" where
  "rpcMatchCount b = min (max (requestedMatchCount b) 5 + 5) MAX_MATCH_COUNT"

text \<open>
  \<open>normalized\<close>: each similarity goes through \<open>toNumber\<close>, and the rows where it is not a
  number are filtered out.
\<close>

definition normalizeRow :: "MatchRow \<Rightarrow> NormalizedRow option" where
  "normalizeRow r =
     (case toNumber (match_similarity r) of
        None \<Rightarrow> None
      | Some v \<Rightarrow> Some \<lparr>norm_id = match_id r, norm_text = chunk_text r, norm_similarity = v\<rparr>)"

definition normalized :: "MatchRow list \<Rightarrow> NormalizedRow list" where
  "normalized rows = List.map_filter normalizeRow rows"

text \<open>
  \<open>strong\<close>: the similarity floor, then \<open>slice(0, requestedMatchCount)\<close>, which cuts the
  positive count down to an integer.
\<close>

definition strong :: "NormalizedRow list \<Rightarrow> real \<Rightarrow> NormalizedRow list" where
  "strong rows requested =
     take (nat \<lfloor>requested\<rfloor>) (filter (\<lambda>r. MIN_SIMILARITY \<le> norm_similarity r) rows)"

definition timeSensitiveRefusal :: jsstring where
  "timeSensitiveRefusal =
     js ''That changes frequently and isn'' @ rsquo
     @ js ''t available in the provided sources right now. ''
     @ js ''Please check the museum'' @ rsquo @ js ''s official website for the latest details.''"

definition json :: "nat \<Rightarrow> Body \<Rightarrow> Response" where
  "json code b = \<lparr>status = code, body = b\<rparr>"

definition internalError :: "jsstring \<Rightarrow> Response" where
  "internalError msg = json 500 (ErrorJson (js ''Internal server error'') (Some msg))"

definition contextOf :: "NormalizedRow list \<Rightarrow> jsstring" where
  "contextOf rows =
     join [10, 10]
       (map (\<lambda>(i, r). js ''('' @ digits (i + 1) @ js '') '' @ norm_text r) (enumerate 0 rows))"

definition promptOf :: "jsstring \<Rightarrow> jsstring \<Rightarrow> jsstring" where
  "promptOf context q =
     join [10]
       [js ''Context:'' @ [10] @ context, [10] @ js ''Question: '' @ q, [10] @ js ''Answer:'']"

text \<open>
  \<open>srcMap.get(r.id) ?? null\<close>: in a \<open>Map\<close> built from pairs the last pair of a key
  counts, and a null URL reads as no URL.
\<close>

definition sourceUrlOf :: "(jsstring \<times> jsstring option) list \<Rightarrow> jsstring \<Rightarrow> jsstring option" where
  "sourceUrlOf pairs i = (case map_of (rev pairs) i of None \<Rightarrow> None | Some u \<Rightarrow> u)"

text \<open>
  The handler from the similarity gate on: what it answers to the rows of the vector
  search, and the services it calls for it.
\<close>

definition answerFromRows ::
  "'e World \<Rightarrow> jsstring \<Rightarrow> real \<Rightarrow> MatchRow list \<Rightarrow> Response \<times> Upstream list" where
  "answerFromRows w q requested rows =
     (let strongRows = strong (normalized rows) requested in
      if isTimeSensitive q \<and> strongRows = [] then
        (json 200 (AnswerJson (refusal timeSensitiveRefusal)), [])
      else if strongRows = [] then
        (json 200 (AnswerJson (refusal genericRefusal)), [])
      else
        let context = contextOf strongRows;
            urls = chunk_urls w (map norm_id strongRows);
            prompt = promptOf context q
        in case chat w prompt of
             Inl msg \<Rightarrow> (internalError msg, [SourceLookup, LanguageModel])
           | Inr text \<Rightarrow>
               (json 200 (AnswerJson
                  \<lparr>answer = text,
                   sources =
                     map (\<lambda>r. \<lparr>source_id = norm_id r,
                                source_url = sourceUrlOf urls (norm_id r),
                                similarity = norm_similarity r\<rparr>) strongRows\<rparr>),
                [SourceLookup, LanguageModel]))"

text \<open>The handler from the tenant lookup on, for a valid museum id and question.\<close>

definition answerQuestion ::
  "'e World \<Rightarrow> RagRequest \<Rightarrow> jsvalue \<Rightarrow> jsstring \<Rightarrow> Response \<times> Upstream list" where
  "answerQuestion w b museumId q =
     (case tryAnswerFromMuseumProfile q (museum_row w museumId) of
        Some profileAnswer \<Rightarrow> (json 200 (AnswerJson profileAnswer), [TenantLookup])
      | None \<Rightarrow>
         (case embedding w q of
            Inl msg \<Rightarrow> (internalError msg, [TenantLookup, Embedder])
          | Inr qEmbedding \<Rightarrow>
             (case match_content_chunks w qEmbedding (rpcMatchCount b) museumId of
                Inl msg \<Rightarrow>
                  (internalError (js ''match_content_chunks failed: '' @ msg),
                   [TenantLookup, Embedder, VectorSearch])
              | Inr rows \<Rightarrow>
                  (let (r, calls) = answerFromRows w q (requestedMatchCount b) rows
                   in (r, [TenantLookup, Embedder, VectorSearch] @ calls)))))"

text \<open>
  \<open>body?.question?.trim() ?? ""\<close>: the empty string for a question that is missing or
  null, the trimmed question for a string. Any other value has no method \<open>trim\<close>, and
  the call throws.
\<close>

definition trimmedQuestion :: "'e World \<Rightarrow> RagRequest \<Rightarrow> jsstring + jsstring" where
  "trimmedQuestion w b =
     (case req_question b of
        Undefined \<Rightarrow> Inr []
      | JNull \<Rightarrow> Inr []
      | JString t \<Rightarrow> Inr (trim t)
      | v \<Rightarrow> Inl (trim_error w v))"

text \<open>
  The handler: the response, and the services called for it in the order of the
  calls. Whatever is thrown after the check of the keys is caught and answered with
  status 500; the question is read before the museum id is checked.
\<close>

definition handler :: "Config \<Rightarrow> 'e World \<Rightarrow> Request \<Rightarrow> Response \<times> Upstream list" where
  "handler cfg w req =
     (if http_method req = js ''OPTIONS'' then (json 200 (PlainText (js ''ok'')), [])
      else if http_method req \<noteq> js ''POST'' then
        (json 405 (ErrorJson (js ''Method not allowed'') None), [])
      else if SERVICE_ROLE_KEY cfg = [] \<or> OPENAI_API_KEY cfg = [] then
        (json 500 (ErrorJson (js ''Server configuration error'') None), [])
      else
        case payload req of
          Malformed msg \<Rightarrow> (internalError msg, [])
        | Parsed b \<Rightarrow>
           (let museumId = req_museum_id b in
            case trimmedQuestion w b of
              Inl msg \<Rightarrow> (internalError msg, [])
            | Inr q \<Rightarrow>
               if \<not> truthyValue museumId \<or> \<not> isValidUuid (number_text w) museumId then
                 (json 400 (ErrorJson (js ''Invalid or missing museum_id'') None), [])
               else if q = [] then
                 (json 400 (ErrorJson (js ''Missing question'') None), [])
               else
                 case getSupabaseUrlFromJwt w (SERVICE_ROLE_KEY cfg) of
                   Inl msg \<Rightarrow> (internalError msg, [])
                 | Inr url \<Rightarrow> answerQuestion w b museumId q))"

section \<open>The vector search of the database\<close>

text \<open>
  A row of the table \<open>content_chunks\<close>. The embedding may be null. \<open>'e\<close> is the type of
  vectors and \<open>'m\<close> that of the metadata.
\<close>

record ('e, 'm) Chunk =
  c_id :: jsstring
  c_museum_id :: jsstring
  c_chunk_text :: jsstring
  c_source_url :: "jsstring option"
  c_metadata :: 'm
  c_embedding :: "'e option"

text \<open>A row of the table that \<open>match_chunks\<close> returns.\<close>

record 'm Match =
  m_id :: jsstring
  m_chunk_text :: jsstring
  m_source_url :: "jsstring option"
  m_metadata :: 'm
  m_similarity :: real

text \<open>
  \<open>FROM content_chunks c WHERE c.museum_id = p_museum_id AND c.embedding IS NOT NULL\<close>:
  the rows of the museum that have an embedding, each with its embedding.
\<close>

definition candidates :: "('e, 'm) Chunk list \<Rightarrow> jsstring \<Rightarrow> (('e, 'm) Chunk \<times> 'e) list" where
  "candidates content_chunks p_museum_id =
     List.map_filter
       (\<lambda>c. case c_embedding c of
               None \<Rightarrow> None
             | Some e \<Rightarrow> if c_museum_id c = p_museum_id then Some (c, e) else None)
       content_chunks"

text \<open>
  \<open>ORDER BY c.embedding <-> p_query_embedding LIMIT p_match_count\<close>. The distance
  operator \<open><->\<close> of the vector extension is the parameter \<open>distance\<close>. Rows at the same
  distance, which the database may return in any order, keep the order of the table
  here.
\<close>

definition nearest ::
  "('e \<Rightarrow> 'e \<Rightarrow> real) \<Rightarrow> ('e, 'm) Chunk list \<Rightarrow> jsstring \<Rightarrow> 'e \<Rightarrow> nat
     \<Rightarrow> (('e, 'm) Chunk \<times> 'e) list" where
  "nearest distance content_chunks p_museum_id p_query_embedding n =
     take n (sort_key (\<lambda>(c, e). distance e p_query_embedding)
               (candidates content_chunks p_museum_id))"

text \<open>
  \<open>match_chunks\<close>. A negative \<open>LIMIT\<close> is an error of the database; otherwise the
  selected columns of the nearest rows.
\<close>

definition match_chunks ::
  "('e \<Rightarrow> 'e \<Rightarrow> real) \<Rightarrow> ('e, 'm) Chunk list \<Rightarrow> jsstring \<Rightarrow> 'e \<Rightarrow> int
     \<Rightarrow> jsstring + 'm Match list" where
  "match_chunks distance content_chunks p_museum_id p_query_embedding p_match_count =
     (if p_match_count < 0 then Inl (js ''LIMIT must not be negative'')
      else Inr (map (\<lambda>(c, e).
                  \<lparr>m_id = c_id c,
                   m_chunk_text = c_chunk_text c,
                   m_source_url = c_source_url c,
                   m_metadata = c_metadata c,
                   m_similarity = 1 - distance e p_query_embedding\<rparr>)
                (nearest distance content_chunks p_museum_id p_query_embedding
                   (nat p_match_count))))"

section \<open>The citation list of the front end\<close>

text \<open>
  A \<open>Map\<close> with string keys, in insertion order: \<open>set\<close> on a key that is present replaces
  the value where it stands, on a new key it appends.
\<close>

type_synonym 'v jsmap = "(jsstring \<times> 'v) list"

fun map_set :: "jsstring \<Rightarrow> 'v \<Rightarrow> 'v jsmap \<Rightarrow> 'v jsmap" where
  "map_set k v [] = [(k, v)]"
| "map_set k v ((k', v') # m) = (if k' = k then (k, v) # m else (k', v') # map_set k v m)"

definition map_get :: "'v jsmap \<Rightarrow> jsstring \<Rightarrow> 'v option" where
  "map_get m k = map_of m k"

definition map_values :: "'v jsmap \<Rightarrow> 'v list" where
  "map_values m = map snd m"

text \<open>\<open>s.source_url ?? `no_url:${s.id}`\<close>.\<close>

definition keyOf :: "Source \<Rightarrow> jsstring" where
  "keyOf s = (case source_url s of None \<Rightarrow> js ''no_url:'' @ source_id s | Some u \<Rightarrow> u)"

text \<open>The step of the \<open>reduce\<close>.\<close>

definition keepBest :: "Source jsmap \<Rightarrow> Source \<Rightarrow> Source jsmap" where
  "keepBest m s =
     (case map_get m (keyOf s) of
        None \<Rightarrow> map_set (keyOf s) s m
      | Some existing \<Rightarrow>
          if similarity existing < similarity s then map_set (keyOf s) s m else m)"

text \<open>
  \<open>deduped\<close>: the values of the map, sorted by \<open>b.similarity - a.similarity\<close> (the sort of
  an array is stable), and the first of them.
\<close>

definition deduped :: "Source list \<Rightarrow> Source list" where
  "deduped srcs =
     take 1 (sort_key (\<lambda>s. - similarity s) (map_values (foldl keepBest [] srcs)))"

text \<open>\<open>CitationList\<close> renders nothing for an empty list, and else the citations of \<open>deduped\<close>.\<close>

definition CitationList :: "Source list \<Rightarrow> Source list option" where
  "CitationList srcs = (if srcs = [] then None else Some (deduped srcs))"

text \<open>
  The grouping that the citation list is meant to make, stated apart from the code: the
  group of a source is named by its URL, and where it has none by the synthetic key
  \<open>no_url:\<close> followed by its id. Groups are compared by these names, so a source whose
  URL is the synthetic key of another source falls into the group of that source.
\<close>

definition groupKey :: "Source \<Rightarrow> jsstring" where
  "groupKey s = (if source_url s = None then js ''no_url:'' @ source_id s else the (source_url s))"

text \<open>
  What the map of the \<open>reduce\<close> is to hold after the sources \<open>srcs\<close>: one entry for each
  group of a source, filed under the name of the group, and in each entry a source of
  that group that no source of the group exceeds in similarity.
\<close>

definition grouped :: "Source list \<Rightarrow> Source jsmap \<Rightarrow> bool" where
  "grouped srcs m =
     (distinct (map fst m) \<and> fst ` set m = groupKey ` set srcs
      \<and> (\<forall>(k, v) \<in> set m. v \<in> set srcs \<and> groupKey v = k
            \<and> (\<forall>t \<in> set srcs. groupKey t = k \<longrightarrow> similarity t \<le> similarity v)))"

section \<open>The resolver as a table\<close>

text \<open>
  The eight categories of \<open>tryAnswerFromMuseumProfile\<close> in the order of its \<open>if\<close>
  statements, each with its trigger, the fact it reads, the sentence around the fact
  and its refusal. The resolver itself is the chain of \<open>if\<close> statements above; the
  theorems below compare it with this table.
\<close>

datatype Category =
  Director | Mission | Founded | FormerName | Address | Website | Phone | Name

definition categories :: "Category list" where
  "categories = [Director, Mission, Founded, FormerName, Address, Website, Phone, Name]"

fun fires :: "Category \<Rightarrow> jsstring \<Rightarrow> bool" where
  "fires Director q = directorTrigger q"
| "fires Mission q = missionTrigger q"
| "fires Founded q = foundedTrigger q"
| "fires FormerName q = formerNameTrigger q"
| "fires Address q = addressTrigger q"
| "fires Website q = websiteTrigger q"
| "fires Phone q = phoneTrigger q"
| "fires Name q = nameTrigger q"

text \<open>The first category whose trigger matches the lower-case question.\<close>

definition firstCategory :: "jsstring \<Rightarrow> Category option" where
  "firstCategory q = find (\<lambda>c. fires c q) categories"

text \<open>
  The fact of a category, as the text that goes into the answer: None when the field
  is null or empty (for the founding year: null or 0; for the address: when none of its
  five parts is there).
\<close>

definition nonEmpty :: "jsstring option \<Rightarrow> jsstring option" where
  "nonEmpty x = (case x of None \<Rightarrow> None | Some s \<Rightarrow> if s = [] then None else Some s)"

text \<open>
  The address of a museum is made of the parts that its record holds, in the order
  street address, city, state, postal code and country: a part is there when its field
  is neither null nor empty. The parts are written one after the other, each but the
  first after a comma and a space; with no part there is no address.
\<close>

definition addressParts :: "MuseumRow \<Rightarrow> jsstring list" where
  "addressParts m =
     concat (map (\<lambda>field. case field of None \<Rightarrow> [] | Some s \<Rightarrow> if s = [] then [] else [s])
       [address m, city m, state m, postal_code m, country m])"

fun commaSeparated :: "jsstring list \<Rightarrow> jsstring option" where
  "commaSeparated [] = None"
| "commaSeparated (p # ps) = Some (p @ concat (map (\<lambda>x. js '', '' @ x) ps))"

fun fact :: "Category \<Rightarrow> MuseumRow \<Rightarrow> jsstring option" where
  "fact Director m = nonEmpty (director m)"
| "fact Mission m = nonEmpty (mission m)"
| "fact Founded m =
     (case founded_year m of None \<Rightarrow> None | Some y \<Rightarrow> if y = 0 then None else Some (showInt y))"
| "fact FormerName m = nonEmpty (former_name m)"
| "fact Address m = commaSeparated (addressParts m)"
| "fact Website m = nonEmpty (website m)"
| "fact Phone m = nonEmpty (phone m)"
| "fact Name m = nonEmpty (name m)"

fun template :: "Category \<Rightarrow> jsstring \<Rightarrow> jsstring" where
  "template Director v = js ''The museum'' @ rsquo @ js ''s director is '' @ v @ js ''.''"
| "template Mission v = js ''Mission: '' @ v"
| "template Founded v = js ''The museum was founded in '' @ v @ js ''.''"
| "template FormerName v = js ''It was formerly known as '' @ v @ js ''.''"
| "template Address v = js ''The museum is located at '' @ v @ js ''.''"
| "template Website v = js ''The official website is '' @ v @ js ''.''"
| "template Phone v = js ''You can reach the museum at '' @ v @ js ''.''"
| "template Name v = js ''The museum is called '' @ v @ js ''.''"

fun refusalFor :: "Category \<Rightarrow> jsstring" where
  "refusalFor Director = notAvailable @ js '' for the latest leadership details.''"
| "refusalFor Mission = notAvailable @ js '' for the mission statement.''"
| "refusalFor Founded = notAvailable @ js '' for its history.''"
| "refusalFor FormerName = notAvailable @ js '' for details about the name change.''"
| "refusalFor Address = notAvailable @ js '' for location details.''"
| "refusalFor Website = notAvailable @ js ''.''"
| "refusalFor Phone = notAvailable @ js ''.''"
| "refusalFor Name = notAvailable @ js ''.''"

section \<open>Whole phrases\<close>

text \<open>
  An occurrence \<open>m\<close> of the phrase \<open>p\<close> between \<open>a\<close> and \<open>b\<close> that is delimited: \<open>m\<close> is \<open>p\<close>
  up to the case of letters, no word character stands before it and none after it.
\<close>

definition delimited :: "jsstring \<Rightarrow> jsstring \<Rightarrow> jsstring \<Rightarrow> jsstring \<Rightarrow> bool" where
  "delimited a m b p =
     (map canonicalize m = map canonicalize p
      \<and> (a = [] \<or> \<not> isWordChar (last a)) \<and> (b = [] \<or> \<not> isWordChar (hd b)))"

text \<open>A phrase that starts and ends with a word character, as all triggers do.\<close>

definition wordPhrase :: "jsstring \<Rightarrow> bool" where
  "wordPhrase p = (p \<noteq> [] \<and> isWordChar (hd p) \<and> isWordChar (last p))"

text \<open>The phrase \<open>p\<close> occurs somewhere in \<open>s\<close>, up to the case of letters.\<close>

definition occursIn :: "jsstring \<Rightarrow> jsstring \<Rightarrow> bool" where
  "occursIn p s = (\<exists>cur \<in> set (positions s). literal p cur \<noteq> None)"

text \<open>
  The three ways in which a trigger can be found in a question \<open>q\<close>: as a delimited
  occurrence of a phrase; as a raw substring, in the case it is written in; and as a
  span, in which a first part is followed, after any code units other than line
  terminators, by one of several last parts, each part wherever it stands.
\<close>

definition wholeIn :: "jsstring \<Rightarrow> jsstring \<Rightarrow> bool" where
  "wholeIn q p = (\<exists>a m b. q = a @ m @ b \<and> delimited a m b p)"

definition rawIn :: "jsstring \<Rightarrow> jsstring \<Rightarrow> bool" where
  "rawIn q x = (\<exists>a b. q = a @ x @ b)"

definition spanIn :: "jsstring \<Rightarrow> jsstring \<Rightarrow> jsstring list \<Rightarrow> bool" where
  "spanIn q pre alts =
     (\<exists>u m c n v. q = u @ m @ c @ n @ v
        \<and> map canonicalize m = map canonicalize pre
        \<and> (\<forall>x \<in> set c. \<not> isLineTerminator x)
        \<and> (\<exists>alt \<in> set alts. map canonicalize n = map canonicalize alt))"

section \<open>The format of identifiers\<close>

text \<open>
  The format of a museum id, stated apart from the pattern of the code: 36 code units,
  of which those at the positions 8, 13, 18 and 23 are hyphens, the one at position 14
  is a digit from 1 to 5, the one at position 19 is one of 8, 9, a and b in either
  case, and all others are hexadecimal digits in either case.
\<close>

definition hexDigit :: "nat \<Rightarrow> bool" where
  "hexDigit c = (c \<in> set (js ''0123456789abcdefABCDEF''))"

definition uuidFormat :: "jsstring \<Rightarrow> bool" where
  "uuidFormat s =
     (length s = 36
      \<and> (\<forall>i < 36.
            if i \<in> {8, 13, 18, 23} then s ! i = 45
            else if i = 14 then s ! i \<in> set (js ''12345'')
            else if i = 19 then s ! i \<in> set (js ''89abAB'')
            else hexDigit (s ! i)))"

section \<open>Paths through the handler\<close>

text \<open>
  A request that passes the checks of the handler: a \<open>POST\<close> with both keys
  configured, a JSON body with a museum id that the handler takes for valid and a
  question that is a string and not empty after trimming, and a service key from which
  the URL can be derived. \<open>museumId\<close> is the museum id as the body holds it and as the
  handler sends it on, \<open>q\<close> the trimmed question.
\<close>

definition validRequest ::
  "Config \<Rightarrow> 'e World \<Rightarrow> Request \<Rightarrow> RagRequest \<Rightarrow> jsvalue \<Rightarrow> jsstring \<Rightarrow> bool" where
  "validRequest cfg w req b museumId q =
     (http_method req = js ''POST''
      \<and> SERVICE_ROLE_KEY cfg \<noteq> [] \<and> OPENAI_API_KEY cfg \<noteq> []
      \<and> payload req = Parsed b
      \<and> req_museum_id b = museumId \<and> truthyValue museumId
      \<and> isValidUuid (number_text w) museumId
      \<and> (\<exists>t. req_question b = JString t \<and> q = trim t) \<and> q \<noteq> []
      \<and> (\<exists>r. jwt_ref w (SERVICE_ROLE_KEY cfg) = Some r \<and> r \<noteq> []))"

text \<open>
  A valid request that the profile does not answer and for which the embedding and
  the vector search succeed, the search with the rows \<open>rows\<close>.
\<close>

definition searchReturns ::
  "Config \<Rightarrow> 'e World \<Rightarrow> Request \<Rightarrow> RagRequest \<Rightarrow> jsstring \<Rightarrow> MatchRow list \<Rightarrow> bool" where
  "searchReturns cfg w req b q rows =
     (\<exists>museumId. validRequest cfg w req b museumId q
        \<and> tryAnswerFromMuseumProfile q (museum_row w museumId) = None
        \<and> (\<exists>e. embedding w q = Inr e
               \<and> match_content_chunks w e (rpcMatchCount b) museumId = Inr rows))"

section \<open>Sample data\<close>

text \<open>
  The museum of the seed data, with the founding year 1862, and the services of a
  world in which the tenant lookup finds \<open>row\<close>, the vector search returns \<open>rows\<close> and
  the other services succeed.
\<close>

definition akgId :: jsstring where
  "akgId = js ''f817a6f8-8f99-4618-86a2-603d0b323eff''"

definition akg :: MuseumRow where
  "akg =
     \<lparr>museum_id = akgId, name = Some (js ''Buffalo AKG Art Museum''), address = None,
      city = Some (js ''Buffalo''), state = Some (js ''NY''), postal_code = None,
      country = None, website = None, phone = None, director = None,
      founded_year = Some 1862, former_name = None, mission = None\<rparr>"

definition sampleConfig :: Config where
  "sampleConfig = \<lparr>SERVICE_ROLE_KEY = js ''service-key'', OPENAI_API_KEY = js ''openai-key''\<rparr>"

definition sampleWorld :: "MuseumRow option \<Rightarrow> MatchRow list \<Rightarrow> unit World" where
  "sampleWorld row rows =
     \<lparr>jwt_ref = (\<lambda>jwt. Some (js ''abcd'')),
      museum_row = (\<lambda>i. row),
      embedding = (\<lambda>t. Inr ()),
      match_content_chunks = (\<lambda>e n i. Inr rows),
      chunk_urls = (\<lambda>ids. []),
      chat = (\<lambda>prompt. Inr (js ''Yes.'')),
      number_text = (\<lambda>v. js ''0''),
      trim_error = (\<lambda>v. js ''body?.question?.trim is not a function'')\<rparr>"

definition ask :: "jsstring \<Rightarrow> RagRequest" where
  "ask t =
     \<lparr>req_museum_id = JString akgId, req_question = JString t, req_match_count = Undefined\<rparr>"

definition post :: "RagRequest \<Rightarrow> Request" where
  "post b = \<lparr>http_method = js ''POST'', payload = Parsed b\<rparr>"

definition sampleChunks :: "(real, unit) Chunk list" where
  "sampleChunks =
     [\<lparr>c_id = js ''c1'', c_museum_id = akgId,
       c_chunk_text = js ''Open daily'', c_source_url = None, c_metadata = (),
       c_embedding = Some 3\<rparr>,
      \<lparr>c_id = js ''c2'', c_museum_id = js ''0b0e7c1a-3c55-4d0e-9a68-2f1d6c1e4a11'',
       c_chunk_text = js ''Closed'', c_source_url = None, c_metadata = (),
       c_embedding = Some 1\<rparr>]"

text \<open>A museum with a former name, and a question about a sign.\<close>

definition renamedMuseum :: MuseumRow where
  "renamedMuseum = akg\<lparr>former_name := Some (js ''Albright-Knox Art Gallery'')\<rparr>"

definition signQuestion :: jsstring where
  "signQuestion = js ''Who chose the bold name on the sign?''"

text \<open>
  Rows of a vector search: two below the similarity floor, one of them with its
  similarity as a string; the same with a third row above the floor; and a row whose
  similarity is no number.
\<close>

definition weakRows :: "MatchRow list" where
  "weakRows =
     [\<lparr>match_id = js ''c1'', chunk_text = js ''Open daily.'',
       match_similarity = String (js ''0.30'')\<rparr>,
      \<lparr>match_id = js ''c2'', chunk_text = js ''Closed on Tuesdays.'',
       match_similarity = Number (Finite (44 / 100))\<rparr>]"

definition cafeRow :: MatchRow where
  "cafeRow =
     \<lparr>match_id = js ''c3'', chunk_text = js ''The cafe is on level 1.'',
      match_similarity = String (js ''0.8'')\<rparr>"

definition brokenRow :: MatchRow where
  "brokenRow =
     \<lparr>match_id = js ''c4'', chunk_text = js ''The shop sells prints.'',
      match_similarity = String (js ''n/a'')\<rparr>"

section \<open>Properties of the citation list\<close>

lemma map_fst_map_set:
  "map fst (map_set k v m) = (if k \<in> fst ` set m then map fst m else map fst m @ [k])"
proof (induction m)
  case Nil
  then show ?case by simp
next
  case (Cons p m)
  obtain k' v' where p: "p = (k', v')" by (cases p)
  show ?case using Cons p by (cases "k' = k") auto
qed

lemma set_map_set:
  "distinct (map fst m) \<Longrightarrow> set (map_set k v m) = insert (k, v) {p \<in> set m. fst p \<noteq> k}"
proof (induction m)
  case Nil
  then show ?case by simp
next
  case (Cons p m)
  obtain k' v' where p: "p = (k', v')" by (cases p)
  show ?case
  proof (cases "k' = k")
    case True
    then have "\<forall>x \<in> set m. fst x \<noteq> k" using Cons.prems p by auto
    then show ?thesis using True p by auto
  next
    case False
    then show ?thesis using Cons p by auto
  qed
qed

lemma keyOf_groupKey: "keyOf = groupKey"
  by (rule ext) (simp add: keyOf_def groupKey_def split: option.splits)

lemma grouped_Nil: "grouped [] []"
  by (simp add: grouped_def)

lemma grouped_distinct: "grouped srcs m \<Longrightarrow> distinct (map fst m)"
  by (simp add: grouped_def)

lemma grouped_keys: "grouped srcs m \<Longrightarrow> fst ` set m = keyOf ` set srcs"
  by (simp add: grouped_def keyOf_groupKey)

lemma grouped_member: "grouped srcs m \<Longrightarrow> (k, v) \<in> set m \<Longrightarrow> v \<in> set srcs \<and> keyOf v = k"
  unfolding grouped_def keyOf_groupKey by blast

lemma grouped_best:
  "grouped srcs m \<Longrightarrow> (k, v) \<in> set m \<Longrightarrow> t \<in> set srcs \<Longrightarrow> keyOf t = k
   \<Longrightarrow> similarity t \<le> similarity v"
  unfolding grouped_def keyOf_groupKey by blast

lemma groupedI:
  assumes "distinct (map fst m)" and "fst ` set m = keyOf ` set srcs"
    and "\<And>k v. (k, v) \<in> set m \<Longrightarrow> v \<in> set srcs \<and> keyOf v = k"
    and "\<And>k v t. (k, v) \<in> set m \<Longrightarrow> t \<in> set srcs \<Longrightarrow> keyOf t = k
          \<Longrightarrow> similarity t \<le> similarity v"
  shows "grouped srcs m"
  unfolding grouped_def using assms unfolding keyOf_groupKey by blast

lemma map_get_Some:
  "distinct (map fst m) \<Longrightarrow> map_get m k = Some v \<longleftrightarrow> (k, v) \<in> set m"
  by (simp add: map_get_def)

lemma map_get_None: "map_get m k = None \<longleftrightarrow> k \<notin> fst ` set m"
  by (simp add: map_get_def map_of_eq_None_iff)

lemma grouped_keepBest:
  assumes g: "grouped srcs m"
  shows "grouped (srcs @ [s]) (keepBest m s)"
proof (cases "map_get m (keyOf s)")
  case None
  then have nk: "keyOf s \<notin> fst ` set m" by (simp add: map_get_None)
  have d: "distinct (map fst m)" using g by (rule grouped_distinct)
  have kb: "keepBest m s = map_set (keyOf s) s m" using None by (simp add: keepBest_def)
  have "{p \<in> set m. fst p \<noteq> keyOf s} = set m" using nk by force
  then have st: "set (keepBest m s) = insert (keyOf s, s) (set m)"
    using d by (simp add: kb set_map_set)
  have fresh: "keyOf t \<noteq> keyOf s" if "t \<in> set srcs" for t
  proof
    assume "keyOf t = keyOf s"
    then have "keyOf s \<in> keyOf ` set srcs" using that by (metis imageI)
    then show False using nk grouped_keys[OF g] by simp
  qed
  show ?thesis
  proof (rule groupedI)
    show "distinct (map fst (keepBest m s))" using nk d by (simp add: kb map_fst_map_set)
    show "fst ` set (keepBest m s) = keyOf ` set (srcs @ [s])"
      using grouped_keys[OF g] by (simp add: st)
  next
    fix k v assume "(k, v) \<in> set (keepBest m s)"
    then have "(k, v) = (keyOf s, s) \<or> (k, v) \<in> set m" by (simp add: st)
    then show "v \<in> set (srcs @ [s]) \<and> keyOf v = k"
      using grouped_member[OF g] by auto
  next
    fix k v t
    assume kv: "(k, v) \<in> set (keepBest m s)" and t: "t \<in> set (srcs @ [s])" and kt: "keyOf t = k"
    from kv have "(k, v) = (keyOf s, s) \<or> (k, v) \<in> set m" by (simp add: st)
    then show "similarity t \<le> similarity v"
    proof
      assume "(k, v) = (keyOf s, s)"
      then show ?thesis using t kt fresh by auto
    next
      assume in_m: "(k, v) \<in> set m"
      then have "k \<noteq> keyOf s" using nk by force
      then have "t \<in> set srcs" using t kt by auto
      then show ?thesis using grouped_best[OF g in_m] kt by simp
    qed
  qed
next
  case (Some existing)
  have d: "distinct (map fst m)" using g by (rule grouped_distinct)
  have ex: "(keyOf s, existing) \<in> set m" using Some d by (simp add: map_get_Some)
  then have ink: "keyOf s \<in> fst ` set m" by force
  have un: "v = existing" if "(keyOf s, v) \<in> set m" for v
  proof -
    have "map_of m (keyOf s) = Some v" using d that by simp
    moreover have "map_of m (keyOf s) = Some existing" using d ex by simp
    ultimately show ?thesis by simp
  qed
  show ?thesis
  proof (cases "similarity existing < similarity s")
    case True
    have kb: "keepBest m s = map_set (keyOf s) s m" using Some True by (simp add: keepBest_def)
    have st: "set (keepBest m s) = insert (keyOf s, s) {p \<in> set m. fst p \<noteq> keyOf s}"
      using d by (simp add: kb set_map_set)
    show ?thesis
    proof (rule groupedI)
      show "distinct (map fst (keepBest m s))" using ink d by (simp add: kb map_fst_map_set)
      have "fst ` set (keepBest m s) = insert (keyOf s) (fst ` set m)"
        unfolding st by force
      then show "fst ` set (keepBest m s) = keyOf ` set (srcs @ [s])"
        using grouped_keys[OF g] by simp
    next
      fix k v assume "(k, v) \<in> set (keepBest m s)"
      then have "(k, v) = (keyOf s, s) \<or> (k, v) \<in> set m" by (auto simp: st)
      then show "v \<in> set (srcs @ [s]) \<and> keyOf v = k"
        using grouped_member[OF g] by auto
    next
      fix k v t
      assume kv: "(k, v) \<in> set (keepBest m s)" and t: "t \<in> set (srcs @ [s])" and kt: "keyOf t = k"
      from kv have "(k, v) = (keyOf s, s) \<or> ((k, v) \<in> set m \<and> k \<noteq> keyOf s)"
        by (auto simp: st)
      then show "similarity t \<le> similarity v"
      proof
        assume eq: "(k, v) = (keyOf s, s)"
        show ?thesis
        proof (cases "t = s")
          case True
          then show ?thesis using eq by simp
        next
          case False
          then have "t \<in> set srcs" using t by simp
          then have "similarity t \<le> similarity existing"
            using grouped_best[OF g ex] kt eq by simp
          then show ?thesis using True eq by simp
        qed
      next
        assume in_m: "(k, v) \<in> set m \<and> k \<noteq> keyOf s"
        then have "t \<in> set srcs" using t kt by auto
        then show ?thesis using grouped_best[OF g] in_m kt by blast
      qed
    qed
  next
    case False
    have kb: "keepBest m s = m" using Some False by (simp add: keepBest_def)
    show ?thesis
      unfolding kb
    proof (rule groupedI)
      show "distinct (map fst m)" by (rule d)
      show "fst ` set m = keyOf ` set (srcs @ [s])"
        using grouped_keys[OF g] ink by auto
    next
      fix k v assume "(k, v) \<in> set m"
      then show "v \<in> set (srcs @ [s]) \<and> keyOf v = k"
        using grouped_member[OF g] by auto
    next
      fix k v t
      assume kv: "(k, v) \<in> set m" and t: "t \<in> set (srcs @ [s])" and kt: "keyOf t = k"
      show "similarity t \<le> similarity v"
      proof (cases "t = s")
        case True
        then have "v = existing" using un kv kt by simp
        then show ?thesis using False True by simp
      next
        case False
        then have "t \<in> set srcs" using t by simp
        then show ?thesis using grouped_best[OF g kv] kt by simp
      qed
    qed
  qed
qed

lemma grouped_foldl: "grouped srcs (foldl keepBest [] srcs)"
  by (induction srcs rule: rev_induct) (simp_all add: grouped_Nil grouped_keepBest)

lemma take1_sort_key:
  assumes "xs \<noteq> []"
  shows "\<exists>s. take 1 (sort_key f xs) = [s] \<and> s \<in> set xs \<and> (\<forall>t \<in> set xs. f s \<le> f t)"
proof -
  have ne: "sort_key f xs \<noteq> []" using assms by (metis length_sort length_0_conv)
  then obtain s ys where c: "sort_key f xs = s # ys" by (cases "sort_key f xs") auto
  have "sorted (map f (s # ys))" using sorted_sort_key[of f xs] c by simp
  then have le: "\<forall>t \<in> set (s # ys). f s \<le> f t" by auto
  have "set (s # ys) = set xs" using set_sort[of f xs] c by simp
  then show ?thesis using c le by auto
qed

text \<open>
  Claim C10. The citation list groups the sources by URL, and a source without URL by
  the synthetic key \<open>no_url:\<close> followed by its id: the map it builds has one entry for
  each group, and the entry of a group is a source of that group of the highest
  similarity in the group. Two sources of one URL are one group, two sources of
  different URLs are two, and so are two sources without URL whose ids differ. It sorts
  the kept sources by descending similarity and shows the first one only, which is a
  source of the highest similarity of all. Two sources of one URL with the similarities
  0.6 and 0.8 give the single citation of similarity 0.8, in either order.
\<close>

theorem CitationList_dedupe_top_one:
  "distinct (map fst (foldl keepBest [] srcs))
   \<and> fst ` set (foldl keepBest [] srcs)
       = (\<lambda>s. if source_url s = None then js ''no_url:'' @ source_id s else the (source_url s))
           ` set srcs
   \<and> (\<forall>(k, v) \<in> set (foldl keepBest [] srcs).
         v \<in> set srcs
         \<and> k = (if source_url v = None then js ''no_url:'' @ source_id v else the (source_url v))
         \<and> (\<forall>t \<in> set srcs.
               (if source_url t = None then js ''no_url:'' @ source_id t else the (source_url t)) = k
               \<longrightarrow> similarity t \<le> similarity v))
   \<and> grouped srcs (foldl keepBest [] srcs)
   \<and> (\<forall>a b u. source_url a = Some u \<and> source_url b = Some u
        \<longrightarrow> length (foldl keepBest [] [a, b]) = 1)
   \<and> (\<forall>a b u v. source_url a = Some u \<and> source_url b = Some v \<and> u \<noteq> v
        \<longrightarrow> map snd (foldl keepBest [] [a, b]) = [a, b])
   \<and> (\<forall>a b. source_url a = None \<and> source_url b = None \<and> source_id a \<noteq> source_id b
        \<longrightarrow> map snd (foldl keepBest [] [a, b]) = [a, b])
   \<and> deduped srcs
       = take 1 (sort_key (\<lambda>s. - similarity s) (map snd (foldl keepBest [] srcs)))
   \<and> length (deduped srcs) \<le> 1
   \<and> (srcs \<noteq> [] \<longrightarrow>
        (\<exists>s. CitationList srcs = Some [s] \<and> s \<in> set srcs
             \<and> (\<forall>t \<in> set srcs. similarity t \<le> similarity s)))
   \<and> (\<forall>a b u. source_url a = Some u \<and> source_url b = Some u
          \<and> similarity a = 6 / 10 \<and> similarity b = 8 / 10
        \<longrightarrow> CitationList [a, b] = Some [b] \<and> CitationList [b, a] = Some [b])"
proof (intro conjI)
  show g: "grouped srcs (foldl keepBest [] srcs)" by (rule grouped_foldl)
  show "distinct (map fst (foldl keepBest [] srcs))" using g by (simp add: grouped_def)
  have k: "groupKey
           = (\<lambda>s. if source_url s = None then js ''no_url:'' @ source_id s else the (source_url s))"
    by (rule ext) (simp add: groupKey_def)
  show "fst ` set (foldl keepBest [] srcs)
       = (\<lambda>s. if source_url s = None then js ''no_url:'' @ source_id s else the (source_url s))
           ` set srcs"
    using g unfolding grouped_def k by (rule conjunct1[OF conjunct2])
  show "\<forall>(k, v) \<in> set (foldl keepBest [] srcs).
         v \<in> set srcs
         \<and> k = (if source_url v = None then js ''no_url:'' @ source_id v else the (source_url v))
         \<and> (\<forall>t \<in> set srcs.
               (if source_url t = None then js ''no_url:'' @ source_id t else the (source_url t)) = k
               \<longrightarrow> similarity t \<le> similarity v)"
    using g unfolding grouped_def k by blast
  show "\<forall>a b u. source_url a = Some u \<and> source_url b = Some u
        \<longrightarrow> length (foldl keepBest [] [a, b]) = 1"
    by (simp add: keepBest_def map_get_def keyOf_def)
  show "\<forall>a b u v. source_url a = Some u \<and> source_url b = Some v \<and> u \<noteq> v
        \<longrightarrow> map snd (foldl keepBest [] [a, b]) = [a, b]"
    by (auto simp: keepBest_def map_get_def keyOf_def)
  show "\<forall>a b. source_url a = None \<and> source_url b = None \<and> source_id a \<noteq> source_id b
        \<longrightarrow> map snd (foldl keepBest [] [a, b]) = [a, b]"
    by (auto simp: keepBest_def map_get_def keyOf_def)
  show "deduped srcs
       = take 1 (sort_key (\<lambda>s. - similarity s) (map snd (foldl keepBest [] srcs)))"
    by (simp add: deduped_def map_values_def)
  show "length (deduped srcs) \<le> 1" by (simp add: deduped_def)
  show "srcs \<noteq> [] \<longrightarrow>
        (\<exists>s. CitationList srcs = Some [s] \<and> s \<in> set srcs
             \<and> (\<forall>t \<in> set srcs. similarity t \<le> similarity s))"
  proof
    assume ne: "srcs \<noteq> []"
    let ?m = "foldl keepBest [] srcs"
    have "fst ` set ?m \<noteq> {}" using grouped_keys[OF g] ne by simp
    then have vne: "map_values ?m \<noteq> []" by (auto simp: map_values_def)
    from take1_sort_key[OF vne, of "\<lambda>s. - similarity s"]
    obtain s where s: "deduped srcs = [s]" "s \<in> set (map_values ?m)"
      "\<forall>t \<in> set (map_values ?m). similarity t \<le> similarity s"
      by (auto simp: deduped_def)
    from s(2) obtain k where ks: "(k, s) \<in> set ?m" by (auto simp: map_values_def)
    have "s \<in> set srcs" using grouped_member[OF g ks] by simp
    moreover have "similarity t \<le> similarity s" if t: "t \<in> set srcs" for t
    proof -
      have "keyOf t \<in> fst ` set ?m" using grouped_keys[OF g] t by simp
      then obtain v where kv: "(keyOf t, v) \<in> set ?m" by force
      have "similarity t \<le> similarity v" using grouped_best[OF g kv t] by simp
      moreover have "v \<in> set (map_values ?m)" using kv by (force simp: map_values_def)
      ultimately show ?thesis using s(3) by force
    qed
    ultimately show "\<exists>s. CitationList srcs = Some [s] \<and> s \<in> set srcs
             \<and> (\<forall>t \<in> set srcs. similarity t \<le> similarity s)"
      using s(1) ne by (auto simp: CitationList_def)
  qed
  show "\<forall>a b u. source_url a = Some u \<and> source_url b = Some u
          \<and> similarity a = 6 / 10 \<and> similarity b = 8 / 10
        \<longrightarrow> CitationList [a, b] = Some [b] \<and> CitationList [b, a] = Some [b]"
    by (simp add: CitationList_def deduped_def keepBest_def map_get_def map_values_def keyOf_def)
qed

theorem CitationList_dedupe_top_one_witness:
  "[\<lparr>source_id = js ''c1'', source_url = Some (js ''https://buffaloakg.org/visit''), similarity = 6 / 10\<rparr>,
    \<lparr>source_id = js ''c2'', source_url = Some (js ''https://buffaloakg.org/visit''), similarity = 8 / 10\<rparr>] \<noteq> []
   \<and> CitationList
        [\<lparr>source_id = js ''c1'', source_url = Some (js ''https://buffaloakg.org/visit''), similarity = 6 / 10\<rparr>,
         \<lparr>source_id = js ''c2'', source_url = Some (js ''https://buffaloakg.org/visit''), similarity = 8 / 10\<rparr>]
       = Some [\<lparr>source_id = js ''c2'', source_url = Some (js ''https://buffaloakg.org/visit''), similarity = 8 / 10\<rparr>]"
  using CitationList_dedupe_top_one
    [of "[\<lparr>source_id = js ''c1'', source_url = Some (js ''https://buffaloakg.org/visit''), similarity = 6 / 10\<rparr>,
          \<lparr>source_id = js ''c2'', source_url = Some (js ''https://buffaloakg.org/visit''), similarity = 8 / 10\<rparr>]"]
  by simp

section \<open>Properties of the vector search\<close>

lemma in_set_map_filter:
  "y \<in> set (List.map_filter f xs) \<longleftrightarrow> (\<exists>x \<in> set xs. f x = Some y)"
  by (induction xs) (auto simp: List.map_filter_simps split: option.splits)

lemma candidates_iff:
  "(c, e) \<in> set (candidates content_chunks p)
   \<longleftrightarrow> c \<in> set content_chunks \<and> c_museum_id c = p \<and> c_embedding c = Some e"
  by (auto simp: candidates_def in_set_map_filter split: option.splits if_splits)

lemma nearest_subset:
  "set (nearest distance content_chunks p q n) \<subseteq> set (candidates content_chunks p)"
proof -
  have "set (nearest distance content_chunks p q n)
        \<subseteq> set (sort_key (\<lambda>(c, e). distance e q) (candidates content_chunks p))"
    unfolding nearest_def by (rule set_take_subset)
  then show ?thesis by simp
qed

lemma nearest_tenant:
  assumes "(c, e) \<in> set (nearest distance content_chunks p q n)"
  shows "c \<in> set content_chunks \<and> c_museum_id c = p \<and> c_embedding c = Some e"
proof -
  have "(c, e) \<in> set (candidates content_chunks p)"
    using assms nearest_subset[of distance content_chunks p q n] by (rule set_mp[rotated])
  then show ?thesis by (simp add: candidates_iff)
qed

lemma match_chunks_own:
  assumes m: "match_chunks distance content_chunks p q n = Inr rows" and r: "r \<in> set rows"
  shows "\<exists>c \<in> set content_chunks.
            c_museum_id c = p \<and> m_id r = c_id c \<and> m_chunk_text r = c_chunk_text c
            \<and> m_source_url r = c_source_url c \<and> m_metadata r = c_metadata c"
proof -
  from m have rows: "rows = map (\<lambda>(c, e).
                  \<lparr>m_id = c_id c, m_chunk_text = c_chunk_text c, m_source_url = c_source_url c,
                   m_metadata = c_metadata c, m_similarity = 1 - distance e q\<rparr>)
                (nearest distance content_chunks p q (nat n))"
    by (simp add: match_chunks_def split: if_splits)
  with r obtain c e where ce: "(c, e) \<in> set (nearest distance content_chunks p q (nat n))"
      and rc: "r = \<lparr>m_id = c_id c, m_chunk_text = c_chunk_text c, m_source_url = c_source_url c,
                    m_metadata = c_metadata c, m_similarity = 1 - distance e q\<rparr>"
    by auto
  from nearest_tenant[OF ce] have "c \<in> set content_chunks" "c_museum_id c = p" by simp_all
  then show ?thesis using rc by (intro bexI[of _ c]) simp_all
qed

section \<open>Properties of the matchers\<close>

lemma cursorsFrom_iff:
  "cur \<in> set (cursorsFrom prev s)
   \<longleftrightarrow> (\<exists>a b. s = a @ b \<and> cur = (if a = [] then prev else Some (last a), b))"
proof (induction s arbitrary: prev)
  case Nil
  then show ?case by auto
next
  case (Cons c s)
  note IH = Cons.IH
  show ?case
  proof
    assume "cur \<in> set (cursorsFrom prev (c # s))"
    then consider "cur = (prev, c # s)" | "cur \<in> set (cursorsFrom (Some c) s)" by auto
    then show "\<exists>a b. c # s = a @ b \<and> cur = (if a = [] then prev else Some (last a), b)"
    proof cases
      case 1
      then have "c # s = [] @ (c # s) \<and> cur = (if [] = ([]::jsstring) then prev else Some (last []), c # s)"
        by simp
      then show ?thesis by blast
    next
      case 2
      then obtain a b where ab: "s = a @ b" "cur = (if a = [] then Some c else Some (last a), b)"
        using IH by blast
      then have "c # s = (c # a) @ b \<and> cur = (if c # a = [] then prev else Some (last (c # a)), b)"
        by simp
      then show ?thesis by blast
    qed
  next
    assume "\<exists>a b. c # s = a @ b \<and> cur = (if a = [] then prev else Some (last a), b)"
    then obtain a b where ab: "c # s = a @ b" "cur = (if a = [] then prev else Some (last a), b)"
      by blast
    show "cur \<in> set (cursorsFrom prev (c # s))"
    proof (cases a)
      case Nil
      then have "cur = (prev, c # s)" using ab by simp
      then show ?thesis by simp
    next
      case (Cons c' a')
      then have "s = a' @ b \<and> cur = (if a' = [] then Some c else Some (last a'), b)"
        using ab by auto
      then have "cur \<in> set (cursorsFrom (Some c) s)" using IH by blast
      then show ?thesis by simp
    qed
  qed
qed

lemma literal_iff:
  "literal p (prev, s) = Some cur'
   \<longleftrightarrow> (\<exists>m r. s = m @ r \<and> map canonicalize m = map canonicalize p
              \<and> cur' = (if m = [] then prev else Some (last m), r))"
proof (induction p arbitrary: prev s)
  case Nil
  then show ?case by auto
next
  case (Cons c p)
  note IH = Cons.IH
  show ?case
  proof (cases s)
    case Nil
    then show ?thesis by simp
  next
    case (Cons d s')
    show ?thesis
    proof (cases "canonicalize c = canonicalize d")
      case False
      then show ?thesis using Cons by (auto simp: Cons_eq_append_conv)
    next
      case True
      have "literal (c # p) (prev, s) = Some cur' \<longleftrightarrow> literal p (Some d, s') = Some cur'"
        using True Cons by simp
      also have "\<dots> \<longleftrightarrow> (\<exists>m r. s' = m @ r \<and> map canonicalize m = map canonicalize p
              \<and> cur' = (if m = [] then Some d else Some (last m), r))"
        by (rule IH)
      also have "\<dots> \<longleftrightarrow> (\<exists>m r. s = m @ r \<and> map canonicalize m = map canonicalize (c # p)
              \<and> cur' = (if m = [] then prev else Some (last m), r))"
      proof
        assume "\<exists>m r. s' = m @ r \<and> map canonicalize m = map canonicalize p
              \<and> cur' = (if m = [] then Some d else Some (last m), r)"
        then obtain m r where mr: "s' = m @ r" "map canonicalize m = map canonicalize p"
          "cur' = (if m = [] then Some d else Some (last m), r)" by blast
        then have "s = (d # m) @ r \<and> map canonicalize (d # m) = map canonicalize (c # p)
              \<and> cur' = (if d # m = [] then prev else Some (last (d # m)), r)"
          using True Cons by simp
        then show "\<exists>m r. s = m @ r \<and> map canonicalize m = map canonicalize (c # p)
              \<and> cur' = (if m = [] then prev else Some (last m), r)" by blast
      next
        assume "\<exists>m r. s = m @ r \<and> map canonicalize m = map canonicalize (c # p)
              \<and> cur' = (if m = [] then prev else Some (last m), r)"
        then obtain m r where mr: "s = m @ r" "map canonicalize m = map canonicalize (c # p)"
          "cur' = (if m = [] then prev else Some (last m), r)" by blast
        from mr(2) obtain d' m' where m: "m = d' # m'" by (cases m) auto
        then have "s' = m' @ r \<and> map canonicalize m' = map canonicalize p
              \<and> cur' = (if m' = [] then Some d else Some (last m'), r)"
          using mr Cons by auto
        then show "\<exists>m r. s' = m @ r \<and> map canonicalize m = map canonicalize p
              \<and> cur' = (if m = [] then Some d else Some (last m), r)" by blast
      qed
      finally show ?thesis .
    qed
  qed
qed

lemma canonicalize_word: "canonicalize c = canonicalize d \<Longrightarrow> isWordChar c = isWordChar d"
  by (auto simp: canonicalize_def isWordChar_def split: if_splits)

lemma patternChars_escapeRegex: "patternChars (escapeRegex s) = s"
proof (induction s)
  case Nil
  then show ?case by (simp add: escapeRegex_def)
next
  case (Cons c s)
  have e: "escapeRegex (c # s) = (if isSyntaxChar c then [92, c] else [c]) @ escapeRegex s"
    by (simp add: escapeRegex_def)
  show ?case
  proof (cases "isSyntaxChar c")
    case True
    then show ?thesis using Cons e by simp
  next
    case False
    then have "c \<noteq> 92" by (auto simp: isSyntaxChar_def)
    then show ?thesis using Cons e False by (cases "escapeRegex s") auto
  qed
qed

lemma isWordAfter_append: "m \<noteq> [] \<Longrightarrow> isWordAfter (pa, m @ b) = isWordChar (hd m)"
  by (cases m) auto

lemma isWordAfter_rest: "isWordAfter (pa, b) = (b \<noteq> [] \<and> isWordChar (hd b))"
  by (cases b) auto

lemma isWordBefore_last:
  "isWordBefore (if a = [] then None else Some (last a), r) = (a \<noteq> [] \<and> isWordChar (last a))"
  by simp

lemma same_phrase:
  assumes "map canonicalize m = map canonicalize p" and "wordPhrase p"
  shows "m \<noteq> [] \<and> isWordChar (hd m) \<and> isWordChar (last m)"
proof -
  have p: "p \<noteq> []" "isWordChar (hd p)" "isWordChar (last p)"
    using assms(2) by (simp_all add: wordPhrase_def)
  have ne: "m \<noteq> []" using assms(1) p(1) by auto
  have "canonicalize (hd m) = canonicalize (hd p)"
    using arg_cong[OF assms(1), of hd] ne p(1) by (simp add: hd_map)
  moreover have "canonicalize (last m) = canonicalize (last p)"
    using arg_cong[OF assms(1), of last] ne p(1) by (simp add: last_map)
  ultimately show ?thesis using ne p canonicalize_word by metis
qed

text \<open>The two ways in which the patterns of the source delimit a phrase agree.\<close>

lemma wholePhraseAt_iff:
  assumes wp: "wordPhrase p"
  shows "wholePhraseAt p (if a = [] then None else Some (last a), r)
         \<longleftrightarrow> (\<exists>m b. r = m @ b \<and> delimited a m b p)"
proof -
  let ?cur = "(if a = [] then None else Some (last a), r)"
  have "wholePhraseAt p ?cur \<longleftrightarrow>
      (atStart ?cur \<or> wordBoundary ?cur)
      \<and> (\<exists>cur'. literal p ?cur = Some cur' \<and> (wordBoundary cur' \<or> atEnd cur'))"
    by (auto simp: wholePhraseAt_def split: option.splits)
  also have "\<dots> \<longleftrightarrow> (\<exists>m b. r = m @ b \<and> delimited a m b p)"
  proof
    assume h: "(atStart ?cur \<or> wordBoundary ?cur)
      \<and> (\<exists>cur'. literal p ?cur = Some cur' \<and> (wordBoundary cur' \<or> atEnd cur'))"
    then obtain cur' where l: "literal p ?cur = Some cur'" and e: "wordBoundary cur' \<or> atEnd cur'"
      by blast
    from l obtain m b where mb: "r = m @ b" "map canonicalize m = map canonicalize p"
      "cur' = (if m = [] then (if a = [] then None else Some (last a)) else Some (last m), b)"
      using literal_iff by blast
    note sp = same_phrase[OF mb(2) wp]
    have c': "cur' = (Some (last m), b)" using mb(3) sp by simp
    have s: "a = [] \<or> \<not> isWordChar (last a)"
      using h sp mb(1)
      by (auto simp: atStart_def wordBoundary_def isWordAfter_append split: if_splits)
    have "b = [] \<or> \<not> isWordChar (hd b)"
      using e sp c' by (auto simp: atEnd_def wordBoundary_def isWordAfter_rest)
    then have "delimited a m b p" using s mb(2) by (simp add: delimited_def)
    then show "\<exists>m b. r = m @ b \<and> delimited a m b p" using mb(1) by blast
  next
    assume "\<exists>m b. r = m @ b \<and> delimited a m b p"
    then obtain m b where mb: "r = m @ b" and d: "delimited a m b p" by blast
    from d have eq: "map canonicalize m = map canonicalize p"
      and s: "a = [] \<or> \<not> isWordChar (last a)" and e: "b = [] \<or> \<not> isWordChar (hd b)"
      by (simp_all add: delimited_def)
    note sp = same_phrase[OF eq wp]
    have "literal p ?cur = Some (if m = [] then (if a = [] then None else Some (last a))
                                 else Some (last m), b)"
      using literal_iff mb eq by blast
    then have l: "literal p ?cur = Some (Some (last m), b)" using sp by simp
    have st: "atStart ?cur \<or> wordBoundary ?cur"
      using s sp mb by (auto simp: atStart_def wordBoundary_def isWordAfter_append)
    have en: "wordBoundary (Some (last m), b) \<or> atEnd (Some (last m), b)"
      using e sp by (auto simp: atEnd_def wordBoundary_def isWordAfter_rest)
    show "(atStart ?cur \<or> wordBoundary ?cur)
      \<and> (\<exists>cur'. literal p ?cur = Some cur' \<and> (wordBoundary cur' \<or> atEnd cur'))"
      using st en l by blast
  qed
  finally show ?thesis .
qed

lemma boundedAt_iff:
  assumes wp: "wordPhrase p"
  shows "(wordBoundary (if a = [] then None else Some (last a), r)
          \<and> (case literal p (if a = [] then None else Some (last a), r) of
                None \<Rightarrow> False | Some cur' \<Rightarrow> wordBoundary cur'))
         \<longleftrightarrow> (\<exists>m b. r = m @ b \<and> delimited a m b p)"
proof -
  let ?cur = "(if a = [] then None else Some (last a), r)"
  have "(wordBoundary ?cur
          \<and> (case literal p ?cur of None \<Rightarrow> False | Some cur' \<Rightarrow> wordBoundary cur'))
        \<longleftrightarrow> wholePhraseAt p ?cur"
  proof (cases "literal p ?cur")
    case None
    then show ?thesis by (simp add: wholePhraseAt_def)
  next
    case (Some cur')
    then obtain m b where mb: "r = m @ b" "map canonicalize m = map canonicalize p"
      "cur' = (if m = [] then (if a = [] then None else Some (last a)) else Some (last m), b)"
      using literal_iff by blast
    note sp = same_phrase[OF mb(2) wp]
    have c': "cur' = (Some (last m), b)" using mb(3) sp by simp
    have 1: "atStart ?cur \<Longrightarrow> wordBoundary ?cur"
      using sp mb(1) by (auto simp: atStart_def wordBoundary_def isWordAfter_append split: if_splits)
    have 2: "atEnd cur' \<Longrightarrow> wordBoundary cur'"
      using sp c' by (auto simp: atEnd_def wordBoundary_def)
    show ?thesis using Some 1 2 by (auto simp: wholePhraseAt_def)
  qed
  then show ?thesis using wholePhraseAt_iff[OF wp] by simp
qed

lemma ex_position:
  "(\<exists>cur \<in> set (positions q). P cur)
   \<longleftrightarrow> (\<exists>a r. q = a @ r \<and> P (if a = [] then None else Some (last a), r))"
proof
  assume "\<exists>cur \<in> set (positions q). P cur"
  then obtain cur where c: "cur \<in> set (cursorsFrom None q)" and p: "P cur"
    by (auto simp: positions_def)
  from c obtain a r where "q = a @ r" "cur = (if a = [] then None else Some (last a), r)"
    unfolding cursorsFrom_iff by blast
  then show "\<exists>a r. q = a @ r \<and> P (if a = [] then None else Some (last a), r)"
    using p by blast
next
  assume "\<exists>a r. q = a @ r \<and> P (if a = [] then None else Some (last a), r)"
  then obtain a r where ar: "q = a @ r" and p: "P (if a = [] then None else Some (last a), r)"
    by blast
  have "(if a = [] then None else Some (last a), r) \<in> set (cursorsFrom None q)"
    unfolding cursorsFrom_iff using ar by blast
  then show "\<exists>cur \<in> set (positions q). P cur" using p unfolding positions_def by blast
qed

lemma split3: "(\<exists>a r. q = a @ r \<and> (\<exists>m b. r = m @ b \<and> D a m b)) \<longleftrightarrow> (\<exists>a m b. q = a @ m @ b \<and> D a m b)"
  by blast

lemma wholeTest_iff:
  assumes wp: "wordPhrase p"
  shows "(\<exists>cur \<in> set (positions q). wholePhraseAt p cur)
         \<longleftrightarrow> (\<exists>a m b. q = a @ m @ b \<and> delimited a m b p)"
  unfolding ex_position wholePhraseAt_iff[OF wp] by (rule split3)

lemma boundedTest_iff:
  assumes wp: "wordPhrase p"
  shows "(\<exists>cur \<in> set (positions q). wordBoundary cur
            \<and> (case literal p cur of None \<Rightarrow> False | Some cur' \<Rightarrow> wordBoundary cur'))
         \<longleftrightarrow> (\<exists>a m b. q = a @ m @ b \<and> delimited a m b p)"
  unfolding ex_position boundedAt_iff[OF wp] by (rule split3)

lemma hasWholePhrase_iff:
  assumes "wordPhrase (toLowerCase phrase)"
  shows "hasWholePhrase q phrase
         \<longleftrightarrow> (\<exists>a m b. q = a @ m @ b \<and> delimited a m b (toLowerCase phrase))"
  using wholeTest_iff[OF assms]
  by (simp add: hasWholePhrase_def patternChars_escapeRegex)

lemma recencyMarkers_wordPhrase: "p \<in> set recencyMarkers \<Longrightarrow> wordPhrase p"
  by (auto simp: recencyMarkers_def wordPhrase_def js_def isWordChar_def)

lemma isTimeSensitive_iff:
  "isTimeSensitive q
   \<longleftrightarrow> (\<exists>p \<in> set recencyMarkers. \<exists>a m b. q = a @ m @ b \<and> delimited a m b p)"
proof -
  have "isTimeSensitive q
        \<longleftrightarrow> (\<exists>p \<in> set recencyMarkers. \<exists>cur \<in> set (positions q). wordBoundary cur
              \<and> (case literal p cur of None \<Rightarrow> False | Some cur' \<Rightarrow> wordBoundary cur'))"
    unfolding isTimeSensitive_def by blast
  also have "\<dots> \<longleftrightarrow> (\<exists>p \<in> set recencyMarkers. \<exists>a m b. q = a @ m @ b \<and> delimited a m b p)"
    by (intro bex_cong refl boundedTest_iff recencyMarkers_wordPhrase)
  finally show ?thesis .
qed

section \<open>Evaluating the matchers and the handler\<close>

lemmas trigger_defs =
  directorTrigger_def missionTrigger_def foundedTrigger_def formerNameTrigger_def
  addressTrigger_def websiteTrigger_def phoneTrigger_def nameTrigger_def

lemmas matcher_defs =
  js_def toLowerCase_def lowerUnit_def escapeRegex_def isSyntaxChar_def positions_def
  wholePhraseAt_def wordBoundary_def isWordChar_def canonicalize_def hasWholePhrase_def
  hasAnyWholePhrase_def includes_str_def dotStarTest_def isLineTerminator_def atStart_def
  atEnd_def

lemma handler_valid:
  assumes "validRequest cfg w req b museumId q"
  shows "handler cfg w req = answerQuestion w b museumId q"
  using assms
  by (auto simp: validRequest_def handler_def js_def getSupabaseUrlFromJwt_def
      trimmedQuestion_def)

lemma founded_question:
  "firstCategory (toLowerCase (js ''When was the museum founded?'')) = Some Founded"
  by (simp add: firstCategory_def categories_def trigger_defs matcher_defs)


lemma akgId_valid: "UUID_REGEX_test akgId"
  by (simp add: UUID_REGEX_test_def UUID_REGEX_def akgId_def js_def isHex_def isDash_def
      isVersion_def isVariant_def numeral_eq_Suc)

lemma isHex_hexDigit: "isHex c = hexDigit c"
  unfolding isHex_def hexDigit_def by (simp add: js_def; presburger)

lemma UUID_REGEX_length: "length UUID_REGEX = 36"
  by (simp add: UUID_REGEX_def)

lemma UUID_REGEX_nth:
  assumes "i < 36"
  shows "(UUID_REGEX ! i) c
         = (if i \<in> {8, 13, 18, 23} then c = 45
            else if i = 14 then c \<in> set (js ''12345'')
            else if i = 19 then c \<in> set (js ''89abAB'')
            else hexDigit c)"
proof -
  have v: "isVersion c = (c \<in> set (js ''12345''))"
    unfolding isVersion_def by (simp add: js_def; presburger)
  have r: "isVariant c = (c \<in> set (js ''89abAB''))"
    unfolding isVariant_def by (simp add: js_def; presburger)
  have d: "isDash c = (c = 45)" by (simp add: isDash_def)
  show ?thesis
    using assms unfolding UUID_REGEX_def
    by (auto simp: nth_append nth_Cons' v r d isHex_hexDigit)
qed

lemma UUID_REGEX_test_iff: "UUID_REGEX_test s \<longleftrightarrow> uuidFormat s"
proof -
  have "(\<forall>i < 36. (UUID_REGEX ! i) (s ! i))
        \<longleftrightarrow> (\<forall>i < 36.
            if i \<in> {8, 13, 18, 23} then s ! i = 45
            else if i = 14 then s ! i \<in> set (js ''12345'')
            else if i = 19 then s ! i \<in> set (js ''89abAB'')
            else hexDigit (s ! i))"
    using UUID_REGEX_nth[of _ "s ! _"] by blast
  then show ?thesis
    unfolding UUID_REGEX_test_def uuidFormat_def list_all2_conv_all_nth UUID_REGEX_length
    by (simp only: eq_commute[of 36 "length s"])
qed

lemma trim_founded_question:
  "trim (js ''When was the museum founded?'') = js ''When was the museum founded?''"
  by (simp add: trim_def js_def isWhiteSpace_def)

lemma valid_sample:
  assumes "trim t = t" and "t \<noteq> []"
  shows "validRequest sampleConfig (sampleWorld row rows) (post (ask t)) (ask t) (JString akgId) t"
proof -
  have "akgId \<noteq> []" by (simp add: akgId_def js_def)
  then show ?thesis
    using assms akgId_valid
    by (simp add: validRequest_def sampleConfig_def sampleWorld_def post_def ask_def js_def
        isValidUuid_def)
qed

lemma cafe_question: "firstCategory (toLowerCase (js ''Is there a cafe?'')) = None"
  by (simp add: firstCategory_def categories_def trigger_defs matcher_defs)

lemma today_question: "firstCategory (toLowerCase (js ''What is on today?'')) = None"
  by (simp add: firstCategory_def categories_def trigger_defs matcher_defs)

lemma cafe_not_timeSensitive: "\<not> isTimeSensitive (js ''Is there a cafe?'')"
  by (simp add: isTimeSensitive_def recencyMarkers_def matcher_defs)

lemma today_timeSensitive: "isTimeSensitive (js ''What is on today?'')"
  by (simp add: isTimeSensitive_def recencyMarkers_def matcher_defs)

section \<open>Properties of the resolver\<close>

lemma firstCategory_cases:
  assumes "firstCategory q = Some c"
  shows "(c = Director \<and> directorTrigger q)
    \<or> (c = Mission \<and> \<not> directorTrigger q \<and> missionTrigger q)
    \<or> (c = Founded \<and> \<not> directorTrigger q \<and> \<not> missionTrigger q \<and> foundedTrigger q)
    \<or> (c = FormerName \<and> \<not> directorTrigger q \<and> \<not> missionTrigger q \<and> \<not> foundedTrigger q
         \<and> formerNameTrigger q)
    \<or> (c = Address \<and> \<not> directorTrigger q \<and> \<not> missionTrigger q \<and> \<not> foundedTrigger q
         \<and> \<not> formerNameTrigger q \<and> addressTrigger q)
    \<or> (c = Website \<and> \<not> directorTrigger q \<and> \<not> missionTrigger q \<and> \<not> foundedTrigger q
         \<and> \<not> formerNameTrigger q \<and> \<not> addressTrigger q \<and> websiteTrigger q)
    \<or> (c = Phone \<and> \<not> directorTrigger q \<and> \<not> missionTrigger q \<and> \<not> foundedTrigger q
         \<and> \<not> formerNameTrigger q \<and> \<not> addressTrigger q \<and> \<not> websiteTrigger q
         \<and> phoneTrigger q)
    \<or> (c = Name \<and> \<not> directorTrigger q \<and> \<not> missionTrigger q \<and> \<not> foundedTrigger q
         \<and> \<not> formerNameTrigger q \<and> \<not> addressTrigger q \<and> \<not> websiteTrigger q
         \<and> \<not> phoneTrigger q \<and> nameTrigger q)"
  using assms by (simp add: firstCategory_def categories_def split: if_splits)

lemma nonEmpty_Some: "nonEmpty x = Some v \<longleftrightarrow> x = Some v \<and> v \<noteq> []"
  by (auto simp: nonEmpty_def split: option.splits)

lemma nonEmpty_None: "nonEmpty x = None \<longleftrightarrow> \<not> truthy x"
  by (auto simp: nonEmpty_def truthy_def split: option.splits)

lemma join_concat: "join sep (p # ps) = p @ concat (map (\<lambda>x. sep @ x) ps)"
  by (induction ps arbitrary: p) simp_all

lemma truthy_parts:
  "map str (filter truthy fs)
   = concat (map (\<lambda>field. case field of None \<Rightarrow> [] | Some s \<Rightarrow> if s = [] then [] else [s]) fs)"
  by (induction fs) (auto simp: truthy_def str_def split: option.splits)

lemma addressParts_nonempty: "p \<in> set (addressParts m) \<Longrightarrow> p \<noteq> []"
  by (auto simp: addressParts_def split: option.splits if_splits)

lemma address_location: "commaSeparated (addressParts m) = nonEmpty (Some (location m))"
proof -
  have l: "location m = join (js '', '') (addressParts m)"
    unfolding location_def addressParts_def by (simp only: truthy_parts)
  show ?thesis
  proof (cases "addressParts m")
    case Nil
    then show ?thesis by (simp add: l nonEmpty_def)
  next
    case (Cons p ps)
    then have "p \<noteq> []" using addressParts_nonempty[of p m] by simp
    then show ?thesis using Cons by (simp add: l join_concat nonEmpty_def)
  qed
qed

lemma located_question:
  "firstCategory (toLowerCase (js ''Where is the museum located?'')) = Some Address"
  by (simp add: firstCategory_def categories_def trigger_defs matcher_defs)

lemma trim_located_question:
  "trim (js ''Where is the museum located?'') = js ''Where is the museum located?''"
  by (simp add: trim_def js_def isWhiteSpace_def)

lemma resolver_populated:
  assumes c: "firstCategory (toLowerCase question) = Some c" and v: "fact c m = Some v"
  shows "tryAnswerFromMuseumProfile question (Some m)
         = Some \<lparr>answer = template c v, sources = [makeProfileSource m]\<rparr>"
  using firstCategory_cases[OF c] v
  by (elim disjE conjE)
     (simp_all add: tryAnswerFromMuseumProfile_def withSources_def address_location
        nonEmpty_Some truthy_def truthyNum_def str_def num_def split: option.splits if_splits)

lemma resolver_empty:
  assumes c: "firstCategory (toLowerCase question) = Some c" and v: "fact c m = None"
  shows "tryAnswerFromMuseumProfile question (Some m)
         = Some \<lparr>answer = refusalFor c, sources = []\<rparr>"
  using firstCategory_cases[OF c] v
  by (elim disjE conjE)
     (simp_all add: tryAnswerFromMuseumProfile_def refusal_def address_location nonEmpty_None
        truthy_def truthyNum_def genericRefusal_def split: option.splits if_splits)

text \<open>
  Claim C3. When the first category whose trigger matches the question has its fact
  populated, the resolver answers with the sentence of that category around the fact
  and with one source: the profile of the museum, with the similarity 1 and the website
  of the museum, or null, as its URL. The handler answers a valid request with it and
  status 200 after the tenant lookup alone: no embedding, no vector search and no
  language model. The fact is the field of the category as it stands in the record;
  for the address it is the street address, city, state, postal code and country of
  the record, as many as are there, separated by commas. With the founding year 1862,
  the question "When was the museum founded?" has the answer "The museum was founded in
  1862."; with the city Buffalo, the state NY and no other part of an address, the
  question "Where is the museum located?" has the answer "The museum is located at
  Buffalo, NY.".
\<close>

theorem profile_answer_when_populated:
  "(firstCategory (toLowerCase q) = Some c \<longrightarrow> fact c m = Some v \<longrightarrow>
      tryAnswerFromMuseumProfile q (Some m)
        = Some \<lparr>answer = template c v,
                 sources = [\<lparr>source_id = js ''museum_profile:'' @ museum_id m,
                             source_url = website m, similarity = 1\<rparr>]\<rparr>
      \<and> (validRequest cfg w req b museumId q \<longrightarrow> museum_row w museumId = Some m \<longrightarrow>
           handler cfg w req
             = (\<lparr>status = 200,
                  body = AnswerJson
                    \<lparr>answer = template c v,
                     sources = [\<lparr>source_id = js ''museum_profile:'' @ museum_id m,
                                 source_url = website m, similarity = 1\<rparr>]\<rparr>\<rparr>,
                [TenantLookup])))
   \<and> (founded_year m' = Some 1862 \<longrightarrow>
        tryAnswerFromMuseumProfile (js ''When was the museum founded?'') (Some m')
          = Some \<lparr>answer = js ''The museum was founded in 1862.'',
                   sources = [\<lparr>source_id = js ''museum_profile:'' @ museum_id m',
                               source_url = website m', similarity = 1\<rparr>]\<rparr>)
   \<and> (address m'' = None \<longrightarrow> city m'' = Some (js ''Buffalo'') \<longrightarrow> state m'' = Some (js ''NY'')
        \<longrightarrow> postal_code m'' = None \<longrightarrow> country m'' = None \<longrightarrow>
        tryAnswerFromMuseumProfile (js ''Where is the museum located?'') (Some m'')
          = Some \<lparr>answer = js ''The museum is located at Buffalo, NY.'',
                   sources = [\<lparr>source_id = js ''museum_profile:'' @ museum_id m'',
                               source_url = website m'', similarity = 1\<rparr>]\<rparr>)"
proof (intro conjI impI)
  assume c: "firstCategory (toLowerCase q) = Some c" and v: "fact c m = Some v"
  show r: "tryAnswerFromMuseumProfile q (Some m)
        = Some \<lparr>answer = template c v,
                 sources = [\<lparr>source_id = js ''museum_profile:'' @ museum_id m,
                             source_url = website m, similarity = 1\<rparr>]\<rparr>"
    using resolver_populated[OF c v] by (simp add: makeProfileSource_def)
  assume "validRequest cfg w req b museumId q" and "museum_row w museumId = Some m"
  then show "handler cfg w req
             = (\<lparr>status = 200,
                  body = AnswerJson
                    \<lparr>answer = template c v,
                     sources = [\<lparr>source_id = js ''museum_profile:'' @ museum_id m,
                                 source_url = website m, similarity = 1\<rparr>]\<rparr>\<rparr>,
                [TenantLookup])"
    using r by (simp add: handler_valid answerQuestion_def json_def)
next
  assume y: "founded_year m' = Some 1862"
  then have "fact Founded m' = Some (js ''1862'')"
    by (simp add: showInt_def js_def)
  from resolver_populated[OF founded_question this]
  show "tryAnswerFromMuseumProfile (js ''When was the museum founded?'') (Some m')
          = Some \<lparr>answer = js ''The museum was founded in 1862.'',
                   sources = [\<lparr>source_id = js ''museum_profile:'' @ museum_id m',
                               source_url = website m', similarity = 1\<rparr>]\<rparr>"
    by (simp add: makeProfileSource_def js_def)
next
  assume "address m'' = None" "city m'' = Some (js ''Buffalo'')" "state m'' = Some (js ''NY'')"
    "postal_code m'' = None" "country m'' = None"
  then have "fact Address m'' = Some (js ''Buffalo, NY'')"
    by (simp add: addressParts_def js_def)
  from resolver_populated[OF located_question this]
  show "tryAnswerFromMuseumProfile (js ''Where is the museum located?'') (Some m'')
          = Some \<lparr>answer = js ''The museum is located at Buffalo, NY.'',
                   sources = [\<lparr>source_id = js ''museum_profile:'' @ museum_id m'',
                               source_url = website m'', similarity = 1\<rparr>]\<rparr>"
    by (simp add: makeProfileSource_def js_def)
qed

theorem profile_answer_when_populated_witness:
  "firstCategory (toLowerCase (js ''When was the museum founded?'')) = Some Founded
   \<and> fact Founded akg = Some (js ''1862'')
   \<and> validRequest sampleConfig (sampleWorld (Some akg) [])
        (post (ask (js ''When was the museum founded?'')))
        (ask (js ''When was the museum founded?'')) (JString akgId)
        (js ''When was the museum founded?'')
   \<and> museum_row (sampleWorld (Some akg) []) (JString akgId) = Some akg
   \<and> founded_year akg = Some 1862
   \<and> handler sampleConfig (sampleWorld (Some akg) [])
        (post (ask (js ''When was the museum founded?'')))
       = (\<lparr>status = 200,
            body = AnswerJson
              \<lparr>answer = js ''The museum was founded in 1862.'',
               sources = [\<lparr>source_id = js ''museum_profile:f817a6f8-8f99-4618-86a2-603d0b323eff'',
                           source_url = None, similarity = 1\<rparr>]\<rparr>\<rparr>,
          [TenantLookup])
   \<and> firstCategory (toLowerCase (js ''Where is the museum located?'')) = Some Address
   \<and> fact Address akg = Some (js ''Buffalo, NY'')
   \<and> validRequest sampleConfig (sampleWorld (Some akg) [])
        (post (ask (js ''Where is the museum located?'')))
        (ask (js ''Where is the museum located?'')) (JString akgId)
        (js ''Where is the museum located?'')
   \<and> handler sampleConfig (sampleWorld (Some akg) [])
        (post (ask (js ''Where is the museum located?'')))
       = (\<lparr>status = 200,
            body = AnswerJson
              \<lparr>answer = js ''The museum is located at Buffalo, NY.'',
               sources = [\<lparr>source_id = js ''museum_profile:f817a6f8-8f99-4618-86a2-603d0b323eff'',
                           source_url = None, similarity = 1\<rparr>]\<rparr>\<rparr>,
          [TenantLookup])"
proof -
  note main = profile_answer_when_populated
  have f: "fact Founded akg = Some (js ''1862'')"
    by (simp add: akg_def showInt_def js_def)
  have ne: "js ''When was the museum founded?'' \<noteq> []" by (simp add: js_def)
  note val = valid_sample[OF trim_founded_question ne, of "Some akg" "[]"]
  have row: "museum_row (sampleWorld (Some akg) []) (JString akgId) = Some akg"
    by (simp add: sampleWorld_def)
  have h: "handler sampleConfig (sampleWorld (Some akg) [])
        (post (ask (js ''When was the museum founded?'')))
       = (\<lparr>status = 200,
            body = AnswerJson
              \<lparr>answer = template Founded (js ''1862''),
               sources = [\<lparr>source_id = js ''museum_profile:'' @ museum_id akg,
                           source_url = website akg, similarity = 1\<rparr>]\<rparr>\<rparr>,
          [TenantLookup])"
    using main
      [where q = "js ''When was the museum founded?''" and c = Founded and m = akg
        and v = "js ''1862''" and cfg = sampleConfig and w = "sampleWorld (Some akg) []"
        and req = "post (ask (js ''When was the museum founded?''))"
        and b = "ask (js ''When was the museum founded?'')" and museumId = "JString akgId",
        THEN conjunct1]
      founded_question f val row
    by blast
  have fa: "fact Address akg = Some (js ''Buffalo, NY'')"
    by (simp add: akg_def addressParts_def js_def)
  have nea: "js ''Where is the museum located?'' \<noteq> []" by (simp add: js_def)
  note vala = valid_sample[OF trim_located_question nea, of "Some akg" "[]"]
  have ha: "handler sampleConfig (sampleWorld (Some akg) [])
        (post (ask (js ''Where is the museum located?'')))
       = (\<lparr>status = 200,
            body = AnswerJson
              \<lparr>answer = template Address (js ''Buffalo, NY''),
               sources = [\<lparr>source_id = js ''museum_profile:'' @ museum_id akg,
                           source_url = website akg, similarity = 1\<rparr>]\<rparr>\<rparr>,
          [TenantLookup])"
    using main
      [where q = "js ''Where is the museum located?''" and c = Address and m = akg
        and v = "js ''Buffalo, NY''" and cfg = sampleConfig and w = "sampleWorld (Some akg) []"
        and req = "post (ask (js ''Where is the museum located?''))"
        and b = "ask (js ''Where is the museum located?'')" and museumId = "JString akgId",
        THEN conjunct1]
      located_question fa vala row
    by blast
  have a1: "template Founded (js ''1862'') = js ''The museum was founded in 1862.''"
    by (simp add: js_def)
  have a2: "template Address (js ''Buffalo, NY'') = js ''The museum is located at Buffalo, NY.''"
    by (simp add: js_def)
  have a3: "js ''museum_profile:'' @ museum_id akg
            = js ''museum_profile:f817a6f8-8f99-4618-86a2-603d0b323eff''"
    by (simp add: akg_def akgId_def js_def)
  have a4: "website akg = None" "founded_year akg = Some 1862" by (simp_all add: akg_def)
  show ?thesis
    using founded_question f val row located_question fa vala
    unfolding h ha a1 a2 a3 a4 by simp
qed

text \<open>
  Claim C4. When the first category whose trigger matches the question has no fact
  (the field is null or empty), the resolver answers with the refusal of that category
  and no source, and the handler answers a valid request with it and status 200 after
  the tenant lookup alone, whatever the vector search would return. Without a founding
  year, the question "When was the museum founded?" is refused.
\<close>

theorem profile_refusal_when_empty:
  "(firstCategory (toLowerCase q) = Some c \<longrightarrow> fact c m = None \<longrightarrow>
      tryAnswerFromMuseumProfile q (Some m) = Some \<lparr>answer = refusalFor c, sources = []\<rparr>
      \<and> (validRequest cfg w req b museumId q \<longrightarrow> museum_row w museumId = Some m \<longrightarrow>
           handler cfg w req
             = (\<lparr>status = 200, body = AnswerJson \<lparr>answer = refusalFor c, sources = []\<rparr>\<rparr>,
                [TenantLookup])))
   \<and> (founded_year m' = None \<longrightarrow>
        tryAnswerFromMuseumProfile (js ''When was the museum founded?'') (Some m')
          = Some \<lparr>answer =
                     js ''That isn'' @ [8217]
                     @ js ''t available in the provided sources right now. ''
                     @ js ''Please check the museum'' @ [8217]
                     @ js ''s official website for its history.'',
                   sources = []\<rparr>)"
proof (intro conjI impI)
  assume c: "firstCategory (toLowerCase q) = Some c" and v: "fact c m = None"
  show r: "tryAnswerFromMuseumProfile q (Some m) = Some \<lparr>answer = refusalFor c, sources = []\<rparr>"
    by (rule resolver_empty[OF c v])
  assume "validRequest cfg w req b museumId q" and "museum_row w museumId = Some m"
  then show "handler cfg w req
             = (\<lparr>status = 200, body = AnswerJson \<lparr>answer = refusalFor c, sources = []\<rparr>\<rparr>,
                [TenantLookup])"
    using r by (simp add: handler_valid answerQuestion_def json_def)
next
  assume "founded_year m' = None"
  then have "fact Founded m' = None" by simp
  from resolver_empty[OF founded_question this]
  show "tryAnswerFromMuseumProfile (js ''When was the museum founded?'') (Some m')
          = Some \<lparr>answer =
                     js ''That isn'' @ [8217]
                     @ js ''t available in the provided sources right now. ''
                     @ js ''Please check the museum'' @ [8217]
                     @ js ''s official website for its history.'',
                   sources = []\<rparr>"
    by (simp add: notAvailable_def rsquo_def js_def)
qed

theorem profile_refusal_when_empty_witness:
  "firstCategory (toLowerCase (js ''When was the museum founded?'')) = Some Founded
   \<and> fact Founded (akg\<lparr>founded_year := None\<rparr>) = None
   \<and> validRequest sampleConfig
        (sampleWorld (Some (akg\<lparr>founded_year := None\<rparr>))
           [\<lparr>match_id = js ''c1'', chunk_text = js ''Founded in 1862.'',
             match_similarity = Number (Finite (9 / 10))\<rparr>])
        (post (ask (js ''When was the museum founded?'')))
        (ask (js ''When was the museum founded?'')) (JString akgId) (js ''When was the museum founded?'')
   \<and> museum_row
        (sampleWorld (Some (akg\<lparr>founded_year := None\<rparr>))
           [\<lparr>match_id = js ''c1'', chunk_text = js ''Founded in 1862.'',
             match_similarity = Number (Finite (9 / 10))\<rparr>]) (JString akgId)
       = Some (akg\<lparr>founded_year := None\<rparr>)
   \<and> founded_year (akg\<lparr>founded_year := None\<rparr>) = None
   \<and> handler sampleConfig
        (sampleWorld (Some (akg\<lparr>founded_year := None\<rparr>))
           [\<lparr>match_id = js ''c1'', chunk_text = js ''Founded in 1862.'',
             match_similarity = Number (Finite (9 / 10))\<rparr>])
        (post (ask (js ''When was the museum founded?'')))
       = (\<lparr>status = 200,
            body = AnswerJson \<lparr>answer = refusalFor Founded, sources = []\<rparr>\<rparr>,
          [TenantLookup])"
proof -
  let ?m = "akg\<lparr>founded_year := None\<rparr>"
  let ?w = "sampleWorld (Some ?m)
           [\<lparr>match_id = js ''c1'', chunk_text = js ''Founded in 1862.'',
             match_similarity = Number (Finite (9 / 10))\<rparr>]"
  have f: "fact Founded ?m = None" by simp
  have ne: "js ''When was the museum founded?'' \<noteq> []" by (simp add: js_def)
  note val = valid_sample[OF trim_founded_question ne, of "Some ?m"
      "[\<lparr>match_id = js ''c1'', chunk_text = js ''Founded in 1862.'',
         match_similarity = Number (Finite (9 / 10))\<rparr>]"]
  have row: "museum_row ?w (JString akgId) = Some ?m" by (simp add: sampleWorld_def)
  have "handler sampleConfig ?w (post (ask (js ''When was the museum founded?'')))
       = (\<lparr>status = 200,
            body = AnswerJson \<lparr>answer = refusalFor Founded, sources = []\<rparr>\<rparr>,
          [TenantLookup])"
    using profile_refusal_when_empty
      [of "js ''When was the museum founded?''" Founded ?m sampleConfig ?w
          "post (ask (js ''When was the museum founded?''))"
          "ask (js ''When was the museum founded?'')" "JString akgId"]
      founded_question f val row
    by blast
  then show ?thesis using founded_question f val row by simp
qed

section \<open>Properties of the handler\<close>

lemma handler_search:
  assumes "searchReturns cfg w req b q rows"
  shows "handler cfg w req
         = (fst (answerFromRows w q (requestedMatchCount b) rows),
            [TenantLookup, Embedder, VectorSearch]
            @ snd (answerFromRows w q (requestedMatchCount b) rows))"
proof -
  from assms obtain museumId e where v: "validRequest cfg w req b museumId q"
    and p: "tryAnswerFromMuseumProfile q (museum_row w museumId) = None"
    and e: "embedding w q = Inr e"
    and m: "match_content_chunks w e (rpcMatchCount b) museumId = Inr rows"
    unfolding searchReturns_def by blast
  show ?thesis
    unfolding handler_valid[OF v] answerQuestion_def
    by (simp add: p e m split: prod.splits)
qed

lemma tryAnswer_none:
  assumes "firstCategory (toLowerCase q) = None"
  shows "tryAnswerFromMuseumProfile q row = None"
  using assms
  by (cases row)
     (simp_all add: tryAnswerFromMuseumProfile_def firstCategory_def categories_def
        split: if_splits)

lemma search_sample:
  assumes "trim t = t" and "t \<noteq> []" and "firstCategory (toLowerCase t) = None"
  shows "searchReturns sampleConfig (sampleWorld row rows) (post (ask t)) (ask t) t rows"
  unfolding searchReturns_def
  using valid_sample[OF assms(1,2), of row rows] tryAnswer_none[OF assms(3)]
  by (intro exI[of _ "JString akgId"]) (simp add: sampleWorld_def)


text \<open>
  Claim C8. A request whose museum id is missing, null or a string that is not of the
  format of identifiers never reaches a service: the handler calls none. Unless it is
  the preflight \<open>OPTIONS\<close>, it is answered with an error and a status of 400, 405 or
  500: a \<open>POST\<close> with a JSON body, on a configured server, with 400 and "Invalid or
  missing museum_id" when its question is a string, null or missing, and with 500 when
  its question is any other value, on which \<open>trim\<close> throws before the id is looked at.
\<close>

theorem invalid_museum_id_rejected:
  assumes "\<forall>b. payload req = Parsed b \<longrightarrow>
             req_museum_id b = Undefined \<or> req_museum_id b = JNull
             \<or> (\<exists>s. req_museum_id b = JString s \<and> \<not> uuidFormat s)"
  shows "snd (handler cfg w req) = []
    \<and> (http_method req \<noteq> js ''OPTIONS''
         \<longrightarrow> status (fst (handler cfg w req)) \<in> {400, 405, 500}
             \<and> (\<exists>e d. body (fst (handler cfg w req)) = ErrorJson e d))
    \<and> (http_method req = js ''POST'' \<longrightarrow> SERVICE_ROLE_KEY cfg \<noteq> [] \<longrightarrow> OPENAI_API_KEY cfg \<noteq> []
         \<longrightarrow> payload req = Parsed b
         \<longrightarrow> req_question b = Undefined \<or> req_question b = JNull
              \<or> (\<exists>t. req_question b = JString t)
         \<longrightarrow> fst (handler cfg w req)
             = \<lparr>status = 400, body = ErrorJson (js ''Invalid or missing museum_id'') None\<rparr>)
    \<and> (http_method req = js ''POST'' \<longrightarrow> SERVICE_ROLE_KEY cfg \<noteq> [] \<longrightarrow> OPENAI_API_KEY cfg \<noteq> []
         \<longrightarrow> payload req = Parsed b
         \<longrightarrow> \<not> (req_question b = Undefined \<or> req_question b = JNull
                \<or> (\<exists>t. req_question b = JString t))
         \<longrightarrow> fst (handler cfg w req)
             = \<lparr>status = 500,
                body = ErrorJson (js ''Internal server error'')
                         (Some (trim_error w (req_question b)))\<rparr>)"
proof -
  have ne: "js ''OPTIONS'' \<noteq> js ''POST''" by (simp add: js_def)
  show ?thesis
  proof (cases "payload req")
    case (Malformed msg)
    show ?thesis using Malformed ne
      by (auto simp: handler_def json_def internalError_def)
  next
    case (Parsed b')
    have "req_museum_id b' = Undefined \<or> req_museum_id b' = JNull
          \<or> (\<exists>s. req_museum_id b' = JString s \<and> \<not> uuidFormat s)"
      using assms Parsed by blast
    then have bad: "\<not> truthyValue (req_museum_id b')
                    \<or> \<not> isValidUuid (number_text w) (req_museum_id b')"
      by (auto simp: isValidUuid_def UUID_REGEX_test_iff)
    show ?thesis
    proof (cases "req_question b' = Undefined \<or> req_question b' = JNull
                  \<or> (\<exists>t. req_question b' = JString t)")
      case True
      then obtain q where q: "trimmedQuestion w b' = Inr q"
        by (auto simp: trimmedQuestion_def)
      have h: "http_method req = js ''POST'' \<Longrightarrow> SERVICE_ROLE_KEY cfg \<noteq> []
               \<Longrightarrow> OPENAI_API_KEY cfg \<noteq> []
               \<Longrightarrow> handler cfg w req
                   = (\<lparr>status = 400,
                       body = ErrorJson (js ''Invalid or missing museum_id'') None\<rparr>, [])"
        using bad Parsed q ne by (auto simp: handler_def json_def Let_def)
      show ?thesis
      proof (cases "http_method req = js ''POST'' \<and> SERVICE_ROLE_KEY cfg \<noteq> []
                    \<and> OPENAI_API_KEY cfg \<noteq> []")
        case ok: True
        then show ?thesis using h True Parsed ne by auto
      next
        case False
        then show ?thesis using ne by (auto simp: handler_def json_def)
      qed
    next
      case False
      then have q: "trimmedQuestion w b' = Inl (trim_error w (req_question b'))"
        by (cases "req_question b'") (simp_all add: trimmedQuestion_def)
      have h: "http_method req = js ''POST'' \<Longrightarrow> SERVICE_ROLE_KEY cfg \<noteq> []
               \<Longrightarrow> OPENAI_API_KEY cfg \<noteq> []
               \<Longrightarrow> handler cfg w req
                   = (\<lparr>status = 500,
                       body = ErrorJson (js ''Internal server error'')
                                (Some (trim_error w (req_question b')))\<rparr>, [])"
        using Parsed q ne by (auto simp: handler_def json_def internalError_def Let_def)
      show ?thesis
      proof (cases "http_method req = js ''POST'' \<and> SERVICE_ROLE_KEY cfg \<noteq> []
                    \<and> OPENAI_API_KEY cfg \<noteq> []")
        case ok: True
        then show ?thesis using h False Parsed ne by auto
      next
        case False
        then show ?thesis using ne by (auto simp: handler_def json_def)
      qed
    qed
  qed
qed

theorem invalid_museum_id_rejected_witness:
  "\<not> uuidFormat (js ''f817a6f8'')
   \<and> http_method (post \<lparr>req_museum_id = JString (js ''f817a6f8''),
        req_question = JString (js ''When was the museum founded?''),
        req_match_count = Undefined\<rparr>)
     \<noteq> js ''OPTIONS''
   \<and> handler sampleConfig (sampleWorld (Some akg) [])
        (post \<lparr>req_museum_id = JString (js ''f817a6f8''),
           req_question = JString (js ''When was the museum founded?''),
           req_match_count = Undefined\<rparr>)
       = (\<lparr>status = 400, body = ErrorJson (js ''Invalid or missing museum_id'') None\<rparr>, [])
   \<and> handler sampleConfig (sampleWorld (Some akg) [])
        (post \<lparr>req_museum_id = Undefined, req_question = JNumber (Finite 1862),
           req_match_count = Undefined\<rparr>)
       = (\<lparr>status = 500,
            body = ErrorJson (js ''Internal server error'')
                     (Some (js ''body?.question?.trim is not a function''))\<rparr>, [])"
proof -
  note main = invalid_museum_id_rejected
  let ?b = "\<lparr>req_museum_id = JString (js ''f817a6f8''),
        req_question = JString (js ''When was the museum founded?''),
        req_match_count = Undefined\<rparr>"
  let ?w = "sampleWorld (Some akg) []"
  have m: "http_method (post ?b) \<noteq> js ''OPTIONS''" by (simp add: post_def js_def)
  have u: "\<not> uuidFormat (js ''f817a6f8'')"
    by (simp add: uuidFormat_def js_def)
  have h: "\<forall>b. payload (post ?b) = Parsed b \<longrightarrow>
             req_museum_id b = Undefined \<or> req_museum_id b = JNull
             \<or> (\<exists>s. req_museum_id b = JString s \<and> \<not> uuidFormat s)"
    using u by (auto simp: post_def)
  have p: "http_method (post ?b) = js ''POST''" "SERVICE_ROLE_KEY sampleConfig \<noteq> []"
    "OPENAI_API_KEY sampleConfig \<noteq> []" "payload (post ?b) = Parsed ?b"
    "req_question ?b = Undefined \<or> req_question ?b = JNull \<or> (\<exists>t. req_question ?b = JString t)"
    by (simp_all add: post_def sampleConfig_def js_def)
  have s1: "snd (handler sampleConfig ?w (post ?b)) = []"
    using main[OF h, of sampleConfig ?w, THEN conjunct1] .
  have f1: "fst (handler sampleConfig ?w (post ?b))
          = \<lparr>status = 400, body = ErrorJson (js ''Invalid or missing museum_id'') None\<rparr>"
    using main[OF h, of sampleConfig ?w ?b, THEN conjunct2, THEN conjunct2, THEN conjunct1] p
    by blast
  have r1: "handler sampleConfig ?w (post ?b)
       = (\<lparr>status = 400, body = ErrorJson (js ''Invalid or missing museum_id'') None\<rparr>, [])"
    using s1 f1 by (metis prod.collapse)
  let ?c = "\<lparr>req_museum_id = Undefined, req_question = JNumber (Finite 1862),
        req_match_count = Undefined\<rparr>"
  have h': "\<forall>b. payload (post ?c) = Parsed b \<longrightarrow>
             req_museum_id b = Undefined \<or> req_museum_id b = JNull
             \<or> (\<exists>s. req_museum_id b = JString s \<and> \<not> uuidFormat s)"
    by (auto simp: post_def)
  have p': "http_method (post ?c) = js ''POST''" "payload (post ?c) = Parsed ?c"
    "\<not> (req_question ?c = Undefined \<or> req_question ?c = JNull
        \<or> (\<exists>t. req_question ?c = JString t))"
    by (simp_all add: post_def)
  have s2: "snd (handler sampleConfig ?w (post ?c)) = []"
    using main[OF h', of sampleConfig ?w, THEN conjunct1] .
  have f2: "fst (handler sampleConfig ?w (post ?c))
          = \<lparr>status = 500,
             body = ErrorJson (js ''Internal server error'')
                      (Some (trim_error ?w (req_question ?c)))\<rparr>"
    using main[OF h', of sampleConfig ?w ?c, THEN conjunct2, THEN conjunct2, THEN conjunct2]
      p' p(2,3)
    by blast
  have t: "trim_error ?w (req_question ?c) = js ''body?.question?.trim is not a function''"
    by (simp add: sampleWorld_def)
  have r2: "handler sampleConfig ?w (post ?c)
       = (\<lparr>status = 500,
            body = ErrorJson (js ''Internal server error'')
                     (Some (js ''body?.question?.trim is not a function''))\<rparr>, [])"
    using s2 f2 unfolding t by (metis prod.collapse)
  show ?thesis using u m r1 r2 by simp
qed

text \<open>
  The preflight is answered before the handler looks at the body: an \<open>OPTIONS\<close> request
  without museum id has the answer "ok" with status 200, which is no error.
\<close>

theorem preflight_without_museum_id_counterexample:
  "req_museum_id \<lparr>req_museum_id = Undefined,
        req_question = JString (js ''When was the museum founded?''),
        req_match_count = Undefined\<rparr> = Undefined
   \<and> handler sampleConfig (sampleWorld (Some akg) [])
        \<lparr>http_method = js ''OPTIONS'',
         payload = Parsed \<lparr>req_museum_id = Undefined,
           req_question = JString (js ''When was the museum founded?''),
           req_match_count = Undefined\<rparr>\<rparr>
       = (\<lparr>status = 200, body = PlainText (js ''ok'')\<rparr>, [])"
  by (simp add: handler_def json_def)

text \<open>
  A museum id that is no string is left aside above. The check reads such an id as a
  string, and the handler sends it on as it is: an array that holds one identifier
  passes the check, and the tenant lookup is called with the array.
\<close>

lemma array_museum_id_reaches_tenant_lookup:
  "\<not> (\<exists>s. JArray [JString akgId] = JString s)
   \<and> handler sampleConfig (sampleWorld (Some akg) [])
        (post \<lparr>req_museum_id = JArray [JString akgId],
           req_question = JString (js ''When was the museum founded?''),
           req_match_count = Undefined\<rparr>)
       = (\<lparr>status = 200,
            body = AnswerJson
              \<lparr>answer = js ''The museum was founded in 1862.'',
               sources = [\<lparr>source_id = js ''museum_profile:f817a6f8-8f99-4618-86a2-603d0b323eff'',
                           source_url = None, similarity = 1\<rparr>]\<rparr>\<rparr>,
          [TenantLookup])"
proof -
  let ?q = "js ''When was the museum founded?''"
  let ?b = "\<lparr>req_museum_id = JArray [JString akgId], req_question = JString ?q,
        req_match_count = Undefined\<rparr>"
  let ?w = "sampleWorld (Some akg) []"
  have ne: "?q \<noteq> []" by (simp add: js_def)
  have v: "validRequest sampleConfig ?w (post ?b) ?b (JArray [JString akgId]) ?q"
    using akgId_valid ne trim_founded_question
    by (simp add: validRequest_def sampleConfig_def sampleWorld_def post_def js_def
        isValidUuid_def)
  have f: "fact Founded akg = Some (js ''1862'')"
    by (simp add: akg_def showInt_def js_def)
  have r: "tryAnswerFromMuseumProfile ?q (Some akg)
           = Some \<lparr>answer = template Founded (js ''1862''), sources = [makeProfileSource akg]\<rparr>"
    by (rule resolver_populated[OF founded_question f])
  have "handler sampleConfig ?w (post ?b)
        = (\<lparr>status = 200,
             body = AnswerJson \<lparr>answer = template Founded (js ''1862''),
                                sources = [makeProfileSource akg]\<rparr>\<rparr>, [TenantLookup])"
    unfolding handler_valid[OF v] answerQuestion_def
    by (simp add: sampleWorld_def r json_def)
  then show ?thesis
    by (simp add: makeProfileSource_def akg_def akgId_def js_def)
qed

section \<open>Properties of the similarity gate\<close>

lemma take_eq_iff: "take (length x) r = x \<longleftrightarrow> (\<exists>b. r = x @ b)"
proof
  assume "take (length x) r = x"
  then have "r = x @ drop (length x) r" by (metis append_take_drop_id)
  then show "\<exists>b. r = x @ b" ..
next
  assume "\<exists>b. r = x @ b"
  then show "take (length x) r = x" by auto
qed

lemma includes_str_iff: "includes_str s x \<longleftrightarrow> (\<exists>a b. s = a @ x @ b)"
  unfolding includes_str_def ex_position snd_conv take_eq_iff by blast

lemma changes_frequently: "includes_str timeSensitiveRefusal (js ''changes frequently'')"
proof -
  have "timeSensitiveRefusal
        = js ''That '' @ js ''changes frequently''
          @ (js '' and isn'' @ [8217] @ js ''t available in the provided sources right now. ''
             @ js ''Please check the museum'' @ [8217]
             @ js ''s official website for the latest details.'')"
    by (simp add: timeSensitiveRefusal_def rsquo_def js_def)
  then show ?thesis unfolding includes_str_iff by blast
qed
lemmas number_defs =
  toNumber_def finiteOrNull_def parseFloat_def unsignedLiteral_def isWhiteSpace_def
  isDigit_def exponentPart_def digitsValue_def roundToNumber_def negate_def

lemma normalized_append: "normalized (xs @ ys) = normalized xs @ normalized ys"
  by (simp add: normalized_def List.map_filter_def)

lemma normalized_Cons:
  "normalized (r # rows)
   = (case normalizeRow r of None \<Rightarrow> normalized rows | Some nr \<Rightarrow> nr # normalized rows)"
  by (simp add: normalized_def List.map_filter_simps split: option.splits)

lemma normalized_Nil: "normalized [] = []"
  by (simp add: normalized_def List.map_filter_simps)

lemma normalized_drop:
  assumes "toNumber (match_similarity r) = None"
  shows "normalized (xs @ r # ys) = normalized xs @ normalized ys"
  using assms by (simp add: normalized_append normalized_Cons normalizeRow_def)

lemma normalized_origin:
  assumes "nr \<in> set (normalized rows)"
  shows "\<exists>r \<in> set rows. toNumber (match_similarity r) = Some (norm_similarity nr)
           \<and> norm_id nr = match_id r \<and> norm_text nr = chunk_text r"
proof -
  from assms obtain r where r: "r \<in> set rows" "normalizeRow r = Some nr"
    by (auto simp: normalized_def in_set_map_filter)
  then show ?thesis
    by (intro bexI[of _ r]) (auto simp: normalizeRow_def split: option.splits)
qed

lemma strong_floor:
  assumes "r \<in> set (strong ns requested)"
  shows "45 / 100 \<le> norm_similarity r"
proof -
  have "r \<in> set (filter (\<lambda>r. MIN_SIMILARITY \<le> norm_similarity r) ns)"
    using assms unfolding strong_def by (rule in_set_takeD)
  then show ?thesis by (simp add: MIN_SIMILARITY_def)
qed

lemma no_strong_refusal:
  assumes "searchReturns cfg w req b q rows"
    and "strong (normalized rows) (requestedMatchCount b) = []"
  shows "handler cfg w req
         = (\<lparr>status = 200,
              body = AnswerJson
                \<lparr>answer = (if isTimeSensitive q then timeSensitiveRefusal else genericRefusal),
                 sources = []\<rparr>\<rparr>,
            [TenantLookup, Embedder, VectorSearch])"
  unfolding handler_search[OF assms(1)]
  using assms(2) by (simp add: answerFromRows_def json_def refusal_def)

text \<open>
  Claim C2. A match whose normalised similarity is below 0.45 is not among the strong
  matches, which are the matches of at least 0.45 in the order of the search, cut to
  the requested count. When the vector search has returned, no match is strong and the
  question is not time-sensitive, the handler answers with status 200, the generic
  refusal and no source, and calls no language model; when some match is strong, the
  sources of the answer are the strong matches.
\<close>

theorem weak_matches_excluded_and_refused:
  "(r \<in> set (normalized rows) \<longrightarrow> norm_similarity r < 45 / 100
      \<longrightarrow> r \<notin> set (strong (normalized rows) requested))
   \<and> strong ns requested
       = take (nat \<lfloor>requested\<rfloor>) (filter (\<lambda>r. 45 / 100 \<le> norm_similarity r) ns)
   \<and> (searchReturns cfg w req b q rows
        \<longrightarrow> strong (normalized rows) (requestedMatchCount b) = []
        \<longrightarrow> \<not> isTimeSensitive q
        \<longrightarrow> handler cfg w req
            = (\<lparr>status = 200,
                 body = AnswerJson
                   \<lparr>answer =
                      js ''That isn'' @ [8217]
                      @ js ''t available in the provided sources right now. ''
                      @ js ''Please check the museum'' @ [8217] @ js ''s official website.'',
                    sources = []\<rparr>\<rparr>,
               [TenantLookup, Embedder, VectorSearch]))
   \<and> (searchReturns cfg w req b q rows
        \<longrightarrow> strong (normalized rows) (requestedMatchCount b) = s \<longrightarrow> s \<noteq> []
        \<longrightarrow> chat w (promptOf (contextOf s) q) = Inr reply
        \<longrightarrow> handler cfg w req
            = (\<lparr>status = 200,
                 body = AnswerJson
                   \<lparr>answer = reply,
                    sources =
                      map (\<lambda>r. \<lparr>source_id = norm_id r,
                                 source_url = sourceUrlOf (chunk_urls w (map norm_id s)) (norm_id r),
                                 similarity = norm_similarity r\<rparr>) s\<rparr>\<rparr>,
               [TenantLookup, Embedder, VectorSearch, SourceLookup, LanguageModel]))"
proof (intro conjI impI)
  assume "r \<in> set (normalized rows)" and lt: "norm_similarity r < 45 / 100"
  show "r \<notin> set (strong (normalized rows) requested)"
    using strong_floor[of r "normalized rows" requested] lt by auto
next
  show "strong ns requested
       = take (nat \<lfloor>requested\<rfloor>) (filter (\<lambda>r. 45 / 100 \<le> norm_similarity r) ns)"
    by (simp add: strong_def MIN_SIMILARITY_def)
next
  assume "searchReturns cfg w req b q rows"
    and "strong (normalized rows) (requestedMatchCount b) = []" and "\<not> isTimeSensitive q"
  then show "handler cfg w req
            = (\<lparr>status = 200,
                 body = AnswerJson
                   \<lparr>answer =
                      js ''That isn'' @ [8217]
                      @ js ''t available in the provided sources right now. ''
                      @ js ''Please check the museum'' @ [8217] @ js ''s official website.'',
                    sources = []\<rparr>\<rparr>,
               [TenantLookup, Embedder, VectorSearch])"
    by (simp add: no_strong_refusal genericRefusal_def notAvailable_def rsquo_def js_def)
next
  assume sr: "searchReturns cfg w req b q rows"
    and "strong (normalized rows) (requestedMatchCount b) = s" and "s \<noteq> []"
    and "chat w (promptOf (contextOf s) q) = Inr reply"
  then show "handler cfg w req
            = (\<lparr>status = 200,
                 body = AnswerJson
                   \<lparr>answer = reply,
                    sources =
                      map (\<lambda>r. \<lparr>source_id = norm_id r,
                                 source_url = sourceUrlOf (chunk_urls w (map norm_id s)) (norm_id r),
                                 similarity = norm_similarity r\<rparr>) s\<rparr>\<rparr>,
               [TenantLookup, Embedder, VectorSearch, SourceLookup, LanguageModel])"
    unfolding handler_search[OF sr]
    by (simp add: answerFromRows_def json_def Let_def)
qed

lemma normalized_weakRows:
  "normalized weakRows
   = [\<lparr>norm_id = js ''c1'', norm_text = js ''Open daily.'', norm_similarity = 3 / 10\<rparr>,
      \<lparr>norm_id = js ''c2'', norm_text = js ''Closed on Tuesdays.'', norm_similarity = 44 / 100\<rparr>]"
  by (simp add: weakRows_def normalized_Cons normalized_Nil normalizeRow_def number_defs js_def)

lemma strong_weakRows: "strong (normalized weakRows) (requestedMatchCount (ask t)) = []"
  by (simp add: normalized_weakRows strong_def MIN_SIMILARITY_def)

lemma trim_cafe: "trim (js ''Is there a cafe?'') = js ''Is there a cafe?''"
  by (simp add: trim_def js_def isWhiteSpace_def)

lemma trim_today: "trim (js ''What is on today?'') = js ''What is on today?''"
  by (simp add: trim_def js_def isWhiteSpace_def)

lemma normalized_cafeRow:
  "normalized [cafeRow]
   = [\<lparr>norm_id = js ''c3'', norm_text = js ''The cafe is on level 1.'', norm_similarity = 8 / 10\<rparr>]"
  by (simp add: cafeRow_def normalized_Cons normalized_Nil normalizeRow_def number_defs js_def)

lemma normalized_brokenRow: "toNumber (match_similarity brokenRow) = None"
  by (simp add: brokenRow_def number_defs js_def)

theorem weak_matches_excluded_and_refused_witness:
  "\<lparr>norm_id = js ''c2'', norm_text = js ''Closed on Tuesdays.'', norm_similarity = 44 / 100\<rparr>
     \<in> set (normalized weakRows)
   \<and> \<lparr>norm_id = js ''c2'', norm_text = js ''Closed on Tuesdays.'', norm_similarity = 44 / 100\<rparr>
     \<notin> set (strong (normalized weakRows) 5)
   \<and> searchReturns sampleConfig (sampleWorld (Some akg) weakRows)
     (post (ask (js ''Is there a cafe?''))) (ask (js ''Is there a cafe?''))
     (js ''Is there a cafe?'') weakRows
   \<and> strong (normalized weakRows) (requestedMatchCount (ask (js ''Is there a cafe?''))) = []
   \<and> \<not> isTimeSensitive (js ''Is there a cafe?'')
   \<and> handler sampleConfig (sampleWorld (Some akg) weakRows) (post (ask (js ''Is there a cafe?'')))
       = (\<lparr>status = 200, body = AnswerJson \<lparr>answer = genericRefusal, sources = []\<rparr>\<rparr>,
          [TenantLookup, Embedder, VectorSearch])
   \<and> handler sampleConfig (sampleWorld (Some akg) (weakRows @ [cafeRow]))
        (post (ask (js ''Is there a cafe?'')))
       = (\<lparr>status = 200,
            body = AnswerJson
              \<lparr>answer = js ''Yes.'',
               sources = [\<lparr>source_id = js ''c3'', source_url = None, similarity = 8 / 10\<rparr>]\<rparr>\<rparr>,
          [TenantLookup, Embedder, VectorSearch, SourceLookup, LanguageModel])"
proof -
  let ?q = "js ''Is there a cafe?''"
  let ?c2 = "\<lparr>norm_id = js ''c2'', norm_text = js ''Closed on Tuesdays.'',
             norm_similarity = 44 / 100\<rparr>"
  let ?c3 = "\<lparr>norm_id = js ''c3'', norm_text = js ''The cafe is on level 1.'',
             norm_similarity = 8 / 10\<rparr>"
  note main = weak_matches_excluded_and_refused
  have ne: "?q \<noteq> []" by (simp add: js_def)
  have m: "?c2 \<in> set (normalized weakRows)" by (simp add: normalized_weakRows)
  have lt: "norm_similarity ?c2 < 45 / 100" by simp
  have out: "?c2 \<notin> set (strong (normalized weakRows) 5)"
    using main[where r = ?c2 and rows = weakRows and requested = 5] m lt by blast
  note sr = search_sample[OF trim_cafe ne cafe_question, of "Some akg" weakRows]
  note st = strong_weakRows[of ?q]
  have refused: "handler sampleConfig (sampleWorld (Some akg) weakRows) (post (ask ?q))
       = (\<lparr>status = 200,
            body = AnswerJson
              \<lparr>answer =
                 js ''That isn'' @ [8217]
                 @ js ''t available in the provided sources right now. ''
                 @ js ''Please check the museum'' @ [8217] @ js ''s official website.'',
               sources = []\<rparr>\<rparr>,
          [TenantLookup, Embedder, VectorSearch])"
    using main[where cfg = sampleConfig and w = "sampleWorld (Some akg) weakRows"
         and req = "post (ask ?q)" and b = "ask ?q" and q = ?q and rows = weakRows]
      sr st cafe_not_timeSensitive
    by blast
  note sr' = search_sample[OF trim_cafe ne cafe_question, of "Some akg" "weakRows @ [cafeRow]"]
  have st': "strong (normalized (weakRows @ [cafeRow])) (requestedMatchCount (ask ?q)) = [?c3]"
    by (simp add: normalized_append normalized_weakRows normalized_cafeRow strong_def
        MIN_SIMILARITY_def requestedMatchCount_def ask_def)
  have ch: "chat (sampleWorld (Some akg) (weakRows @ [cafeRow])) (promptOf (contextOf [?c3]) ?q)
            = Inr (js ''Yes.'')"
    by (simp add: sampleWorld_def)
  have answered: "handler sampleConfig (sampleWorld (Some akg) (weakRows @ [cafeRow]))
        (post (ask ?q))
       = (\<lparr>status = 200,
            body = AnswerJson
              \<lparr>answer = js ''Yes.'',
               sources =
                 map (\<lambda>r. \<lparr>source_id = norm_id r,
                            source_url =
                              sourceUrlOf
                                (chunk_urls (sampleWorld (Some akg) (weakRows @ [cafeRow]))
                                   (map norm_id [?c3])) (norm_id r),
                            similarity = norm_similarity r\<rparr>) [?c3]\<rparr>\<rparr>,
          [TenantLookup, Embedder, VectorSearch, SourceLookup, LanguageModel])"
    using main[where cfg = sampleConfig and w = "sampleWorld (Some akg) (weakRows @ [cafeRow])"
         and req = "post (ask ?q)" and b = "ask ?q" and q = ?q
         and rows = "weakRows @ [cafeRow]" and s = "[?c3]" and reply = "js ''Yes.''"]
      sr' st' ch
    by blast
  have a: "handler sampleConfig (sampleWorld (Some akg) (weakRows @ [cafeRow])) (post (ask ?q))
       = (\<lparr>status = 200,
            body = AnswerJson
              \<lparr>answer = js ''Yes.'',
               sources = [\<lparr>source_id = js ''c3'', source_url = None, similarity = 8 / 10\<rparr>]\<rparr>\<rparr>,
          [TenantLookup, Embedder, VectorSearch, SourceLookup, LanguageModel])"
    unfolding answered by (simp add: sampleWorld_def sourceUrlOf_def)
  have r: "handler sampleConfig (sampleWorld (Some akg) weakRows) (post (ask ?q))
       = (\<lparr>status = 200, body = AnswerJson \<lparr>answer = genericRefusal, sources = []\<rparr>\<rparr>,
          [TenantLookup, Embedder, VectorSearch])"
    unfolding refused by (simp add: genericRefusal_def notAvailable_def rsquo_def js_def)
  show ?thesis using m out sr st cafe_not_timeSensitive r a by blast
qed

text \<open>
  Claim C5. A question with a recency marker as a whole word is time-sensitive. When
  the vector search has returned and no match is strong, the handler answers such a
  question with status 200, no source and its own refusal, which is not the generic one
  and says "changes frequently", and it calls no language model.
\<close>

theorem time_sensitive_refusal:
  "(searchReturns cfg w req b q rows \<longrightarrow> isTimeSensitive q
      \<longrightarrow> strong (normalized rows) (requestedMatchCount b) = []
      \<longrightarrow> handler cfg w req
          = (\<lparr>status = 200,
               body = AnswerJson \<lparr>answer = timeSensitiveRefusal, sources = []\<rparr>\<rparr>,
             [TenantLookup, Embedder, VectorSearch]))
   \<and> timeSensitiveRefusal \<noteq> genericRefusal
   \<and> includes_str timeSensitiveRefusal (js ''changes frequently'')
   \<and> timeSensitiveRefusal
       = js ''That changes frequently and isn'' @ [8217]
         @ js ''t available in the provided sources right now. ''
         @ js ''Please check the museum'' @ [8217]
         @ js ''s official website for the latest details.''
   \<and> (isTimeSensitive q
        \<longleftrightarrow> (\<exists>p \<in> set [js ''this week'', js ''today'', js ''right now'', js ''currently'',
                        js ''current'', js ''now'', js ''tonight'', js ''tomorrow'',
                        js ''yesterday''].
              \<exists>a m b. q = a @ m @ b \<and> delimited a m b p))"
proof (intro conjI impI)
  assume "searchReturns cfg w req b q rows" and "isTimeSensitive q"
    and "strong (normalized rows) (requestedMatchCount b) = []"
  then show "handler cfg w req
          = (\<lparr>status = 200,
               body = AnswerJson \<lparr>answer = timeSensitiveRefusal, sources = []\<rparr>\<rparr>,
             [TenantLookup, Embedder, VectorSearch])"
    by (simp add: no_strong_refusal)
next
  show "timeSensitiveRefusal \<noteq> genericRefusal"
    by (simp add: timeSensitiveRefusal_def genericRefusal_def notAvailable_def rsquo_def js_def)
  show "includes_str timeSensitiveRefusal (js ''changes frequently'')"
    by (rule changes_frequently)
  show "timeSensitiveRefusal
       = js ''That changes frequently and isn'' @ [8217]
         @ js ''t available in the provided sources right now. ''
         @ js ''Please check the museum'' @ [8217]
         @ js ''s official website for the latest details.''"
    by (simp add: timeSensitiveRefusal_def rsquo_def)
  show "isTimeSensitive q
        \<longleftrightarrow> (\<exists>p \<in> set [js ''this week'', js ''today'', js ''right now'', js ''currently'',
                        js ''current'', js ''now'', js ''tonight'', js ''tomorrow'',
                        js ''yesterday''].
              \<exists>a m b. q = a @ m @ b \<and> delimited a m b p)"
    using isTimeSensitive_iff[of q] unfolding recencyMarkers_def .
qed

theorem time_sensitive_refusal_witness:
  "searchReturns sampleConfig (sampleWorld (Some akg) weakRows)
     (post (ask (js ''What is on today?''))) (ask (js ''What is on today?''))
     (js ''What is on today?'') weakRows
   \<and> isTimeSensitive (js ''What is on today?'')
   \<and> strong (normalized weakRows) (requestedMatchCount (ask (js ''What is on today?''))) = []
   \<and> handler sampleConfig (sampleWorld (Some akg) weakRows)
        (post (ask (js ''What is on today?'')))
       = (\<lparr>status = 200,
            body = AnswerJson \<lparr>answer = timeSensitiveRefusal, sources = []\<rparr>\<rparr>,
          [TenantLookup, Embedder, VectorSearch])"
proof -
  let ?q = "js ''What is on today?''"
  have ne: "?q \<noteq> []" by (simp add: js_def)
  note sr = search_sample[OF trim_today ne today_question, of "Some akg" weakRows]
  note st = strong_weakRows[of ?q]
  have "handler sampleConfig (sampleWorld (Some akg) weakRows) (post (ask ?q))
       = (\<lparr>status = 200,
            body = AnswerJson \<lparr>answer = timeSensitiveRefusal, sources = []\<rparr>\<rparr>,
          [TenantLookup, Embedder, VectorSearch])"
    using time_sensitive_refusal
      [where cfg = sampleConfig and w = "sampleWorld (Some akg) weakRows"
         and req = "post (ask ?q)" and b = "ask ?q" and q = ?q and rows = weakRows]
      sr st today_timeSensitive
    by blast
  then show ?thesis using sr st today_timeSensitive by blast
qed

lemma toNumber_Some:
  "toNumber x = Some v \<longleftrightarrow> x = Number (Finite v) \<or> (\<exists>s. x = String s \<and> parseFloat s = Finite v)"
  by (cases x) (auto simp: toNumber_def finiteOrNull_def split: jsnumber.splits)

lemma answerFromRows_normalized:
  "normalized rows = normalized rows'
   \<Longrightarrow> answerFromRows w q requested rows = answerFromRows w q requested rows'"
  by (simp add: answerFromRows_def)

text \<open>
  Claim C9. The similarity of a match, a number or a string, is turned into a number
  before the gate: into its value when it is a finite number or a string that starts
  with a finite decimal literal, and into null otherwise. A match with null is dropped:
  the normalised rows and the answer of the handler are those of the search without
  that match, and every normalised row carries the number read from a row of the
  search. The string "0.8" reads 0.8; "n/a", the empty string, "Infinity", NaN and the
  infinities read null.
\<close>

theorem unparseable_similarity_dropped:
  "(toNumber x = Some v
      \<longleftrightarrow> x = Number (Finite v) \<or> (\<exists>s. x = String s \<and> parseFloat s = Finite v))
   \<and> (toNumber (match_similarity r) = None \<longrightarrow>
        normalized (xs @ r # ys) = normalized xs @ normalized ys
        \<and> answerFromRows w q requested (xs @ r # ys) = answerFromRows w q requested (xs @ ys))
   \<and> (nr \<in> set (normalized rows) \<longrightarrow>
        (\<exists>r' \<in> set rows. toNumber (match_similarity r') = Some (norm_similarity nr)
            \<and> norm_id nr = match_id r' \<and> norm_text nr = chunk_text r'))
   \<and> toNumber (String (js ''0.8'')) = Some (8 / 10)
   \<and> toNumber (String (js ''n/a'')) = None
   \<and> toNumber (String []) = None
   \<and> toNumber (String (js ''Infinity'')) = None
   \<and> toNumber (Number NaN) = None
   \<and> toNumber (Number PosInfinity) = None
   \<and> toNumber (Number NegInfinity) = None"
proof (intro conjI impI)
  show "toNumber x = Some v
      \<longleftrightarrow> x = Number (Finite v) \<or> (\<exists>s. x = String s \<and> parseFloat s = Finite v)"
    by (rule toNumber_Some)
next
  assume n: "toNumber (match_similarity r) = None"
  show d: "normalized (xs @ r # ys) = normalized xs @ normalized ys"
    by (rule normalized_drop[OF n])
  show "answerFromRows w q requested (xs @ r # ys) = answerFromRows w q requested (xs @ ys)"
  proof (rule answerFromRows_normalized)
    show "normalized (xs @ r # ys) = normalized (xs @ ys)"
      unfolding d by (simp add: normalized_append)
  qed
next
  assume "nr \<in> set (normalized rows)"
  then show "\<exists>r' \<in> set rows. toNumber (match_similarity r') = Some (norm_similarity nr)
            \<and> norm_id nr = match_id r' \<and> norm_text nr = chunk_text r'"
    by (rule normalized_origin)
next
  show "toNumber (String (js ''0.8'')) = Some (8 / 10)" by (simp add: number_defs js_def)
  show "toNumber (String (js ''n/a'')) = None" by (simp add: number_defs js_def)
  show "toNumber (String []) = None" by (simp add: number_defs)
  show "toNumber (String (js ''Infinity'')) = None" by (simp add: number_defs js_def)
  show "toNumber (Number NaN) = None" by (simp add: number_defs)
  show "toNumber (Number PosInfinity) = None" by (simp add: number_defs)
  show "toNumber (Number NegInfinity) = None" by (simp add: number_defs)
qed

theorem unparseable_similarity_dropped_witness:
  "toNumber (match_similarity brokenRow) = None
   \<and> normalized (weakRows @ brokenRow # [cafeRow])
       = [\<lparr>norm_id = js ''c1'', norm_text = js ''Open daily.'', norm_similarity = 3 / 10\<rparr>,
          \<lparr>norm_id = js ''c2'', norm_text = js ''Closed on Tuesdays.'', norm_similarity = 44 / 100\<rparr>,
          \<lparr>norm_id = js ''c3'', norm_text = js ''The cafe is on level 1.'', norm_similarity = 8 / 10\<rparr>]
   \<and> answerFromRows (sampleWorld (Some akg) []) (js ''Is there a cafe?'') 5
         (weakRows @ brokenRow # [cafeRow])
       = answerFromRows (sampleWorld (Some akg) []) (js ''Is there a cafe?'') 5
         (weakRows @ [cafeRow])"
proof -
  have "normalized (weakRows @ brokenRow # [cafeRow]) = normalized weakRows @ normalized [cafeRow]
        \<and> answerFromRows (sampleWorld (Some akg) []) (js ''Is there a cafe?'') 5
              (weakRows @ brokenRow # [cafeRow])
            = answerFromRows (sampleWorld (Some akg) []) (js ''Is there a cafe?'') 5
              (weakRows @ [cafeRow])"
    using unparseable_similarity_dropped
      [where r = brokenRow and xs = weakRows and ys = "[cafeRow]"
         and w = "sampleWorld (Some akg) []" and q = "js ''Is there a cafe?''"
         and requested = 5]
      normalized_brokenRow
    by blast
  then show ?thesis
    using normalized_brokenRow by (simp add: normalized_weakRows normalized_cafeRow)
qed

section \<open>The word "admission"\<close>

lemma nth_mid: "q = a @ m @ b \<Longrightarrow> j < length m \<Longrightarrow> q ! (length a + j) = m ! j"
  by (simp add: nth_append)

lemma canon_nth:
  assumes "map canonicalize m = map canonicalize p" and "j < length p"
  shows "canonicalize (m ! j) = canonicalize (p ! j)"
proof -
  have l: "length m = length p" using assms(1) by (metis length_map)
  have "map canonicalize m ! j = map canonicalize p ! j" using assms(1) by simp
  then show ?thesis using assms(2) l by simp
qed

lemma canon_at:
  assumes "q = a @ m @ b" and "map canonicalize m = map canonicalize p" and "j < length p"
  shows "canonicalize (q ! (length a + j)) = canonicalize (p ! j)"
proof -
  have "length m = length p" using assms(2) by (metis length_map)
  then show ?thesis using nth_mid[OF assms(1), of j] canon_nth[OF assms(2,3)] assms(3) by simp
qed

lemma below9: "k < 9 \<Longrightarrow> k = 0 \<or> k = 1 \<or> k = 2 \<or> k = 3 \<or> k = 4 \<or> k = 5 \<or> k = 6 \<or> k = 7 \<or> k = (8::nat)"
  by arith

lemma below7: "j < 7 \<Longrightarrow> j = 0 \<or> j = 1 \<or> j = 2 \<or> j = 3 \<or> j = 4 \<or> j = 5 \<or> j = (6::nat)"
  by arith

lemma admission_codes: "js ''admission'' = [97, 100, 109, 105, 115, 115, 105, 111, 110]"
  by (simp add: js_def)

lemma mission_codes: "js ''mission'' = [109, 105, 115, 115, 105, 111, 110]"
  by (simp add: js_def)

lemma purpose_codes: "js ''purpose'' = [112, 117, 114, 112, 111, 115, 101]"
  by (simp add: js_def)

lemma goal_codes: "js ''goal'' = [103, 111, 97, 108]"
  by (simp add: js_def)

lemma admission_letter:
  "k < 9 \<Longrightarrow> canonicalize (js ''admission'' ! k) = canonicalize c \<Longrightarrow> c = 109 \<Longrightarrow> k = 2"
  by (drule below9) (auto simp: admission_codes canonicalize_def)

lemma admission_no_p: "k < 9 \<Longrightarrow> canonicalize (js ''admission'' ! k) \<noteq> canonicalize 112"
  by (drule below9) (auto simp: admission_codes canonicalize_def)

lemma admission_no_g: "k < 9 \<Longrightarrow> canonicalize (js ''admission'' ! k) \<noteq> canonicalize 103"
  by (drule below9) (auto simp: admission_codes canonicalize_def)

lemma mission_no_a:
  "1 \<le> j \<Longrightarrow> j < 7 \<Longrightarrow> canonicalize (js ''mission'' ! j) \<noteq> canonicalize 97"
  by (drule below7) (auto simp: mission_codes canonicalize_def)

lemma purpose_no_a:
  "1 \<le> j \<Longrightarrow> j < 7 \<Longrightarrow> canonicalize (js ''purpose'' ! j) \<noteq> canonicalize 97"
  by (drule below7) (auto simp: purpose_codes canonicalize_def)

lemma canon_d_word: "canonicalize c = canonicalize 100 \<Longrightarrow> isWordChar c"
  by (auto simp: canonicalize_def isWordChar_def split: if_splits)

lemma admission_overlap:
  assumes q: "q = a @ w @ b" and q': "q = a' @ m @ b'"
    and w: "map canonicalize w = map canonicalize (js ''admission'')"
    and m: "map canonicalize m = map canonicalize p"
    and p: "p = js ''mission'' \<or> p = js ''purpose'' \<or> p = js ''goal''"
    and start: "a' = [] \<or> \<not> isWordChar (last a')"
  shows "length a' + length m \<le> length a \<or> length a + length w \<le> length a'"
proof (rule ccontr)
  assume "\<not> (length a' + length m \<le> length a \<or> length a + length w \<le> length a')"
  then have o1: "length a < length a' + length m" and o2: "length a' < length a + length w"
    by simp_all
  have "length (map canonicalize w) = length (map canonicalize (js ''admission''))"
    using w by simp
  then have lw: "length w = 9" by (simp add: admission_codes)
  have lm: "length m = length p" using m by (metis length_map)
  have W: "canonicalize (q ! (length a + k)) = canonicalize (js ''admission'' ! k)" if "k < 9" for k
    using canon_at[OF q w, of k] that by (simp add: admission_codes)
  have M: "canonicalize (q ! (length a' + j)) = canonicalize (p ! j)" if "j < length p" for j
    using canon_at[OF q' m that] .
  show False
  proof (cases "length a' < length a")
    case True
    define j where "j = length a - length a'"
    have j: "1 \<le> j" "j < length p" "length a' + j = length a"
      using True o1 lm by (simp_all add: j_def)
    have A: "canonicalize (p ! j) = canonicalize 97"
      using M[OF j(2)] W[of 0] j(3) by (simp add: admission_codes)
    from p show False
    proof (elim disjE)
      assume "p = js ''mission''"
      then show False using A j mission_no_a[of j] by (simp add: mission_codes)
    next
      assume "p = js ''purpose''"
      then show False using A j purpose_no_a[of j] by (simp add: purpose_codes)
    next
      assume g: "p = js ''goal''"
      then have "j = 1 \<or> j = 2 \<or> j = 3" using j by (auto simp: goal_codes)
      then show False
      proof (elim disjE)
        assume "j = 1"
        then show False using A g by (simp add: goal_codes canonicalize_def)
      next
        assume j2: "j = 2"
        have "canonicalize (q ! (length a' + 3)) = canonicalize (p ! 3)"
          using M[of 3] g by (simp add: goal_codes)
        moreover have "canonicalize (q ! (length a + 1)) = canonicalize (js ''admission'' ! 1)"
          using W[of 1] by simp
        moreover have "length a' + 3 = length a + 1" using j(3) j2 by simp
        ultimately show False using g by (simp add: goal_codes admission_codes canonicalize_def)
      next
        assume "j = 3"
        then show False using A g by (simp add: goal_codes canonicalize_def)
      qed
    qed
  next
    case False
    define k where "k = length a' - length a"
    have k: "k < 9" "length a + k = length a'" using False o2 lw by (simp_all add: k_def)
    have p0: "0 < length p" using p by (auto simp: js_def)
    have B: "canonicalize (js ''admission'' ! k) = canonicalize (p ! 0)"
      using M[OF p0] W[OF k(1)] k(2) by simp
    from p show False
    proof (elim disjE)
      assume "p = js ''mission''"
      then have "k = 2" using B admission_letter[OF k(1), of 109] by (simp add: mission_codes)
      then have la: "length a' = length a + 2" using k(2) by simp
      then have ne: "a' \<noteq> []" by auto
      have "last a' = q ! (length a' - 1)"
        using ne q' by (simp add: last_conv_nth nth_append)
      also have "\<dots> = q ! (length a + 1)" using la by simp
      finally have "canonicalize (last a') = canonicalize (js ''admission'' ! 1)"
        using W[of 1] by simp
      then have "isWordChar (last a')" using canon_d_word by (simp add: admission_codes)
      then show False using start ne by simp
    next
      assume "p = js ''purpose''"
      then show False using B admission_no_p[OF k(1)] by (simp add: purpose_codes)
    next
      assume "p = js ''goal''"
      then show False using B admission_no_g[OF k(1)] by (simp add: goal_codes)
    qed
  qed
qed

lemma occursIn_iff:
  "occursIn p s \<longleftrightarrow> (\<exists>u m v. s = u @ m @ v \<and> map canonicalize m = map canonicalize p)"
proof -
  have "literal p (if u = [] then None else Some (last u), r) \<noteq> None
        \<longleftrightarrow> (\<exists>m v. r = m @ v \<and> map canonicalize m = map canonicalize p)" for u r
  proof
    assume "literal p (if u = [] then None else Some (last u), r) \<noteq> None"
    then obtain cur' where "literal p (if u = [] then None else Some (last u), r) = Some cur'"
      by auto
    then show "\<exists>m v. r = m @ v \<and> map canonicalize m = map canonicalize p"
      unfolding literal_iff by blast
  next
    assume "\<exists>m v. r = m @ v \<and> map canonicalize m = map canonicalize p"
    then obtain m v where mv: "r = m @ v" "map canonicalize m = map canonicalize p" by blast
    have "literal p (if u = [] then None else Some (last u), r)
          = Some (if m = [] then (if u = [] then None else Some (last u)) else Some (last m), v)"
      unfolding literal_iff using mv by blast
    then show "literal p (if u = [] then None else Some (last u), r) \<noteq> None" by simp
  qed
  then show ?thesis unfolding occursIn_def ex_position by blast
qed

lemma lowerUnit_letter:
  assumes "canonicalize c = canonicalize d" and "97 \<le> d" and "d \<le> 122"
  shows "lowerUnit c = [d]"
  using assms by (auto simp: canonicalize_def lowerUnit_def split: if_splits)

lemma toLowerCase_letters:
  assumes "map canonicalize w = map canonicalize x" and "\<forall>d \<in> set x. 97 \<le> d \<and> d \<le> 122"
  shows "toLowerCase w = x"
  using assms
proof (induction w arbitrary: x)
  case Nil
  then show ?case by (simp add: toLowerCase_def)
next
  case (Cons c w)
  then obtain d x' where x: "x = d # x'" by (cases x) auto
  then have "canonicalize c = canonicalize d" "map canonicalize w = map canonicalize x'"
    "97 \<le> d" "d \<le> 122" "\<forall>d \<in> set x'. 97 \<le> d \<and> d \<le> 122"
    using Cons.prems by auto
  then show ?case using Cons.IH[of x'] x lowerUnit_letter[of c d]
    by (simp add: toLowerCase_def)
qed

lemma toLowerCase_append: "toLowerCase (a @ b) = toLowerCase a @ toLowerCase b"
  by (simp add: toLowerCase_def)

lemma toLowerCase_admission:
  assumes "map canonicalize w = map canonicalize (js ''admission'')"
  shows "toLowerCase w = js ''admission''"
  by (rule toLowerCase_letters[OF assms]) (simp add: admission_codes)

lemma missionTrigger_iff:
  "missionTrigger q
   \<longleftrightarrow> (\<exists>p \<in> set [js ''mission'', js ''purpose'', js ''goal''].
          \<exists>a m b. q = a @ m @ b \<and> delimited a m b p)"
proof -
  have lc: "toLowerCase (js ''mission'') = js ''mission''"
    "toLowerCase (js ''purpose'') = js ''purpose''" "toLowerCase (js ''goal'') = js ''goal''"
    by (simp_all add: toLowerCase_def lowerUnit_def js_def)
  have wp: "wordPhrase (js ''mission'')" "wordPhrase (js ''purpose'')" "wordPhrase (js ''goal'')"
    by (simp_all add: wordPhrase_def js_def isWordChar_def)
  show ?thesis
    using hasWholePhrase_iff[of "js ''mission''" q] hasWholePhrase_iff[of "js ''purpose''" q]
      hasWholePhrase_iff[of "js ''goal''" q] wp
    by (simp add: missionTrigger_def hasAnyWholePhrase_def lc)
qed

lemma resolver_ignores_mission:
  assumes "\<not> missionTrigger (toLowerCase question)"
  shows "tryAnswerFromMuseumProfile question (Some (row\<lparr>mission := x\<rparr>))
         = tryAnswerFromMuseumProfile question (Some row)"
  using assms
  by (simp add: tryAnswerFromMuseumProfile_def Let_def withSources_def makeProfileSource_def
      location_def)

lemma occurrence_before:
  assumes "x @ y = a' @ m @ b'" and "length a' + length m \<le> length x"
  shows "\<exists>v. x = a' @ m @ v"
proof -
  have "x = take (length x) (a' @ m @ b')" using assms(1) by (metis append_eq_conv_conj)
  also have "\<dots> = a' @ m @ take (length x - length a' - length m) b'"
    using assms(2) by simp
  finally show ?thesis by blast
qed

lemma occurrence_after:
  assumes "x @ y = a' @ m @ b'" and "length x \<le> length a'"
  shows "\<exists>u. y = u @ m @ b'"
proof -
  have "y = drop (length x) (a' @ m @ b')" using assms(1) by (metis append_eq_conv_conj)
  also have "\<dots> = drop (length x) a' @ m @ b'" using assms(2) by simp
  finally show ?thesis by blast
qed

lemma mission_beside_admission:
  assumes w: "map canonicalize w = map canonicalize (js ''admission'')"
    and t: "missionTrigger (a @ w @ b)"
  shows "\<exists>p \<in> set [js ''mission'', js ''purpose'', js ''goal'']. \<exists>a' m b'.
          a @ w @ b = a' @ m @ b' \<and> delimited a' m b' p
          \<and> (length a' + length m \<le> length a \<or> length a + length w \<le> length a')"
proof -
  from t obtain p a' m b' where p: "p \<in> set [js ''mission'', js ''purpose'', js ''goal'']"
    and q': "a @ w @ b = a' @ m @ b'" and d: "delimited a' m b' p"
    unfolding missionTrigger_iff by blast
  have "length a' + length m \<le> length a \<or> length a + length w \<le> length a'"
  proof (rule admission_overlap[OF refl q' w])
    show "map canonicalize m = map canonicalize p" using d by (simp add: delimited_def)
    show "p = js ''mission'' \<or> p = js ''purpose'' \<or> p = js ''goal''" using p by auto
    show "a' = [] \<or> \<not> isWordChar (last a')" using d by (simp add: delimited_def)
  qed
  then show ?thesis using p q' d by blast
qed

lemma no_mission_in_admission:
  assumes w: "map canonicalize w = map canonicalize (js ''admission'')"
    and rest: "\<forall>p \<in> set [js ''mission'', js ''purpose'', js ''goal''].
                 \<not> occursIn p (toLowerCase a) \<and> \<not> occursIn p (toLowerCase b)"
  shows "\<not> missionTrigger (toLowerCase (a @ w @ b))"
proof
  let ?a = "toLowerCase a" and ?b = "toLowerCase b" and ?w = "js ''admission''"
  have lw: "map canonicalize ?w = map canonicalize (js ''admission'')" by simp
  have eq: "toLowerCase (a @ w @ b) = ?a @ ?w @ ?b"
    by (simp add: toLowerCase_append toLowerCase_admission[OF w])
  assume "missionTrigger (toLowerCase (a @ w @ b))"
  then have "missionTrigger (?a @ ?w @ ?b)" by (simp add: eq)
  from mission_beside_admission[OF lw this]
  obtain p a' m b' where p: "p \<in> set [js ''mission'', js ''purpose'', js ''goal'']"
    and q': "?a @ ?w @ ?b = a' @ m @ b'" and d: "delimited a' m b' p"
    and side: "length a' + length m \<le> length ?a \<or> length ?a + length ?w \<le> length a'"
    by blast
  have m: "map canonicalize m = map canonicalize p" using d by (simp add: delimited_def)
  from side show False
  proof
    assume "length a' + length m \<le> length ?a"
    from occurrence_before[OF q' this] obtain v where "?a = a' @ m @ v" by blast
    then have "occursIn p ?a" unfolding occursIn_iff using m by blast
    then show False using rest p by blast
  next
    assume "length ?a + length ?w \<le> length a'"
    then have le: "length (?a @ ?w) \<le> length a'" by simp
    have "(?a @ ?w) @ ?b = a' @ m @ b'" using q' by simp
    from occurrence_after[OF this le] obtain u where "?b = u @ m @ b'" by blast
    then have "occursIn p ?b" unfolding occursIn_iff using m by blast
    then show False using rest p by blast
  qed
qed

text \<open>
  Claim C7. In a question that contains the word "admission", in any case of letters,
  the "mission" inside it does not trigger the mission category: when the trigger of
  the category matches, it matches a delimited "mission", "purpose" or "goal" that
  lies wholly before or wholly after the word. So when the rest of the question holds
  none of the three phrases, the trigger does not match, the first category is not the
  mission, and the answer of the resolver does not depend on the mission of the museum.
\<close>

theorem admission_does_not_trigger_mission:
  "(map canonicalize w = map canonicalize (js ''admission'') \<longrightarrow> missionTrigger (a @ w @ b)
      \<longrightarrow> (\<exists>p \<in> set [js ''mission'', js ''purpose'', js ''goal'']. \<exists>a' m b'.
             a @ w @ b = a' @ m @ b' \<and> delimited a' m b' p
             \<and> (length a' + length m \<le> length a \<or> length a + length w \<le> length a')))
   \<and> (map canonicalize w = map canonicalize (js ''admission'')
        \<longrightarrow> (\<forall>p \<in> set [js ''mission'', js ''purpose'', js ''goal''].
               \<not> occursIn p (toLowerCase a) \<and> \<not> occursIn p (toLowerCase b))
        \<longrightarrow> \<not> missionTrigger (toLowerCase (a @ w @ b))
            \<and> firstCategory (toLowerCase (a @ w @ b)) \<noteq> Some Mission
            \<and> tryAnswerFromMuseumProfile (a @ w @ b) (Some (row\<lparr>mission := x\<rparr>))
                = tryAnswerFromMuseumProfile (a @ w @ b) (Some row))
   \<and> (occursIn p s
        \<longleftrightarrow> (\<exists>u m v. s = u @ m @ v \<and> map canonicalize m = map canonicalize p))"
proof (intro conjI impI)
  assume "map canonicalize w = map canonicalize (js ''admission'')"
    and "missionTrigger (a @ w @ b)"
  then show "\<exists>p \<in> set [js ''mission'', js ''purpose'', js ''goal'']. \<exists>a' m b'.
             a @ w @ b = a' @ m @ b' \<and> delimited a' m b' p
             \<and> (length a' + length m \<le> length a \<or> length a + length w \<le> length a')"
    by (rule mission_beside_admission)
next
  assume w: "map canonicalize w = map canonicalize (js ''admission'')"
    and rest: "\<forall>p \<in> set [js ''mission'', js ''purpose'', js ''goal''].
               \<not> occursIn p (toLowerCase a) \<and> \<not> occursIn p (toLowerCase b)"
  show n: "\<not> missionTrigger (toLowerCase (a @ w @ b))"
    by (rule no_mission_in_admission[OF w rest])
  show "firstCategory (toLowerCase (a @ w @ b)) \<noteq> Some Mission"
    using n firstCategory_cases[of "toLowerCase (a @ w @ b)" Mission] by auto
  show "tryAnswerFromMuseumProfile (a @ w @ b) (Some (row\<lparr>mission := x\<rparr>))
                = tryAnswerFromMuseumProfile (a @ w @ b) (Some row)"
    by (rule resolver_ignores_mission[OF n])
next
  show "occursIn p s
        \<longleftrightarrow> (\<exists>u m v. s = u @ m @ v \<and> map canonicalize m = map canonicalize p)"
    by (rule occursIn_iff)
qed

lemma admission_question_rest:
  "\<forall>p \<in> set [js ''mission'', js ''purpose'', js ''goal''].
     \<not> occursIn p (toLowerCase (js ''What are the '')) \<and> \<not> occursIn p (toLowerCase (js '' prices?''))"
  by (simp add: occursIn_def positions_def toLowerCase_def lowerUnit_def js_def canonicalize_def)

theorem admission_does_not_trigger_mission_witness:
  "map canonicalize (js ''admission'') = map canonicalize (js ''admission'')
   \<and> \<not> occursIn (js ''mission'') (toLowerCase (js ''What are the ''))
   \<and> \<not> occursIn (js ''mission'') (toLowerCase (js '' prices?''))
   \<and> \<not> missionTrigger (toLowerCase (js ''What are the '' @ js ''admission'' @ js '' prices?''))
   \<and> tryAnswerFromMuseumProfile (js ''What are the '' @ js ''admission'' @ js '' prices?'')
        (Some (akg\<lparr>mission := Some (js ''Art for all.'')\<rparr>))
       = tryAnswerFromMuseumProfile (js ''What are the '' @ js ''admission'' @ js '' prices?'')
        (Some akg)"
proof -
  have w: "map canonicalize (js ''admission'') = map canonicalize (js ''admission'')" by simp
  have "\<not> missionTrigger (toLowerCase (js ''What are the '' @ js ''admission'' @ js '' prices?''))
   \<and> tryAnswerFromMuseumProfile (js ''What are the '' @ js ''admission'' @ js '' prices?'')
        (Some (akg\<lparr>mission := Some (js ''Art for all.'')\<rparr>))
       = tryAnswerFromMuseumProfile (js ''What are the '' @ js ''admission'' @ js '' prices?'')
        (Some akg)"
    using admission_does_not_trigger_mission
      [where w = "js ''admission''" and a = "js ''What are the ''" and b = "js '' prices?''"
         and row = akg and x = "Some (js ''Art for all.'')"]
      w admission_question_rest
    by blast
  then show ?thesis using admission_question_rest by simp
qed

section \<open>Whole phrases, substrings and spans\<close>

lemma dotStar_iff:
  "cur' \<in> set (dotStar (prev, s))
   \<longleftrightarrow> (\<exists>c r. s = c @ r \<and> (\<forall>x \<in> set c. \<not> isLineTerminator x)
              \<and> cur' = (if c = [] then prev else Some (last c), r))"
proof (induction s arbitrary: prev)
  case Nil
  then show ?case by auto
next
  case (Cons d s)
  note IH = Cons.IH
  show ?case
  proof
    assume "cur' \<in> set (dotStar (prev, d # s))"
    then consider "cur' = (prev, d # s)"
      | "\<not> isLineTerminator d" "cur' \<in> set (dotStar (Some d, s))"
      by (auto split: if_splits)
    then show "\<exists>c r. d # s = c @ r \<and> (\<forall>x \<in> set c. \<not> isLineTerminator x)
              \<and> cur' = (if c = [] then prev else Some (last c), r)"
    proof cases
      case 1
      then have "d # s = [] @ (d # s) \<and> (\<forall>x \<in> set []. \<not> isLineTerminator x)
              \<and> cur' = (if [] = ([]::jsstring) then prev else Some (last []), d # s)"
        by simp
      then show ?thesis by blast
    next
      case 2
      then obtain c r where cr: "s = c @ r" "\<forall>x \<in> set c. \<not> isLineTerminator x"
        "cur' = (if c = [] then Some d else Some (last c), r)"
        using IH by blast
      then have "d # s = (d # c) @ r \<and> (\<forall>x \<in> set (d # c). \<not> isLineTerminator x)
              \<and> cur' = (if d # c = [] then prev else Some (last (d # c)), r)"
        using 2(1) by simp
      then show ?thesis by blast
    qed
  next
    assume "\<exists>c r. d # s = c @ r \<and> (\<forall>x \<in> set c. \<not> isLineTerminator x)
              \<and> cur' = (if c = [] then prev else Some (last c), r)"
    then obtain c r where cr: "d # s = c @ r" "\<forall>x \<in> set c. \<not> isLineTerminator x"
      "cur' = (if c = [] then prev else Some (last c), r)"
      by blast
    show "cur' \<in> set (dotStar (prev, d # s))"
    proof (cases c)
      case Nil
      then have "cur' = (prev, d # s)" using cr by simp
      then show ?thesis by simp
    next
      case (Cons d' c')
      then have nl: "\<not> isLineTerminator d" using cr by auto
      have "s = c' @ r \<and> (\<forall>x \<in> set c'. \<not> isLineTerminator x)
            \<and> cur' = (if c' = [] then Some d else Some (last c'), r)"
        using Cons cr by auto
      then have "cur' \<in> set (dotStar (Some d, s))" using IH by blast
      then show ?thesis using nl by simp
    qed
  qed
qed

lemma literal_Some_iff:
  "literal p (prev, s) \<noteq> None \<longleftrightarrow> (\<exists>m r. s = m @ r \<and> map canonicalize m = map canonicalize p)"
proof
  assume "literal p (prev, s) \<noteq> None"
  then obtain cur' where "literal p (prev, s) = Some cur'" by auto
  then show "\<exists>m r. s = m @ r \<and> map canonicalize m = map canonicalize p"
    unfolding literal_iff by blast
next
  assume "\<exists>m r. s = m @ r \<and> map canonicalize m = map canonicalize p"
  then obtain m r where mr: "s = m @ r" "map canonicalize m = map canonicalize p" by blast
  have "literal p (prev, s) = Some (if m = [] then prev else Some (last m), r)"
    unfolding literal_iff using mr by blast
  then show "literal p (prev, s) \<noteq> None" by simp
qed

lemma dotStarTest_iff: "dotStarTest pre alts q \<longleftrightarrow> spanIn q pre alts"
proof
  assume "dotStarTest pre alts q"
  then obtain u r where ur: "q = u @ r"
    and t: "case literal pre (if u = [] then None else Some (last u), r) of
              None \<Rightarrow> False
            | Some mid \<Rightarrow> \<exists>cur' \<in> set (dotStar mid). \<exists>a \<in> set alts. literal a cur' \<noteq> None"
    unfolding dotStarTest_def ex_position by blast
  from t obtain mid where l: "literal pre (if u = [] then None else Some (last u), r) = Some mid"
    and ex: "\<exists>cur' \<in> set (dotStar mid). \<exists>a \<in> set alts. literal a cur' \<noteq> None"
    by (auto split: option.splits)
  from l obtain m r1 where m: "r = m @ r1" "map canonicalize m = map canonicalize pre"
    and mid: "mid = (if m = [] then (if u = [] then None else Some (last u)) else Some (last m), r1)"
    unfolding literal_iff by blast
  from ex obtain cur' alt where c: "cur' \<in> set (dotStar mid)" and alt: "alt \<in> set alts"
    and la: "literal alt cur' \<noteq> None" by blast
  from c obtain c0 r2 where c0: "r1 = c0 @ r2" "\<forall>x \<in> set c0. \<not> isLineTerminator x"
    and cur': "cur' = (if c0 = [] then fst mid else Some (last c0), r2)"
    unfolding mid dotStar_iff by auto
  from la obtain n v where n: "r2 = n @ v" "map canonicalize n = map canonicalize alt"
    unfolding cur' literal_Some_iff by blast
  have "q = u @ m @ c0 @ n @ v" using ur m(1) c0(1) n(1) by simp
  then show "spanIn q pre alts" unfolding spanIn_def using m(2) c0(2) n(2) alt by blast
next
  assume "spanIn q pre alts"
  then obtain u m c n v alt where q: "q = u @ m @ c @ n @ v"
    and m: "map canonicalize m = map canonicalize pre"
    and c: "\<forall>x \<in> set c. \<not> isLineTerminator x"
    and alt: "alt \<in> set alts" and n: "map canonicalize n = map canonicalize alt"
    unfolding spanIn_def by blast
  let ?start = "(if u = [] then None else Some (last u), m @ c @ n @ v)"
  let ?mid = "(if m = [] then (if u = [] then None else Some (last u)) else Some (last m),
              c @ n @ v)"
  let ?cur = "(if c = [] then fst ?mid else Some (last c), n @ v)"
  have l: "literal pre ?start = Some ?mid" unfolding literal_iff using m by blast
  have d: "?cur \<in> set (dotStar ?mid)" unfolding dotStar_iff using c by auto
  have a: "literal alt ?cur \<noteq> None" unfolding literal_Some_iff using n by blast
  have "case literal pre ?start of
              None \<Rightarrow> False
            | Some mid \<Rightarrow> \<exists>cur' \<in> set (dotStar mid). \<exists>a \<in> set alts. literal a cur' \<noteq> None"
    unfolding l using d a alt by (simp only: option.case) blast
  then show "dotStarTest pre alts q"
    unfolding dotStarTest_def ex_position using q by blast
qed

lemma hasWholePhrase_wholeIn:
  assumes "wordPhrase (toLowerCase phrase)"
  shows "hasWholePhrase q phrase \<longleftrightarrow> wholeIn q (toLowerCase phrase)"
  unfolding wholeIn_def by (rule hasWholePhrase_iff[OF assms])

lemma hasAnyWholePhrase_wholeIn:
  assumes "\<forall>p \<in> set ps. toLowerCase p = p \<and> wordPhrase p"
  shows "hasAnyWholePhrase q ps \<longleftrightarrow> (\<exists>p \<in> set ps. wholeIn q p)"
  unfolding hasAnyWholePhrase_def
proof (rule bex_cong[OF refl])
  fix p assume "p \<in> set ps"
  then have "toLowerCase p = p" "wordPhrase (toLowerCase p)" using assms by auto
  then show "hasWholePhrase q p = wholeIn q p" using hasWholePhrase_wholeIn[of p q] by simp
qed

lemma includes_str_rawIn: "includes_str q x \<longleftrightarrow> rawIn q x"
  unfolding rawIn_def by (rule includes_str_iff)

lemmas phrase_eval = toLowerCase_def lowerUnit_def wordPhrase_def isWordChar_def js_def

lemma directorTrigger_iff:
  "directorTrigger q
   \<longleftrightarrow> (\<exists>p \<in> set [js ''director'', js ''ceo'', js ''leadership'']. wholeIn q p)
       \<or> (\<exists>x \<in> set [js ''executive director'', js ''museum director'']. rawIn q x)"
proof -
  have "\<forall>p \<in> set [js ''director'', js ''ceo'', js ''leadership'']. toLowerCase p = p \<and> wordPhrase p"
    by (simp add: phrase_eval)
  from hasAnyWholePhrase_wholeIn[OF this, of q] show ?thesis
    by (auto simp: directorTrigger_def includes_str_rawIn)
qed

lemma missionTrigger_wholeIn:
  "missionTrigger q \<longleftrightarrow> (\<exists>p \<in> set [js ''mission'', js ''purpose'', js ''goal'']. wholeIn q p)"
  unfolding missionTrigger_iff wholeIn_def ..

lemma foundedTrigger_iff:
  "foundedTrigger q
   \<longleftrightarrow> (\<exists>p \<in> set [js ''founded'', js ''established'', js ''built'']. wholeIn q p)
       \<or> spanIn q (js ''when was'') [js ''founded'', js ''established'']
       \<or> spanIn q (js ''when did'') [js ''open'']"
proof -
  have "\<forall>p \<in> set [js ''founded'', js ''established'']. toLowerCase p = p \<and> wordPhrase p"
    by (simp add: phrase_eval)
  note a = hasAnyWholePhrase_wholeIn[OF this, of q]
  have "wordPhrase (toLowerCase (js ''built''))" "toLowerCase (js ''built'') = js ''built''"
    by (simp_all add: phrase_eval)
  then have b: "hasWholePhrase q (js ''built'') \<longleftrightarrow> wholeIn q (js ''built'')"
    using hasWholePhrase_wholeIn[of "js ''built''" q] by simp
  show ?thesis
    unfolding foundedTrigger_def a b dotStarTest_iff by auto
qed

lemma formerNameTrigger_iff:
  "formerNameTrigger q
   \<longleftrightarrow> (\<exists>x \<in> set [js ''formerly'', js ''former name'', js ''used to be called'',
                     js ''old name'', js ''renamed'', js ''name change'']. rawIn q x)"
  by (simp add: formerNameTrigger_def includes_str_rawIn)

lemma addressTrigger_iff:
  "addressTrigger q
   \<longleftrightarrow> (\<exists>p \<in> set [js ''address'', js ''location'']. wholeIn q p)
       \<or> spanIn q (js ''where'') [js ''located'']
       \<or> (\<exists>x \<in> set [js ''where is it'', js ''how do i get there'']. rawIn q x)"
proof -
  have "\<forall>p \<in> set [js ''address'', js ''location'']. toLowerCase p = p \<and> wordPhrase p"
    by (simp add: phrase_eval)
  note a = hasAnyWholePhrase_wholeIn[OF this, of q]
  show ?thesis
    unfolding addressTrigger_def a dotStarTest_iff includes_str_rawIn by auto
qed

lemma websiteTrigger_iff:
  "websiteTrigger q
   \<longleftrightarrow> (\<exists>p \<in> set [js ''website'', js ''official site'', js ''url'']. wholeIn q p)"
proof -
  have "\<forall>p \<in> set [js ''website'', js ''official site'', js ''url'']. toLowerCase p = p \<and> wordPhrase p"
    by (simp add: phrase_eval)
  from hasAnyWholePhrase_wholeIn[OF this, of q] show ?thesis
    by (simp add: websiteTrigger_def)
qed

lemma phoneTrigger_iff:
  "phoneTrigger q
   \<longleftrightarrow> (\<exists>p \<in> set [js ''phone'', js ''telephone'', js ''contact number'', js ''call''].
          wholeIn q p)"
proof -
  have "\<forall>p \<in> set [js ''phone'', js ''telephone'', js ''contact number''].
          toLowerCase p = p \<and> wordPhrase p"
    by (simp add: phrase_eval)
  note a = hasAnyWholePhrase_wholeIn[OF this, of q]
  have "wordPhrase (toLowerCase (js ''call''))" "toLowerCase (js ''call'') = js ''call''"
    by (simp_all add: phrase_eval)
  then have b: "hasWholePhrase q (js ''call'') \<longleftrightarrow> wholeIn q (js ''call'')"
    using hasWholePhrase_wholeIn[of "js ''call''" q] by simp
  show ?thesis unfolding phoneTrigger_def a b by auto
qed

lemma nameTrigger_iff:
  "nameTrigger q
   \<longleftrightarrow> (\<exists>p \<in> set [js ''name of the museum'', js ''full name'']. wholeIn q p)
       \<or> spanIn q (js ''what'') [js ''name'']"
proof -
  have "\<forall>p \<in> set [js ''name of the museum'', js ''full name'']. toLowerCase p = p \<and> wordPhrase p"
    by (simp add: phrase_eval)
  note a = hasAnyWholePhrase_wholeIn[OF this, of q]
  show ?thesis unfolding nameTrigger_def a dotStarTest_iff by auto
qed

text \<open>
  How each trigger is looked for in the lower-case question. The triggers that go
  through \<open>hasWholePhrase\<close> match as whole phrases: up to the case of letters, with no
  word character directly before or after. The phrases tested with \<open>includes\<close> match
  wherever their text stands, and so do the two parts of each span.
\<close>

lemma trigger_characterisation:
  "(wordPhrase (toLowerCase phrase)
      \<longrightarrow> (hasWholePhrase q phrase \<longleftrightarrow> wholeIn q (toLowerCase phrase)))
   \<and> (directorTrigger q
        \<longleftrightarrow> (\<exists>p \<in> set [js ''director'', js ''ceo'', js ''leadership'']. wholeIn q p)
            \<or> (\<exists>x \<in> set [js ''executive director'', js ''museum director'']. rawIn q x))
   \<and> (missionTrigger q
        \<longleftrightarrow> (\<exists>p \<in> set [js ''mission'', js ''purpose'', js ''goal'']. wholeIn q p))
   \<and> (foundedTrigger q
        \<longleftrightarrow> (\<exists>p \<in> set [js ''founded'', js ''established'', js ''built'']. wholeIn q p)
            \<or> spanIn q (js ''when was'') [js ''founded'', js ''established'']
            \<or> spanIn q (js ''when did'') [js ''open''])
   \<and> (formerNameTrigger q
        \<longleftrightarrow> (\<exists>x \<in> set [js ''formerly'', js ''former name'', js ''used to be called'',
                          js ''old name'', js ''renamed'', js ''name change'']. rawIn q x))
   \<and> (addressTrigger q
        \<longleftrightarrow> (\<exists>p \<in> set [js ''address'', js ''location'']. wholeIn q p)
            \<or> spanIn q (js ''where'') [js ''located'']
            \<or> (\<exists>x \<in> set [js ''where is it'', js ''how do i get there'']. rawIn q x))
   \<and> (websiteTrigger q
        \<longleftrightarrow> (\<exists>p \<in> set [js ''website'', js ''official site'', js ''url'']. wholeIn q p))
   \<and> (phoneTrigger q
        \<longleftrightarrow> (\<exists>p \<in> set [js ''phone'', js ''telephone'', js ''contact number'', js ''call''].
               wholeIn q p))
   \<and> (nameTrigger q
        \<longleftrightarrow> (\<exists>p \<in> set [js ''name of the museum'', js ''full name'']. wholeIn q p)
            \<or> spanIn q (js ''what'') [js ''name''])"
proof (intro conjI impI)
  assume "wordPhrase (toLowerCase phrase)"
  then show "hasWholePhrase q phrase \<longleftrightarrow> wholeIn q (toLowerCase phrase)"
    by (rule hasWholePhrase_wholeIn)
qed (rule directorTrigger_iff missionTrigger_wholeIn foundedTrigger_iff formerNameTrigger_iff
      addressTrigger_iff websiteTrigger_iff phoneTrigger_iff nameTrigger_iff)+

lemma signQuestion_lower:
  "toLowerCase signQuestion = js ''who chose the b'' @ js ''old name'' @ js '' on the sign?''"
  by (simp add: signQuestion_def toLowerCase_def lowerUnit_def js_def)

text \<open>
  Claim C6. A trigger is to match as a whole phrase only, and a category is not to
  fire on a question in which its trigger occurs only inside a longer word. The
  resolver does not keep to this for the triggers that it tests with \<open>includes\<close>: in
  the question "Who chose the bold name on the sign?" none of the triggers of the
  former name occurs as a whole phrase, "old name" occurs only inside "bold name", no
  earlier category fires, and yet the category of the former name fires and the
  resolver answers with the former name of the museum.
\<close>

theorem substring_trigger_fires_inside_word:
  "toLowerCase signQuestion = js ''who chose the b'' @ js ''old name'' @ js '' on the sign?''
   \<and> \<not> hasAnyWholePhrase (toLowerCase signQuestion)
         [js ''formerly'', js ''former name'', js ''used to be called'', js ''old name'',
          js ''renamed'', js ''name change'']
   \<and> includes_str (toLowerCase signQuestion) (js ''old name'')
   \<and> formerNameTrigger (toLowerCase signQuestion)
   \<and> firstCategory (toLowerCase signQuestion) = Some FormerName
   \<and> tryAnswerFromMuseumProfile signQuestion (Some renamedMuseum)
       = Some \<lparr>answer = js ''It was formerly known as Albright-Knox Art Gallery.'',
                sources = [\<lparr>source_id = js ''museum_profile:f817a6f8-8f99-4618-86a2-603d0b323eff'',
                            source_url = None, similarity = 1\<rparr>]\<rparr>"
proof -
  have i: "includes_str (toLowerCase signQuestion) (js ''old name'')"
    unfolding includes_str_iff signQuestion_lower by blast
  have n: "\<not> hasAnyWholePhrase (toLowerCase signQuestion)
         [js ''formerly'', js ''former name'', js ''used to be called'', js ''old name'',
          js ''renamed'', js ''name change'']"
    by (simp add: signQuestion_def matcher_defs)
  have f: "formerNameTrigger (toLowerCase signQuestion)"
    using i by (simp add: formerNameTrigger_def)
  have c: "firstCategory (toLowerCase signQuestion) = Some FormerName"
    using f by (simp add: firstCategory_def categories_def signQuestion_def
        directorTrigger_def missionTrigger_def foundedTrigger_def matcher_defs)
  have v: "fact FormerName renamedMuseum = Some (js ''Albright-Knox Art Gallery'')"
    by (simp add: renamedMuseum_def nonEmpty_def js_def)
  have "tryAnswerFromMuseumProfile signQuestion (Some renamedMuseum)
       = Some \<lparr>answer = template FormerName (js ''Albright-Knox Art Gallery''),
                sources = [makeProfileSource renamedMuseum]\<rparr>"
    by (rule resolver_populated[OF c v])
  then show ?thesis using i n f c signQuestion_lower
    by (simp add: makeProfileSource_def renamedMuseum_def akg_def akgId_def js_def)
qed

section \<open>Tenant isolation\<close>

lemma strong_subset: "set (strong ns requested) \<subseteq> set ns"
proof
  fix r assume "r \<in> set (strong ns requested)"
  then have "r \<in> set (filter (\<lambda>r. MIN_SIMILARITY \<le> norm_similarity r) ns)"
    unfolding strong_def by (rule in_set_takeD)
  then show "r \<in> set ns" by simp
qed

lemma answerFromRows_sources:
  assumes "body (fst (answerFromRows w q requested rows)) = AnswerJson ans"
    and "src \<in> set (sources ans)"
  shows "\<exists>r \<in> set rows. source_id src = match_id r"
proof (cases "strong (normalized rows) requested = []")
  case True
  then have "sources ans = []"
    using assms(1) by (auto simp: answerFromRows_def json_def refusal_def split: if_splits)
  then show ?thesis using assms(2) by simp
next
  case False
  show ?thesis
  proof (cases "chat w (promptOf (contextOf (strong (normalized rows) requested)) q)")
    case (Inl msg)
    then show ?thesis using assms(1) False
      by (simp add: answerFromRows_def json_def internalError_def Let_def)
  next
    case (Inr reply)
    then have "map source_id (sources ans) = map norm_id (strong (normalized rows) requested)"
      using assms(1) False by (auto simp: answerFromRows_def json_def Let_def comp_def)
    then have "source_id ` set (sources ans) = norm_id ` set (strong (normalized rows) requested)"
      by (metis set_map)
    then obtain nr where nr: "nr \<in> set (strong (normalized rows) requested)"
      "source_id src = norm_id nr"
      using assms(2) by (metis (no_types, lifting) image_iff)
    then have "nr \<in> set (normalized rows)" using strong_subset by blast
    from normalized_origin[OF this] nr(2) show ?thesis by auto
  qed
qed

lemma handler_sources:
  assumes "searchReturns cfg w req b q rows"
    and "body (fst (handler cfg w req)) = AnswerJson ans" and "src \<in> set (sources ans)"
  shows "\<exists>r \<in> set rows. source_id src = match_id r"
  using assms(2,3) unfolding handler_search[OF assms(1)]
  by (simp add: answerFromRows_sources)

lemma cafe_answer:
  "handler sampleConfig (sampleWorld (Some akg) (weakRows @ [cafeRow]))
     (post (ask (js ''Is there a cafe?'')))
   = (\<lparr>status = 200,
        body = AnswerJson
          \<lparr>answer = js ''Yes.'',
           sources = [\<lparr>source_id = js ''c3'', source_url = None, similarity = 8 / 10\<rparr>]\<rparr>\<rparr>,
      [TenantLookup, Embedder, VectorSearch, SourceLookup, LanguageModel])"
proof -
  have ne: "js ''Is there a cafe?'' \<noteq> []" by (simp add: js_def)
  note sr = search_sample[OF trim_cafe ne cafe_question, of "Some akg" "weakRows @ [cafeRow]"]
  have st: "strong (normalized (weakRows @ [cafeRow]))
              (requestedMatchCount (ask (js ''Is there a cafe?'')))
            = [\<lparr>norm_id = js ''c3'', norm_text = js ''The cafe is on level 1.'',
                norm_similarity = 8 / 10\<rparr>]"
    by (simp add: normalized_append normalized_weakRows normalized_cafeRow strong_def
        MIN_SIMILARITY_def requestedMatchCount_def ask_def)
  show ?thesis
    unfolding handler_search[OF sr]
    by (simp add: answerFromRows_def st json_def sampleWorld_def sourceUrlOf_def)
qed

text \<open>
  Claim C1. Whatever the distances are, every row that \<open>match_chunks\<close> returns is a row of
  the museum it is asked for: the search with a count that is not negative succeeds,
  each returned row carries the columns of a chunk of that museum, and with ids that
  are a key of the table no returned id is the id of a chunk of another museum. The
  handler calls its vector search with the museum id of the request, and every source
  of its answer is a row which that call returned.
\<close>

theorem match_chunks_tenant_only:
  "(0 \<le> n \<longrightarrow> (\<exists>rows. match_chunks distance content_chunks p v n = Inr rows))
   \<and> (\<forall>rows. match_chunks distance content_chunks p v n = Inr rows \<longrightarrow>
        (\<forall>r \<in> set rows. \<exists>c \<in> set content_chunks.
            c_museum_id c = p \<and> m_id r = c_id c \<and> m_chunk_text r = c_chunk_text c
            \<and> m_source_url r = c_source_url c \<and> m_metadata r = c_metadata c)
        \<and> (distinct (map c_id content_chunks) \<longrightarrow>
             (\<forall>c \<in> set content_chunks. c_museum_id c \<noteq> p \<longrightarrow> c_id c \<notin> m_id ` set rows)))
   \<and> (validRequest cfg w req b museumId q
        \<longrightarrow> tryAnswerFromMuseumProfile q (museum_row w museumId) = None
        \<longrightarrow> embedding w q = Inr e
        \<longrightarrow> match_content_chunks w e (rpcMatchCount b) museumId = Inr found
        \<longrightarrow> body (fst (handler cfg w req)) = AnswerJson ans
        \<longrightarrow> (\<forall>src \<in> set (sources ans). \<exists>r \<in> set found. source_id src = match_id r))"
proof (intro conjI allI impI ballI)
  assume "0 \<le> n"
  then show "\<exists>rows. match_chunks distance content_chunks p v n = Inr rows"
    by (simp add: match_chunks_def)
next
  fix rows r
  assume "match_chunks distance content_chunks p v n = Inr rows" and "r \<in> set rows"
  then show "\<exists>c \<in> set content_chunks.
            c_museum_id c = p \<and> m_id r = c_id c \<and> m_chunk_text r = c_chunk_text c
            \<and> m_source_url r = c_source_url c \<and> m_metadata r = c_metadata c"
    by (rule match_chunks_own)
next
  fix rows c
  assume m: "match_chunks distance content_chunks p v n = Inr rows"
    and d: "distinct (map c_id content_chunks)" and c: "c \<in> set content_chunks"
    and other: "c_museum_id c \<noteq> p"
  show "c_id c \<notin> m_id ` set rows"
  proof
    assume "c_id c \<in> m_id ` set rows"
    then obtain r where r: "r \<in> set rows" and eq: "m_id r = c_id c" by auto
    from match_chunks_own[OF m r] obtain c' where c': "c' \<in> set content_chunks"
      "c_museum_id c' = p" "m_id r = c_id c'" by blast
    have "inj_on c_id (set content_chunks)" using d by (simp add: distinct_map)
    then have "c' = c" using c c'(1) c'(3) eq by (simp add: inj_on_def)
    then show False using other c'(2) by simp
  qed
next
  fix src
  assume "validRequest cfg w req b museumId q"
    and "tryAnswerFromMuseumProfile q (museum_row w museumId) = None"
    and "embedding w q = Inr e"
    and "match_content_chunks w e (rpcMatchCount b) museumId = Inr found"
  then have sr: "searchReturns cfg w req b q found" unfolding searchReturns_def by blast
  assume "body (fst (handler cfg w req)) = AnswerJson ans" and "src \<in> set (sources ans)"
  then show "\<exists>r \<in> set found. source_id src = match_id r"
    by (rule handler_sources[OF sr])
qed

theorem match_chunks_tenant_only_witness:
  "(0::int) \<le> 5
   \<and> match_chunks (\<lambda>a b. \<bar>a - b\<bar>) sampleChunks akgId 1 5
       = Inr [\<lparr>m_id = js ''c1'', m_chunk_text = js ''Open daily'', m_source_url = None,
               m_metadata = (), m_similarity = - 1\<rparr>]
   \<and> distinct (map c_id sampleChunks)
   \<and> sampleChunks ! 1 \<in> set sampleChunks
   \<and> c_museum_id (sampleChunks ! 1) \<noteq> akgId
   \<and> c_id (sampleChunks ! 1)
       \<notin> m_id ` set [\<lparr>m_id = js ''c1'', m_chunk_text = js ''Open daily'',
               m_source_url = None, m_metadata = (), m_similarity = - 1\<rparr>]
   \<and> validRequest sampleConfig (sampleWorld (Some akg) (weakRows @ [cafeRow]))
        (post (ask (js ''Is there a cafe?''))) (ask (js ''Is there a cafe?'')) (JString akgId)
        (js ''Is there a cafe?'')
   \<and> body (fst (handler sampleConfig (sampleWorld (Some akg) (weakRows @ [cafeRow]))
                  (post (ask (js ''Is there a cafe?'')))))
       = AnswerJson
           \<lparr>answer = js ''Yes.'',
            sources = [\<lparr>source_id = js ''c3'', source_url = None, similarity = 8 / 10\<rparr>]\<rparr>
   \<and> js ''c3'' \<in> match_id ` set (weakRows @ [cafeRow])"
proof -
  note main = match_chunks_tenant_only
  have ev: "match_chunks (\<lambda>a b. \<bar>a - b\<bar>) sampleChunks akgId 1 5
       = Inr [\<lparr>m_id = js ''c1'', m_chunk_text = js ''Open daily'', m_source_url = None,
               m_metadata = (), m_similarity = - 1\<rparr>]"
    by (simp add: match_chunks_def nearest_def candidates_def List.map_filter_simps
        sampleChunks_def akgId_def js_def)
  have d: "distinct (map c_id sampleChunks)"
    by (simp add: sampleChunks_def js_def)
  have c: "sampleChunks ! 1 \<in> set sampleChunks" "c_museum_id (sampleChunks ! 1) \<noteq> akgId"
    by (simp_all add: sampleChunks_def akgId_def js_def)
  have iso: "c_id (sampleChunks ! 1)
       \<notin> m_id ` set [\<lparr>m_id = js ''c1'', m_chunk_text = js ''Open daily'',
               m_source_url = None, m_metadata = (), m_similarity = - 1\<rparr>]"
    using main[where n = 5 and distance = "\<lambda>a b. \<bar>a - b\<bar>" and content_chunks = sampleChunks
        and p = akgId and v = 1, THEN conjunct2, THEN conjunct1] ev d c
    by blast
  let ?q = "js ''Is there a cafe?''"
  let ?w = "sampleWorld (Some akg) (weakRows @ [cafeRow])"
  let ?src = "\<lparr>source_id = js ''c3'', source_url = None, similarity = 8 / 10\<rparr>"
  have ne: "?q \<noteq> []" by (simp add: js_def)
  note val = valid_sample[OF trim_cafe ne, of "Some akg" "weakRows @ [cafeRow]"]
  have pr: "tryAnswerFromMuseumProfile ?q (museum_row ?w (JString akgId)) = None"
    by (rule tryAnswer_none[OF cafe_question])
  have em: "embedding ?w ?q = Inr ()" by (simp add: sampleWorld_def)
  have se: "match_content_chunks ?w () (rpcMatchCount (ask ?q)) (JString akgId) = Inr (weakRows @ [cafeRow])"
    by (simp add: sampleWorld_def)
  have bo: "body (fst (handler sampleConfig ?w (post (ask ?q))))
            = AnswerJson \<lparr>answer = js ''Yes.'', sources = [?src]\<rparr>"
    by (simp add: cafe_answer)
  have "\<forall>src \<in> set (sources \<lparr>answer = js ''Yes.'', sources = [?src]\<rparr>).
          \<exists>r \<in> set (weakRows @ [cafeRow]). source_id src = match_id r"
    using main[where cfg = sampleConfig and w = ?w and req = "post (ask ?q)" and b = "ask ?q"
        and museumId = "JString akgId" and q = ?q and e = "()" and found = "weakRows @ [cafeRow]"
        and ans = "\<lparr>answer = js ''Yes.'', sources = [?src]\<rparr>",
        THEN conjunct2, THEN conjunct2]
      val pr em se bo
    by blast
  then have shown: "js ''c3'' \<in> match_id ` set (weakRows @ [cafeRow])" by auto
  show ?thesis using ev d c iso val bo shown by simp
qed

end
